(* ===== verification/Prelude.thy ===== *)
theory Prelude
  imports Complex_Main "HOL-Library.AList" "HOL-Library.Char_ord"
    "HOL-Library.List_Lexorder" "HOL-Library.Product_Lexorder"
begin

section \<open>Prelude: errors, dictionaries, sorting, rounding\<close>

text \<open>
  What every component of the model shares.  A Python exception is a value of type
  \<open>py_error\<close> and a call that may raise returns \<open>'a result\<close>.  A Python \<open>dict\<close> is an
  association list: \<open>AList.update\<close> replaces the value of a present key in place and appends a
  new key at the end, which is the insertion order the language guarantees, and iteration
  over the list is iteration over the dictionary.  A Python \<open>float\<close> is an exact \<open>real\<close>.
  Strings are lists of characters compared lexicographically by code.
\<close>

named_theorems result_simps \<open>equations of the error monad\<close>
named_theorems dict_simps \<open>equations of dictionaries\<close>

subsection \<open>Errors as values\<close>

datatype py_error =
    ValueError
  | KeyError
  | TypeError
  | RuntimeError string
  | TimeoutError
  | OSError
  | ImportError
  | IndexError
  | AttributeError

type_synonym 'a result = "py_error + 'a"

definition ebind :: "'a result \<Rightarrow> ('a \<Rightarrow> 'b result) \<Rightarrow> 'b result" where
  "ebind m f = (case m of Inl e \<Rightarrow> Inl e | Inr x \<Rightarrow> f x)"

lemma ebind_Inl [simp, result_simps]: "ebind (Inl e) f = Inl e"
  by (simp add: ebind_def)

lemma ebind_Inr [simp, result_simps]: "ebind (Inr x) f = f x"
  by (simp add: ebind_def)

lemma ebind_eq_Inr [simp]: "ebind m f = Inr y \<longleftrightarrow> (\<exists>x. m = Inr x \<and> f x = Inr y)"
  by (cases m) auto

lemma ebind_cong [fundef_cong]:
  "m = m' \<Longrightarrow> (\<And>x. m' = Inr x \<Longrightarrow> f x = g x) \<Longrightarrow> ebind m f = ebind m' g"
  by (cases m') auto

text \<open>A list comprehension whose filter may raise: the first raising element ends it.\<close>

fun filter_result :: "('a \<Rightarrow> bool result) \<Rightarrow> 'a list \<Rightarrow> 'a list result" where
  "filter_result P [] = Inr []"
| "filter_result P (x # xs) =
     ebind (P x) (\<lambda>b. ebind (filter_result P xs) (\<lambda>ys. Inr (if b then x # ys else ys)))"

lemma filter_result_InrD:
  "filter_result P xs = Inr ys \<Longrightarrow>
     ys = filter (\<lambda>x. P x = Inr True) xs \<and> (\<forall>x \<in> set xs. \<exists>b. P x = Inr b)"
  by (induction xs arbitrary: ys) (auto split: if_splits)

lemma filter_result_total:
  "(\<And>x. x \<in> set xs \<Longrightarrow> P x = Inr (Q x)) \<Longrightarrow> filter_result P xs = Inr (filter Q xs)"
  by (induction xs) auto

lemma filter_result_cong [fundef_cong]:
  "xs = ys \<Longrightarrow> (\<And>x. x \<in> set ys \<Longrightarrow> P x = Q x) \<Longrightarrow> filter_result P xs = filter_result Q ys"
  by (induction ys arbitrary: xs) (auto intro: ebind_cong)

fun map_result :: "('a \<Rightarrow> 'b result) \<Rightarrow> 'a list \<Rightarrow> 'b list result" where
  "map_result f [] = Inr []"
| "map_result f (x # xs) = ebind (f x) (\<lambda>y. ebind (map_result f xs) (\<lambda>ys. Inr (y # ys)))"

lemma map_result_total:
  "(\<And>x. x \<in> set xs \<Longrightarrow> f x = Inr (g x)) \<Longrightarrow> map_result f xs = Inr (map g xs)"
  by (induction xs) auto

lemma map_result_cong [fundef_cong]:
  "xs = ys \<Longrightarrow> (\<And>x. x \<in> set ys \<Longrightarrow> f x = g x) \<Longrightarrow> map_result f xs = map_result g ys"
  by (induction ys arbitrary: xs) (auto intro: ebind_cong)

lemma map_result_Inr:
  "map_result f xs = Inr ys \<Longrightarrow> length ys = length xs \<and> (\<forall>y \<in> set ys. \<exists>x \<in> set xs. f x = Inr y)"
  by (induction xs arbitrary: ys) fastforce+

subsection \<open>State and errors\<close>

text \<open>
  A method that changes an object and may raise maps the state before the call to what the call
  gives and the state after it; a raised error keeps the changes made so far.
\<close>

type_synonym ('s, 'a) py = "'s \<Rightarrow> 'a result \<times> 's"

definition sret :: "'a \<Rightarrow> ('s, 'a) py" where
  "sret x = (\<lambda>s. (Inr x, s))"

definition sbind :: "('s, 'a) py \<Rightarrow> ('a \<Rightarrow> ('s, 'b) py) \<Rightarrow> ('s, 'b) py" where
  "sbind m f = (\<lambda>s. case m s of (r, s1) \<Rightarrow> (case r of Inl e \<Rightarrow> (Inl e, s1) | Inr x \<Rightarrow> f x s1))"

definition smodify :: "('s \<Rightarrow> 's) \<Rightarrow> ('s, unit) py" where
  "smodify f = (\<lambda>s. (Inr (), f s))"

definition slift :: "'a result \<Rightarrow> ('s, 'a) py" where
  "slift r = (\<lambda>s. (r, s))"

fun siter :: "('a \<Rightarrow> ('s, unit) py) \<Rightarrow> 'a list \<Rightarrow> ('s, unit) py" where
  "siter f [] = sret ()"
| "siter f (x # xs) = sbind (f x) (\<lambda>_. siter f xs)"

lemma sret_apply [simp]: "sret x s = (Inr x, s)"
  by (simp add: sret_def)

lemma smodify_apply [simp]: "smodify f s = (Inr (), f s)"
  by (simp add: smodify_def)

lemma slift_apply [simp]: "slift r s = (r, s)"
  by (simp add: slift_def)

lemma sbind_Inr: "m s = (Inr x, s1) \<Longrightarrow> sbind m f s = f x s1"
  by (simp add: sbind_def)

lemma sbind_Inl: "m s = (Inl e, s1) \<Longrightarrow> sbind m f s = (Inl e, s1)"
  by (simp add: sbind_def)

lemma sbind_InrE:
  assumes "sbind m f s = (Inr y, s')"
  obtains x s1 where "m s = (Inr x, s1)" and "f x s1 = (Inr y, s')"
  using assms by (auto simp: sbind_def split: prod.splits sum.splits)

text \<open>What both parts of a sequence keep, the sequence keeps.\<close>

lemma sbind_keeps:
  assumes "P s" and "\<And>s. P s \<Longrightarrow> P (snd (m s))" and "\<And>x s. P s \<Longrightarrow> P (snd (f x s))"
  shows "P (snd (sbind m f s))"
proof (cases "m s")
  case (Pair r s1)
  then have "P s1"
    using assms(1,2) by (metis snd_conv)
  with Pair assms(3) show ?thesis
    by (cases r) (simp_all add: sbind_def)
qed

lemma siter_keeps_on:
  assumes "P s" and "\<And>x s. x \<in> set xs \<Longrightarrow> P s \<Longrightarrow> P (snd (f x s))"
  shows "P (snd (siter f xs s))"
  using assms
proof (induction xs arbitrary: s)
  case (Cons x xs)
  have "P (snd (siter f xs s))" if "P s" for s
    using that by (rule Cons.IH) (simp add: Cons.prems(2))
  then show ?case
    unfolding siter.simps by (intro sbind_keeps [where P = P] Cons.prems) simp_all
qed simp

lemma siter_keeps:
  assumes "P s" and "\<And>x s. P s \<Longrightarrow> P (snd (f x s))"
  shows "P (snd (siter f xs s))"
  using assms(1)
proof (induction xs arbitrary: s)
  case (Cons x xs)
  then show ?case
    using assms(2) by (simp add: sbind_keeps)
qed simp

subsection \<open>Dictionaries\<close>

type_synonym 'v dict = "(string \<times> 'v) list"

abbreviation dict_get :: "'v dict \<Rightarrow> string \<Rightarrow> 'v option" where
  "dict_get d k \<equiv> map_of d k"

abbreviation dict_set :: "string \<Rightarrow> 'v \<Rightarrow> 'v dict \<Rightarrow> 'v dict" where
  "dict_set k v d \<equiv> AList.update k v d"

abbreviation dict_pop :: "string \<Rightarrow> 'v dict \<Rightarrow> 'v dict" where
  "dict_pop k d \<equiv> AList.delete k d"

abbreviation dict_keys :: "'v dict \<Rightarrow> string list" where
  "dict_keys d \<equiv> map fst d"

abbreviation dict_values :: "'v dict \<Rightarrow> 'v list" where
  "dict_values d \<equiv> map snd d"

definition dict_get_default :: "'v dict \<Rightarrow> string \<Rightarrow> 'v \<Rightarrow> 'v" where
  "dict_get_default d k v = (case dict_get d k of None \<Rightarrow> v | Some w \<Rightarrow> w)"

definition dict_ok :: "'v dict \<Rightarrow> bool" where
  "dict_ok d \<longleftrightarrow> distinct (dict_keys d)"

lemma dict_get_set [simp, dict_simps]:
  "dict_get (dict_set k v d) k' = (if k' = k then Some v else dict_get d k')"
  by (simp add: update_conv')

lemma dict_get_pop [simp, dict_simps]:
  "dict_get (dict_pop k d) k' = (if k' = k then None else dict_get d k')"
  by (simp add: delete_conv')

lemma dict_get_default_set [simp, dict_simps]:
  "dict_get_default (dict_set k v d) k' w = (if k' = k then v else dict_get_default d k' w)"
  by (simp add: dict_get_default_def)

lemma dict_get_default_Nil [simp, dict_simps]: "dict_get_default [] k w = w"
  by (simp add: dict_get_default_def)

lemma dict_ok_Nil [simp]: "dict_ok []"
  by (simp add: dict_ok_def)

lemma dict_ok_set [simp]: "dict_ok d \<Longrightarrow> dict_ok (dict_set k v d)"
  by (simp add: dict_ok_def distinct_update)

lemma dict_ok_pop [simp]: "dict_ok d \<Longrightarrow> dict_ok (dict_pop k d)"
  unfolding dict_ok_def by (rule distinct_delete)

lemma dict_keys_set [dict_simps]:
  "set (dict_keys (dict_set k v d)) = insert k (set (dict_keys d))"
  using dom_update [of k v d] by simp

lemma dict_keys_pop [dict_simps]:
  "set (dict_keys (dict_pop k d)) = set (dict_keys d) - {k}"
  by (simp add: delete_keys)

lemma dict_set_present_keys:
  "k \<in> set (dict_keys d) \<Longrightarrow> dict_keys (dict_set k v d) = dict_keys d"
  by (simp add: update_keys)

subsection \<open>Stable sorting by a key\<close>

lemma sort_key_eq_Nil_iff [simp]: "sort_key f xs = [] \<longleftrightarrow> xs = []"
  by (metis length_0_conv length_sort)

lemma hd_sort_key:
  assumes "xs \<noteq> []"
  shows "hd (sort_key f xs) \<in> set xs \<and> (\<forall>y \<in> set xs. f (hd (sort_key f xs)) \<le> f y)"
proof -
  have "sort_key f xs \<noteq> []"
    using assms by simp
  then obtain a ys where s: "sort_key f xs = a # ys"
    by (cases "sort_key f xs") auto
  have mem: "set xs = insert a (set ys)"
    using s by (metis list.simps(15) set_sort)
  have "sorted (map f (a # ys))"
    using s by (metis sorted_sort_key)
  then show ?thesis
    using s mem by auto
qed

text \<open>The head of a sorted list by a scan: the later of two wins only with a smaller key.\<close>

lemma hd_sort_key_Cons2:
  "hd (sort_key f (b # x # xs)) = hd (sort_key f ((if f b \<le> f x then b else x) # xs))"
  by (cases "sort_key f xs") auto

subsection \<open>Rounding to a number of decimals\<close>

text \<open>
  Python's \<open>round(x, n)\<close> rounds to the nearest multiple of \<open>10^-n\<close>, ties to the even one.
\<close>

definition round_half_even :: "real \<Rightarrow> int" where
  "round_half_even x =
     (let f = \<lfloor>x\<rfloor>; d = x - of_int f
      in if d < 1 / 2 then f else if d > 1 / 2 then f + 1 else if even f then f else f + 1)"

definition py_round :: "nat \<Rightarrow> real \<Rightarrow> real" where
  "py_round n x = of_int (round_half_even (x * 10 ^ n)) / 10 ^ n"

text \<open>\<open>int(x)\<close> of a float cuts off towards zero.\<close>

definition py_trunc :: "real \<Rightarrow> int" where
  "py_trunc x = (if 0 \<le> x then \<lfloor>x\<rfloor> else \<lceil>x\<rceil>)"

lemma round_half_even_bounds:
  "x - 1 / 2 \<le> of_int (round_half_even x) \<and> of_int (round_half_even x) \<le> x + 1 / 2"
  unfolding round_half_even_def Let_def by (auto; linarith)

lemma round_half_even_of_int [simp]: "round_half_even (of_int k) = k"
  by (simp add: round_half_even_def)

lemma round_half_even_mono:
  assumes "x \<le> y"
  shows "round_half_even x \<le> round_half_even y"
proof (cases "\<lfloor>x\<rfloor> = \<lfloor>y\<rfloor>")
  case True
  then show ?thesis
    using assms by (auto simp: round_half_even_def Let_def)
next
  case False
  then have "\<lfloor>x\<rfloor> + 1 \<le> \<lfloor>y\<rfloor>"
    using floor_mono [OF assms] by linarith
  moreover have "round_half_even x \<le> \<lfloor>x\<rfloor> + 1" and "\<lfloor>y\<rfloor> \<le> round_half_even y"
    by (auto simp: round_half_even_def Let_def)
  ultimately show ?thesis by linarith
qed

lemma py_round_mono: "x \<le> y \<Longrightarrow> py_round n x \<le> py_round n y"
  by (simp add: py_round_def divide_right_mono round_half_even_mono)

lemma py_round_0 [simp]: "py_round n 0 = 0"
  using round_half_even_of_int [of 0] by (simp add: py_round_def)

lemma py_round_1 [simp]: "py_round n 1 = 1"
  using round_half_even_of_int [of "10 ^ n"] by (simp add: py_round_def)

lemma py_round_error: "\<bar>py_round n x - x\<bar> \<le> 1 / (2 * 10 ^ n)"
proof -
  let ?r = "of_int (round_half_even (x * 10 ^ n)) :: real"
  have "\<bar>?r - x * 10 ^ n\<bar> \<le> 1 / 2"
    using round_half_even_bounds [of "x * 10 ^ n"] by linarith
  then have "\<bar>?r - x * 10 ^ n\<bar> / 10 ^ n \<le> (1 / 2) / 10 ^ n"
    by (intro divide_right_mono) auto
  moreover have "\<bar>?r - x * 10 ^ n\<bar> / 10 ^ n = \<bar>py_round n x - x\<bar>"
    by (simp add: py_round_def diff_divide_distrib flip: abs_divide)
       (simp add: abs_if field_simps)
  ultimately show ?thesis by simp
qed

lemma py_round_nonneg: "0 \<le> x \<Longrightarrow> 0 \<le> py_round n x"
  using py_round_mono [of 0 x n] by simp

lemma py_round_le_1: "x \<le> 1 \<Longrightarrow> py_round n x \<le> 1"
  using py_round_mono [of x 1 n] by simp

subsection \<open>Operations that keep an invariant\<close>

text \<open>
  The contract every stateful component offers: each operation, called where its precondition
  holds, keeps the component's invariant.  Any legal sequence of operations then keeps it.
\<close>

fun legal_run :: "('op \<Rightarrow> 's \<Rightarrow> 's) \<Rightarrow> ('op \<Rightarrow> 's \<Rightarrow> bool) \<Rightarrow> 'op list \<Rightarrow> 's \<Rightarrow> bool" where
  "legal_run run allowed [] s = True"
| "legal_run run allowed (p # ps) s = (allowed p s \<and> legal_run run allowed ps (run p s))"

lemma legal_always: "legal_run run (\<lambda>_ _. True) ps s"
  by (induction ps arbitrary: s) simp_all

locale stateful =
  fixes run :: "'op \<Rightarrow> 's \<Rightarrow> 's"
    and allowed :: "'op \<Rightarrow> 's \<Rightarrow> bool"
    and ok :: "'s \<Rightarrow> bool"
  assumes run_ok: "ok s \<Longrightarrow> allowed p s \<Longrightarrow> ok (run p s)"
begin

lemma run_all_ok: "ok s \<Longrightarrow> legal_run run allowed ps s \<Longrightarrow> ok (fold run ps s)"
  by (induction ps arbitrary: s) (auto intro: run_ok)

end

end
