(* ===== verification/Models.thy ===== *)
theory Models
  imports Prelude
begin

section \<open>Data model: nodes, tasks, jobs\<close>

text \<open>
  The package \<^verbatim>\<open>mesh/models\<close>: enumerations (\<^verbatim>\<open>enums.py\<close>), the resource snapshot and node
  (\<^verbatim>\<open>node.py\<close>), requirements and task specification (\<^verbatim>\<open>task.py\<close>), job (\<^verbatim>\<open>job.py\<close>), and the
  part of \<open>float(str)\<close> they use.  Fields of different classes with one name get a suffix:
  \<open>_req\<close> for requirements.  A value of type \<open>Any\<close> is a \<open>pyval\<close>.  The callable of a task is
  its name in the task registry.
\<close>

subsection \<open>Values of type Any\<close>

datatype pyval =
    PNone
  | PBool bool
  | PInt int
  | PFloat real
  | PStr string
  | PList "pyval list"
  | PDict "(string \<times> pyval) list"

subsection \<open>Enumerations (mesh/models/enums.py, mesh/models/job.py)\<close>

datatype node_state = HEALTHY | SUSPECTED | DEAD | PREEMPTED | OFFLINE

datatype resource_pool = POOL_CPU | POOL_MEMORY | POOL_GPU | POOL_NIGHT

datatype task_state =
  T_PENDING | T_RUNNING | T_CHECKPOINTING | T_PAUSED | T_COMPLETED | T_FAILED | T_MIGRATING

datatype job_state = J_PENDING | J_RUNNING | J_COMPLETED | J_FAILED | J_CANCELLED

subsection \<open>Records (mesh/models/node.py, mesh/models/task.py, mesh/models/job.py)\<close>

record node_resources =
  cpu_cores_total :: int
  cpu_cores_free :: real
  ram_gb_total :: real
  ram_gb_free :: real
  gpu_count :: int
  vram_gb_free :: real
  cuda_version :: "string option"
  network_gbps :: real
  battery_pct :: "real option"
  cpu_utilization :: real
  user_active :: bool

record node =
  node_id :: string
  hostname :: string
  resources :: node_resources
  node_state :: node_state
  reliability_score :: real
  latency_score :: real
  node_pool :: resource_pool
  preemptible :: bool
  location :: string
  tags :: "string dict"

record requirements =
  cpu_cores_req :: real
  ram_gb_req :: real
  gpu_count_req :: int
  vram_gb_req :: real
  cuda_version_req :: "string option"
  network_gbps_req :: real
  min_battery_pct :: "real option"

record task_spec =
  task_name :: string
  task_requirements :: requirements
  task_pool :: "resource_pool option"
  replicas :: int
  task_checkpoint :: bool
  checkpoint_interval :: real
  preemption_ok :: bool
  task_id :: string
  task_job_id :: "string option"
  replica_index :: int
  task_state :: task_state
  assigned_node :: "string option"
  task_progress :: real
  total_work :: real
  state_data :: "pyval dict"
  task_fn :: "string option"

record job =
  job_id :: string
  job_name :: string
  job_state :: job_state
  task_ids :: "string list"
  job_result :: pyval
  job_error :: "string option"
  idempotency_key :: "string option"
  completed_task_id :: "string option"

text \<open>The defaults the dataclasses declare.\<close>

definition default_requirements :: requirements where
  "default_requirements =
     \<lparr>cpu_cores_req = 1, ram_gb_req = 1, gpu_count_req = 0, vram_gb_req = 0,
      cuda_version_req = None, network_gbps_req = 0, min_battery_pct = None\<rparr>"

definition new_task_spec :: "string \<Rightarrow> string \<Rightarrow> task_spec" where
  "new_task_spec name tid =
     \<lparr>task_name = name, task_requirements = default_requirements, task_pool = None,
      replicas = 1, task_checkpoint = False, checkpoint_interval = 30, preemption_ok = True,
      task_id = tid, task_job_id = None, replica_index = 0, task_state = T_PENDING,
      assigned_node = None, task_progress = 0, total_work = 1, state_data = [],
      task_fn = None\<rparr>"

definition new_job :: "string \<Rightarrow> string \<Rightarrow> string option \<Rightarrow> job" where
  "new_job jid name key =
     \<lparr>job_id = jid, job_name = name, job_state = J_PENDING, task_ids = [], job_result = PNone,
      job_error = None, idempotency_key = key, completed_task_id = None\<rparr>"

definition is_terminal :: "job \<Rightarrow> bool" where
  "is_terminal j \<longleftrightarrow> job_state j \<in> {J_COMPLETED, J_FAILED, J_CANCELLED}"

definition progress_pct :: "task_spec \<Rightarrow> real" where
  "progress_pct t =
     (if total_work t = 0 then 100 else min 100 (task_progress t / total_work t * 100))"

subsection \<open>Score components (NodeResources)\<close>

definition cpu_score_component :: "node_resources \<Rightarrow> real" where
  "cpu_score_component r =
     (if cpu_cores_total r = 0 then 0
      else min 1 (cpu_cores_free r / of_int (cpu_cores_total r)))"

definition memory_score_component :: "node_resources \<Rightarrow> real" where
  "memory_score_component r =
     (if ram_gb_total r = 0 then 0 else min 1 (ram_gb_free r / ram_gb_total r))"

definition gpu_score_component :: "node_resources \<Rightarrow> real" where
  "gpu_score_component r =
     (if gpu_count r = 0 then 0 else if 0 < vram_gb_free r then 1 else 0)"

subsection \<open>Reading a float from a string\<close>

text \<open>
  \<open>float(s)\<close> on a string: surrounding white space, a sign, digits with single underscores
  between them, a fraction and an exponent; anything else raises \<open>ValueError\<close>.  The
  spellings of infinity and of not-a-number, which no version string has, are not accepted.
\<close>

definition is_digit :: "char \<Rightarrow> bool" where
  "is_digit c \<longleftrightarrow> of_char c \<ge> (48::nat) \<and> of_char c \<le> (57::nat)"

definition is_space :: "char \<Rightarrow> bool" where
  "is_space c \<longleftrightarrow> of_char c \<in> {9::nat, 10, 11, 12, 13, 28, 29, 30, 31, 32}"

definition strip :: "string \<Rightarrow> string" where
  "strip s = rev (dropWhile is_space (rev (dropWhile is_space s)))"

definition digit_val :: "char \<Rightarrow> nat" where
  "digit_val c = of_char c - 48"

definition digits_val :: "string \<Rightarrow> nat" where
  "digits_val s = foldl (\<lambda>a c. if is_digit c then 10 * a + digit_val c else a) 0 s"

text \<open>A digit part: digits, with single underscores allowed between two of them.\<close>

fun digit_tail :: "string \<Rightarrow> bool" where
  "digit_tail [] = True"
| "digit_tail [c] = is_digit c"
| "digit_tail (c # d # s) =
     (if is_digit c then digit_tail (d # s)
      else c = CHR ''_'' \<and> is_digit d \<and> digit_tail s)"

definition digit_part :: "string \<Rightarrow> bool" where
  "digit_part s = (case s of [] \<Rightarrow> False | c # t \<Rightarrow> is_digit c \<and> digit_tail t)"

definition digit_count :: "string \<Rightarrow> nat" where
  "digit_count s = length (filter is_digit s)"

definition split_sign :: "string \<Rightarrow> int \<times> string" where
  "split_sign s =
     (case s of
        [] \<Rightarrow> (1, [])
      | c # t \<Rightarrow> if c = CHR ''-'' then (-1, t) else if c = CHR ''+'' then (1, t) else (1, s))"

definition mantissa_val :: "string \<Rightarrow> real option" where
  "mantissa_val m =
     (let i = takeWhile (\<lambda>c. c \<noteq> CHR ''.'') m; r = dropWhile (\<lambda>c. c \<noteq> CHR ''.'') m
      in case r of
           [] \<Rightarrow> if digit_part i then Some (of_nat (digits_val i)) else None
         | _ # f \<Rightarrow>
             if (i = [] \<or> digit_part i) \<and> (f = [] \<or> digit_part f) \<and> \<not> (i = [] \<and> f = [])
             then Some (of_nat (digits_val i) + of_nat (digits_val f) / 10 ^ digit_count f)
             else None)"

definition exponent_val :: "string \<Rightarrow> int option" where
  "exponent_val e =
     (case split_sign e of (sg, d) \<Rightarrow>
        if digit_part d then Some (sg * int (digits_val d)) else None)"

definition py_float :: "string \<Rightarrow> real result" where
  "py_float s =
     (case split_sign (strip s) of (sg, u) \<Rightarrow>
        let m = takeWhile (\<lambda>c. c \<notin> {CHR ''e'', CHR ''E''}) u;
            x = dropWhile (\<lambda>c. c \<notin> {CHR ''e'', CHR ''E''}) u
        in case mantissa_val m of
             None \<Rightarrow> Inl ValueError
           | Some v \<Rightarrow>
               (case x of
                  [] \<Rightarrow> Inr (of_int sg * v)
                | _ # e \<Rightarrow>
                    (case exponent_val e of
                       None \<Rightarrow> Inl ValueError
                     | Some k \<Rightarrow> Inr (of_int sg * v * 10 powi k))))"

text \<open>\<open>s.split(".")[0]\<close>: the text before the first dot.\<close>

definition split_dot_head :: "string \<Rightarrow> string" where
  "split_dot_head s = takeWhile (\<lambda>c. c \<noteq> CHR ''.'') s"

subsection \<open>Node.meets_requirements\<close>

text \<open>
  The chain of early returns, in the source's order.  A version string whose major part is
  not a number makes \<open>float\<close> raise.
\<close>

definition cuda_too_old :: "node_resources \<Rightarrow> requirements \<Rightarrow> bool result" where
  "cuda_too_old r req =
     (case (cuda_version_req req, cuda_version r) of
        (Some want, Some have) \<Rightarrow>
          if want \<noteq> [] \<and> have \<noteq> []
          then ebind (py_float (split_dot_head have)) (\<lambda>a.
               ebind (py_float (split_dot_head want)) (\<lambda>b. Inr (a < b)))
          else Inr False
      | _ \<Rightarrow> Inr False)"

definition meets_gpu :: "node_resources \<Rightarrow> requirements \<Rightarrow> bool result" where
  "meets_gpu r req =
     (if 0 < gpu_count_req req then
        if gpu_count r < gpu_count_req req then Inr False
        else if 0 < vram_gb_req req \<and> vram_gb_free r < vram_gb_req req then Inr False
        else ebind (cuda_too_old r req) (\<lambda>old. Inr (\<not> old))
      else Inr True)"

definition battery_too_low :: "node_resources \<Rightarrow> requirements \<Rightarrow> bool" where
  "battery_too_low r req =
     (case (min_battery_pct req, battery_pct r) of
        (Some lo, Some b) \<Rightarrow> b < lo
      | _ \<Rightarrow> False)"

definition meets_requirements :: "node \<Rightarrow> requirements \<Rightarrow> bool result" where
  "meets_requirements n req =
     (let r = resources n in
      if cpu_cores_free r < cpu_cores_req req then Inr False
      else if ram_gb_free r < ram_gb_req req then Inr False
      else ebind (meets_gpu r req) (\<lambda>g.
        if \<not> g then Inr False
        else if 0 < network_gbps_req req \<and> network_gbps r < network_gbps_req req then Inr False
        else if battery_too_low r req then Inr False
        else if node_state n \<noteq> HEALTHY then Inr False
        else Inr True))"

subsection \<open>Facts about requirements\<close>

lemma meets_requirementsD:
  assumes "meets_requirements n req = Inr True"
  shows "cpu_cores_req req \<le> cpu_cores_free (resources n)"
    and "ram_gb_req req \<le> ram_gb_free (resources n)"
    and "node_state n = HEALTHY"
    and "0 < gpu_count_req req \<Longrightarrow> gpu_count_req req \<le> gpu_count (resources n)"
    and "0 < network_gbps_req req \<Longrightarrow> network_gbps_req req \<le> network_gbps (resources n)"
  using assms
  by (auto simp: meets_requirements_def meets_gpu_def Let_def split: if_splits)

text \<open>
  What makes a node suitable, stated without the order of the tests.  When no version
  string is compared the code cannot raise and decides exactly this.
\<close>

definition suitable :: "node \<Rightarrow> requirements \<Rightarrow> bool" where
  "suitable n req \<longleftrightarrow>
     node_state n = HEALTHY
     \<and> cpu_cores_req req \<le> cpu_cores_free (resources n)
     \<and> ram_gb_req req \<le> ram_gb_free (resources n)
     \<and> (gpu_count_req req \<le> 0 \<or>
          gpu_count_req req \<le> gpu_count (resources n)
          \<and> (vram_gb_req req \<le> 0 \<or> vram_gb_req req \<le> vram_gb_free (resources n)))
     \<and> (network_gbps_req req \<le> 0 \<or> network_gbps_req req \<le> network_gbps (resources n))
     \<and> \<not> battery_too_low (resources n) req"

lemma meets_gpu_suitable:
  assumes "cuda_version_req req = None"
  shows "meets_gpu r req =
    Inr (gpu_count_req req \<le> 0 \<or>
          gpu_count_req req \<le> gpu_count r
          \<and> (vram_gb_req req \<le> 0 \<or> vram_gb_req req \<le> vram_gb_free r))"
  using assms by (simp add: meets_gpu_def cuda_too_old_def not_less)

lemma meets_requirements_suitable:
  assumes "cuda_version_req req = None"
  shows "meets_requirements n req = Inr (suitable n req)"
  unfolding meets_requirements_def meets_gpu_suitable [OF assms] Let_def suitable_def
  by (simp add: not_less not_le)

lemma meets_requirements_no_gpu:
  assumes "gpu_count_req req \<le> 0"
  shows "meets_requirements n req = Inr (suitable n req)"
proof -
  have "meets_gpu (resources n) req = Inr True"
    using assms by (simp add: meets_gpu_def)
  then show ?thesis
    using assms unfolding meets_requirements_def Let_def suitable_def
    by (simp add: not_less not_le)
qed

lemma is_terminal_simps [simp]:
  "job_state j = J_COMPLETED \<Longrightarrow> is_terminal j"
  "job_state j = J_FAILED \<Longrightarrow> is_terminal j"
  "job_state j = J_CANCELLED \<Longrightarrow> is_terminal j"
  "job_state j = J_RUNNING \<Longrightarrow> \<not> is_terminal j"
  "job_state j = J_PENDING \<Longrightarrow> \<not> is_terminal j"
  by (simp_all add: is_terminal_def)

end
