(* ===== verification/Samples.thy ===== *)
theory Samples
  imports Models
begin

section \<open>Concrete nodes and tasks\<close>

text \<open>
  Concrete values on which the theories instantiate their properties: a node with a given
  number of free cores out of eight and half its memory free, and a task asking for cores.
\<close>

definition sample_node :: "string \<Rightarrow> real \<Rightarrow> node" where
  "sample_node nid free =
     \<lparr>node_id = nid, hostname = nid,
      resources = \<lparr>cpu_cores_total = 8, cpu_cores_free = free, ram_gb_total = 16, ram_gb_free = 8,
                   gpu_count = 0, vram_gb_free = 0, cuda_version = None, network_gbps = 1,
                   battery_pct = Some 90, cpu_utilization = 0, user_active = False\<rparr>,
      node_state = HEALTHY, reliability_score = 1, latency_score = 1, node_pool = POOL_CPU,
      preemptible = False, location = ''home'', tags = []\<rparr>"

definition sample_task :: "string \<Rightarrow> real \<Rightarrow> task_spec" where
  "sample_task tid cores =
     (new_task_spec ''work'' tid)\<lparr>task_requirements := default_requirements\<lparr>cpu_cores_req := cores\<rparr>\<rparr>"

definition assigned_task :: "string \<Rightarrow> string \<Rightarrow> task_spec" where
  "assigned_task tid nid =
     (sample_task tid 1)\<lparr>assigned_node := Some nid, task_state := T_RUNNING\<rparr>"

lemmas sample_defs =
  sample_node_def sample_task_def assigned_task_def new_task_spec_def default_requirements_def

lemma sample_node_sel [simp]:
  "node_id (sample_node nid free) = nid"
  "node_state (sample_node nid free) = HEALTHY"
  "cpu_cores_total (resources (sample_node nid free)) = 8"
  "cpu_cores_free (resources (sample_node nid free)) = free"
  by (simp_all add: sample_node_def)

lemma sample_task_sel [simp]:
  "task_id (sample_task tid cores) = tid"
  "task_id (assigned_task tid nid) = tid"
  "assigned_node (assigned_task tid nid) = Some nid"
  "task_state (assigned_task tid nid) = T_RUNNING"
  by (simp_all add: sample_defs)

end
