(* ===== verification/Scoring.thy ===== *)
theory Scoring
  imports Samples
begin

section \<open>Node scoring (mesh/scheduler/scoring.py)\<close>

text \<open>
  \<^verbatim>\<open>ScoringWeights\<close> with the check of its \<^verbatim>\<open>__post_init__\<close>, \<^verbatim>\<open>NodeScorer.score\<close>, and its bounds
  and monotonicity.
\<close>

record scoring_weights =
  w_cpu :: real
  w_memory :: real
  w_gpu :: real
  w_reliability :: real
  w_network :: real

definition default_weights :: scoring_weights where
  "default_weights =
     \<lparr>w_cpu = 35 / 100, w_memory = 25 / 100, w_gpu = 15 / 100, w_reliability = 15 / 100,
      w_network = 10 / 100\<rparr>"

text \<open>Construction raises unless the weights sum to one within a thousandth.\<close>

definition mk_weights :: "real \<Rightarrow> real \<Rightarrow> real \<Rightarrow> real \<Rightarrow> real \<Rightarrow> scoring_weights result" where
  "mk_weights c m g r n =
     (let total = c + m + g + r + n
      in if \<bar>total - 1\<bar> > 1 / 1000 then Inl ValueError
         else Inr \<lparr>w_cpu = c, w_memory = m, w_gpu = g, w_reliability = r, w_network = n\<rparr>)"

definition cpu_score :: "node_resources \<Rightarrow> requirements \<Rightarrow> real" where
  "cpu_score r req =
     (if cpu_cores_req req \<le> cpu_cores_free r then cpu_score_component r else 0)"

definition mem_score :: "node_resources \<Rightarrow> requirements \<Rightarrow> real" where
  "mem_score r req =
     (if ram_gb_req req \<le> ram_gb_free r then memory_score_component r else 0)"

definition gpu_score :: "node_resources \<Rightarrow> requirements \<Rightarrow> real" where
  "gpu_score r req =
     (if 0 < gpu_count_req req
      then if gpu_count_req req \<le> gpu_count r then gpu_score_component r else 0
      else 1)"

definition network_score :: "node_resources \<Rightarrow> requirements \<Rightarrow> real" where
  "network_score r req = min 1 (network_gbps r / max (network_gbps_req req) 1)"

definition raw_score :: "scoring_weights \<Rightarrow> node \<Rightarrow> requirements \<Rightarrow> real" where
  "raw_score w n req =
     (let r = resources n in
      w_cpu w * cpu_score r req
      + w_memory w * mem_score r req
      + w_gpu w * gpu_score r req
      + w_reliability w * reliability_score n
      + w_network w * network_score r req)"

definition score :: "scoring_weights \<Rightarrow> node \<Rightarrow> requirements \<Rightarrow> real" where
  "score w n req = py_round 6 (raw_score w n req)"

subsection \<open>Well-formed weights and nodes\<close>

definition weights_ok :: "scoring_weights \<Rightarrow> bool" where
  "weights_ok w \<longleftrightarrow>
     0 \<le> w_cpu w \<and> 0 \<le> w_memory w \<and> 0 \<le> w_gpu w \<and> 0 \<le> w_reliability w \<and> 0 \<le> w_network w
     \<and> w_cpu w + w_memory w + w_gpu w + w_reliability w + w_network w \<le> 1 + 1 / 1000"

definition node_ok :: "node \<Rightarrow> bool" where
  "node_ok n \<longleftrightarrow>
     0 \<le> cpu_cores_total (resources n) \<and> 0 \<le> cpu_cores_free (resources n)
     \<and> 0 \<le> ram_gb_total (resources n) \<and> 0 \<le> ram_gb_free (resources n)
     \<and> 0 \<le> network_gbps (resources n)
     \<and> 0 \<le> reliability_score n \<and> reliability_score n \<le> 1"

lemma default_weights_ok [simp]: "weights_ok default_weights"
  by (simp add: weights_ok_def default_weights_def)

lemma mk_weights_default:
  "mk_weights (35/100) (25/100) (15/100) (15/100) (10/100) = Inr default_weights"
  by (simp add: mk_weights_def default_weights_def)

lemma mk_weights_InrD:
  "mk_weights c m g r n = Inr w \<Longrightarrow>
     \<bar>w_cpu w + w_memory w + w_gpu w + w_reliability w + w_network w - 1\<bar> \<le> 1 / 1000"
  by (auto simp: mk_weights_def Let_def split: if_splits)

subsection \<open>Bounds of the components\<close>

lemma score_parts_unit:
  assumes "node_ok n"
  shows "0 \<le> cpu_score (resources n) req \<and> cpu_score (resources n) req \<le> 1"
    and "0 \<le> mem_score (resources n) req \<and> mem_score (resources n) req \<le> 1"
    and "0 \<le> gpu_score (resources n) req \<and> gpu_score (resources n) req \<le> 1"
    and "0 \<le> network_score (resources n) req \<and> network_score (resources n) req \<le> 1"
  using assms
  by (auto simp: node_ok_def cpu_score_def mem_score_def gpu_score_def network_score_def
      cpu_score_component_def memory_score_component_def gpu_score_component_def)

lemma raw_score_nonneg: "weights_ok w \<Longrightarrow> node_ok n \<Longrightarrow> 0 \<le> raw_score w n req"
  using score_parts_unit [of n req]
  by (auto simp: raw_score_def Let_def weights_ok_def node_ok_def)

lemma weighted_le: "0 \<le> (a::real) \<Longrightarrow> x \<le> 1 \<Longrightarrow> a * x \<le> a"
  using mult_left_mono [of x 1 a] by simp

lemma raw_score_le_weights:
  assumes "weights_ok w" and "node_ok n"
  shows "raw_score w n req
    \<le> w_cpu w + w_memory w + w_gpu w + w_reliability w + w_network w"
proof -
  have "w_cpu w * cpu_score (resources n) req \<le> w_cpu w"
    and "w_memory w * mem_score (resources n) req \<le> w_memory w"
    and "w_gpu w * gpu_score (resources n) req \<le> w_gpu w"
    and "w_reliability w * reliability_score n \<le> w_reliability w"
    and "w_network w * network_score (resources n) req \<le> w_network w"
    using assms score_parts_unit [OF assms(2), of req]
    by (auto simp: weights_ok_def node_ok_def intro!: weighted_le)
  then show ?thesis
    by (simp add: raw_score_def Let_def)
qed

subsection \<open>Monotonicity in the free resources\<close>

text \<open>A node dominates another when it has the same totals and at least as much of everything.\<close>

definition dominates :: "node \<Rightarrow> node \<Rightarrow> bool" where
  "dominates b a \<longleftrightarrow>
     cpu_cores_total (resources b) = cpu_cores_total (resources a)
     \<and> ram_gb_total (resources b) = ram_gb_total (resources a)
     \<and> gpu_count (resources b) = gpu_count (resources a)
     \<and> cpu_cores_free (resources a) \<le> cpu_cores_free (resources b)
     \<and> ram_gb_free (resources a) \<le> ram_gb_free (resources b)
     \<and> vram_gb_free (resources a) \<le> vram_gb_free (resources b)
     \<and> network_gbps (resources a) \<le> network_gbps (resources b)
     \<and> reliability_score a \<le> reliability_score b"

lemma cpu_score_dominates:
  assumes "node_ok a" and "dominates b a"
  shows "cpu_score (resources a) req \<le> cpu_score (resources b) req"
proof -
  have "min 1 (cpu_cores_free (resources a) / of_int (cpu_cores_total (resources b)))
      \<le> min 1 (cpu_cores_free (resources b) / of_int (cpu_cores_total (resources b)))"
    using assms by (intro min.mono order_refl divide_right_mono) (auto simp: dominates_def node_ok_def)
  then show ?thesis
    using assms
    by (auto simp: cpu_score_def cpu_score_component_def dominates_def node_ok_def)
qed

lemma mem_score_dominates:
  assumes "node_ok a" and "dominates b a"
  shows "mem_score (resources a) req \<le> mem_score (resources b) req"
proof -
  have "min 1 (ram_gb_free (resources a) / ram_gb_total (resources b))
      \<le> min 1 (ram_gb_free (resources b) / ram_gb_total (resources b))"
    using assms by (intro min.mono order_refl divide_right_mono) (auto simp: dominates_def node_ok_def)
  then show ?thesis
    using assms
    by (auto simp: mem_score_def memory_score_component_def dominates_def node_ok_def)
qed

lemma network_score_dominates:
  assumes "dominates b a"
  shows "network_score (resources a) req \<le> network_score (resources b) req"
  unfolding network_score_def
  using assms by (intro min.mono order_refl divide_right_mono) (auto simp: dominates_def)

lemma gpu_score_dominates:
  assumes "dominates b a"
  shows "gpu_score (resources a) req \<le> gpu_score (resources b) req"
  using assms by (auto simp: gpu_score_def gpu_score_component_def dominates_def)

lemmas dominates_parts =
  cpu_score_dominates mem_score_dominates network_score_dominates gpu_score_dominates

lemma raw_score_dominates:
  assumes "weights_ok w" and "node_ok a" and "dominates b a"
  shows "raw_score w a req \<le> raw_score w b req"
  unfolding raw_score_def Let_def
  using assms dominates_parts [of _ _ req]
  by (intro add_mono mult_left_mono) (auto simp: weights_ok_def dominates_def)

subsection \<open>Properties of the scorer\<close>

text \<open>
  With weights that pass the construction check and none negative, the score of a
  well-formed node lies between 0 and 1.001; with the default weights it is at most 1.
\<close>

lemma score_bounds:
  assumes "weights_ok w" and "node_ok n"
  shows "0 \<le> score w n req \<and> score w n req \<le> 1 + 1 / 1000
    \<and> score default_weights n req \<le> 1"
proof -
  have "raw_score w n req \<le> 1 + 1 / 1000"
    using raw_score_le_weights [OF assms, of req] assms(1) by (simp add: weights_ok_def)
  then have "score w n req \<le> py_round 6 (1 + 1 / 1000)"
    unfolding score_def by (rule py_round_mono)
  moreover have "py_round 6 (1 + 1 / 1000) = 1 + 1 / 1000"
    using round_half_even_of_int [of 1001000] by (simp add: py_round_def)
  moreover have "raw_score default_weights n req \<le> 1"
    using raw_score_le_weights [OF default_weights_ok assms(2), of req]
    by (simp add: default_weights_def)
  ultimately show ?thesis
    using raw_score_nonneg [OF assms] by (simp add: score_def py_round_nonneg py_round_le_1)
qed

text \<open>
  The scorer is monotone: a node that dominates another (same totals, at least as much
  free) never scores lower.
\<close>

lemma score_monotone:
  assumes "weights_ok w" and "node_ok a" and "dominates b a"
  shows "score w a req \<le> score w b req"
  unfolding score_def by (rule py_round_mono) (rule raw_score_dominates [OF assms])

lemma score_bounds_witness:
  "score default_weights (sample_node ''a'' 4) default_requirements \<le> 1"
proof -
  have "node_ok (sample_node ''a'' 4)"
    by code_simp
  then show ?thesis
    using score_bounds [OF default_weights_ok, of "sample_node ''a'' 4" default_requirements] by blast
qed

lemma score_monotone_witness:
  "score default_weights (sample_node ''a'' 4) default_requirements
     \<le> score default_weights (sample_node ''b'' 8) default_requirements"
  by (rule score_monotone [OF default_weights_ok]) code_simp+

end
