(* ===== verification/Pools.thy ===== *)
theory Pools
  imports Samples
begin

section \<open>Pool routing (mesh/scheduler/pools.py)\<close>

text \<open>
  \<^verbatim>\<open>PoolRouter\<close>: the night window, the battery gate and the filter of each pool.  The current
  time enters as the hour of the clock reading, which is all the code uses of it.
\<close>

record pool_router =
  night_start_hour :: int
  night_end_hour :: int
  battery_min_pct :: real

definition default_router :: pool_router where
  "default_router = \<lparr>night_start_hour = 18, night_end_hour = 8, battery_min_pct = 60\<rparr>"

definition is_night_window :: "pool_router \<Rightarrow> int \<Rightarrow> bool" where
  "is_night_window p hour =
     (if night_end_hour p < night_start_hour p
      then night_start_hour p \<le> hour \<or> hour < night_end_hour p
      else night_start_hour p \<le> hour \<and> hour < night_end_hour p)"

definition passes_battery_gate :: "pool_router \<Rightarrow> node \<Rightarrow> bool" where
  "passes_battery_gate p n =
     (case battery_pct (resources n) of None \<Rightarrow> True | Some b \<Rightarrow> battery_min_pct p \<le> b)"

text \<open>
  The memory pool sorts by free memory with \<open>reverse=True\<close>, which keeps the order of equal
  elements: a stable sort by the negated key.
\<close>

definition eligible_nodes :: "pool_router \<Rightarrow> int \<Rightarrow> node list \<Rightarrow> resource_pool option \<Rightarrow> node list" where
  "eligible_nodes p hour nodes pool =
     (case pool of
        None \<Rightarrow> nodes
      | Some POOL_NIGHT \<Rightarrow>
          if \<not> is_night_window p hour then []
          else filter (\<lambda>n. preemptible n \<and> passes_battery_gate p n) nodes
      | Some POOL_GPU \<Rightarrow>
          filter (\<lambda>n. 0 < gpu_count (resources n) \<and> cuda_version (resources n) \<noteq> None
                       \<and> passes_battery_gate p n) nodes
      | Some POOL_MEMORY \<Rightarrow>
          sort_key (\<lambda>n. - ram_gb_free (resources n)) (filter (passes_battery_gate p) nodes)
      | Some POOL_CPU \<Rightarrow>
          filter (\<lambda>n. \<not> preemptible n \<and> passes_battery_gate p n) nodes)"

lemma eligible_nodes_None [simp]: "eligible_nodes p hour nodes None = nodes"
  by (simp add: eligible_nodes_def)

lemma eligible_nodes_subset: "set (eligible_nodes p hour nodes pool) \<subseteq> set nodes"
  by (auto simp: eligible_nodes_def split: option.splits resource_pool.splits if_splits)

lemma eligible_nodes_distinct:
  assumes "distinct (map node_id nodes)"
  shows "distinct (map node_id (eligible_nodes p hour nodes pool))"
proof -
  have d: "distinct (map node_id (filter P nodes))" for P
    using assms by (induction nodes) auto
  have s: "distinct (map node_id (sort_key f xs))" if "distinct (map node_id xs)" for f :: "node \<Rightarrow> real" and xs
    using that by (auto simp: distinct_map)
  show ?thesis
    using assms d s [OF d]
    by (auto simp: eligible_nodes_def split: option.splits resource_pool.splits)
qed

text \<open>
  Battery safety: whatever the pool, a node routed to a pool passes the battery gate, a
  night node is a preemptible one inside the night window, and a cpu-pool node is not
  preemptible.
\<close>

lemma eligible_nodes_safe:
  assumes "n \<in> set (eligible_nodes p hour nodes (Some pool))"
  shows "n \<in> set nodes \<and> passes_battery_gate p n
    \<and> (pool = POOL_NIGHT \<longrightarrow> is_night_window p hour \<and> preemptible n)
    \<and> (pool = POOL_CPU \<longrightarrow> \<not> preemptible n)
    \<and> (pool = POOL_GPU \<longrightarrow> 0 < gpu_count (resources n) \<and> cuda_version (resources n) \<noteq> None)"
  using assms by (cases pool) (auto simp: eligible_nodes_def split: if_splits)

lemma eligible_memory_sorted:
  "sorted (map (\<lambda>n. - ram_gb_free (resources n)) (eligible_nodes p hour nodes (Some POOL_MEMORY)))"
  by (simp add: eligible_nodes_def)

lemma default_night_window:
  "is_night_window default_router h \<longleftrightarrow> 18 \<le> h \<or> h < 8"
  by (simp add: is_night_window_def default_router_def)

lemma eligible_nodes_safe_witness:
  "passes_battery_gate default_router (sample_node ''a'' 4)"
proof -
  have "sample_node ''a'' 4 \<in> set (eligible_nodes default_router 10 [sample_node ''a'' 4] (Some POOL_CPU))"
    by (simp add: eligible_nodes_def passes_battery_gate_def default_router_def sample_node_def)
  from eligible_nodes_safe [OF this] show ?thesis by blast
qed

end
