(* ===== verification/Placement.thy ===== *)
theory Placement
  imports Scoring Pools
begin

section \<open>Placement (mesh/scheduler/placement.py)\<close>

text \<open>
  \<^verbatim>\<open>PlacementEngine.place\<close> routes, filters, scores and sorts; \<^verbatim>\<open>place_all\<close> places a batch and
  charges each placement to its node.  The contract a client of \<^verbatim>\<open>place\<close> relies on is the locale
  \<open>placer\<close>, interpreted here on the engine.
\<close>

record placement =
  pl_task_id :: string
  pl_node_id :: string
  pl_score :: real

record placement_engine =
  scorer :: scoring_weights
  router :: pool_router

definition default_engine :: placement_engine where
  "default_engine = \<lparr>scorer = default_weights, router = default_router\<rparr>"

definition placement_key :: "node \<times> real \<Rightarrow> real \<times> string" where
  "placement_key x = (- snd x, node_id (fst x))"

definition place :: "placement_engine \<Rightarrow> int \<Rightarrow> task_spec \<Rightarrow> node list \<Rightarrow> placement option result" where
  "place e hour t nodes =
     ebind (filter_result (\<lambda>n. meets_requirements n (task_requirements t))
              (eligible_nodes (router e) hour nodes (task_pool t)))
       (\<lambda>candidates.
          if candidates = [] then Inr None
          else
            let scored = map (\<lambda>n. (n, score (scorer e) n (task_requirements t))) candidates;
                best = hd (sort_key placement_key scored)
            in if snd best \<le> 0 then Inr None
               else Inr (Some \<lparr>pl_task_id = task_id t, pl_node_id = node_id (fst best),
                               pl_score = snd best\<rparr>))"

subsection \<open>place_all: placing a batch against a usage table\<close>

definition usage_of :: "(real \<times> real) dict \<Rightarrow> string \<Rightarrow> real \<times> real" where
  "usage_of usage nid = dict_get_default usage nid (0, 0)"

definition apply_usage :: "node list \<Rightarrow> (real \<times> real) dict \<Rightarrow> node list" where
  "apply_usage nodes usage =
     map (\<lambda>n. case usage_of usage (node_id n) of (cpu_used, ram_used) \<Rightarrow>
            n\<lparr>resources := (resources n)
                \<lparr>cpu_cores_free := max 0 (cpu_cores_free (resources n) - cpu_used),
                 ram_gb_free := max 0 (ram_gb_free (resources n) - ram_used)\<rparr>\<rparr>) nodes"

text \<open>The loop calls \<^verbatim>\<open>self.place\<close>; it takes the method as its first argument.\<close>

fun place_all_loop ::
  "(task_spec \<Rightarrow> node list \<Rightarrow> placement option result) \<Rightarrow> node list \<Rightarrow> task_spec list
     \<Rightarrow> (real \<times> real) dict \<Rightarrow> (placement list \<times> (real \<times> real) dict) result" where
  "place_all_loop pf nodes [] usage = Inr ([], usage)"
| "place_all_loop pf nodes (t # ts) usage =
     ebind (pf t (apply_usage nodes usage)) (\<lambda>r.
       case r of
         None \<Rightarrow> place_all_loop pf nodes ts usage
       | Some p \<Rightarrow>
           ebind (place_all_loop pf nodes ts
                    (dict_set (pl_node_id p)
                       (fst (usage_of usage (pl_node_id p)) + cpu_cores_req (task_requirements t),
                        snd (usage_of usage (pl_node_id p)) + ram_gb_req (task_requirements t))
                       usage))
             (\<lambda>(ps, u). Inr (p # ps, u)))"

definition place_all :: "placement_engine \<Rightarrow> int \<Rightarrow> task_spec list \<Rightarrow> node list \<Rightarrow> placement list result" where
  "place_all e hour tasks nodes =
     ebind (place_all_loop (place e hour) nodes tasks []) (\<lambda>(ps, u). Inr ps)"

subsection \<open>A reference definition: one scan for the best candidate\<close>

text \<open>
  What \<open>place\<close> computes, without the sort: the candidate with the highest score, and among
  those with that score the one with the least identifier.
\<close>

definition better :: "node \<times> real \<Rightarrow> node \<times> real \<Rightarrow> bool" where
  "better x y \<longleftrightarrow> snd y < snd x \<or> snd x = snd y \<and> node_id (fst x) \<le> node_id (fst y)"

fun scan_best :: "node \<times> real \<Rightarrow> (node \<times> real) list \<Rightarrow> node \<times> real" where
  "scan_best b [] = b"
| "scan_best b (x # xs) = scan_best (if better b x then b else x) xs"

lemma better_key: "better x y \<longleftrightarrow> placement_key x \<le> placement_key y"
  by (auto simp: better_def placement_key_def less_eq_prod_def)

lemma scan_best_hd: "scan_best b xs = hd (sort_key placement_key (b # xs))"
proof (induction xs arbitrary: b)
  case Nil
  then show ?case by simp
next
  case (Cons x xs)
  show ?case
    unfolding hd_sort_key_Cons2 scan_best.simps better_key by (rule Cons.IH)
qed

subsection \<open>What place returns\<close>

lemma placement_key_hd:
  assumes "ys \<noteq> []"
  shows "hd (sort_key placement_key ys) \<in> set ys
    \<and> (\<forall>y \<in> set ys. better (hd (sort_key placement_key ys)) y)"
  using hd_sort_key [OF assms, of placement_key] by (simp add: better_key)

definition candidate :: "placement_engine \<Rightarrow> int \<Rightarrow> task_spec \<Rightarrow> node list \<Rightarrow> node \<Rightarrow> bool" where
  "candidate e hour t nodes n \<longleftrightarrow>
     n \<in> set (eligible_nodes (router e) hour nodes (task_pool t))
     \<and> meets_requirements n (task_requirements t) = Inr True"

lemma place_SomeD:
  assumes "place e hour t nodes = Inr (Some p)"
  shows "\<exists>n. candidate e hour t nodes n
      \<and> pl_node_id p = node_id n \<and> pl_task_id p = task_id t
      \<and> pl_score p = score (scorer e) n (task_requirements t) \<and> 0 < pl_score p
      \<and> (\<forall>m. candidate e hour t nodes m \<longrightarrow>
           better (n, pl_score p) (m, score (scorer e) m (task_requirements t)))"
proof -
  let ?sc = "\<lambda>n. (n, score (scorer e) n (task_requirements t))"
  obtain cs where cs: "filter_result (\<lambda>n. meets_requirements n (task_requirements t))
      (eligible_nodes (router e) hour nodes (task_pool t)) = Inr cs" and "cs \<noteq> []"
    and best: "0 < snd (hd (sort_key placement_key (map ?sc cs)))"
    and p: "p = \<lparr>pl_task_id = task_id t,
        pl_node_id = node_id (fst (hd (sort_key placement_key (map ?sc cs)))),
        pl_score = snd (hd (sort_key placement_key (map ?sc cs)))\<rparr>"
    using assms by (auto simp: place_def Let_def split: if_splits)
  have cand: "candidate e hour t nodes n \<longleftrightarrow> n \<in> set cs" for n
    using filter_result_InrD [OF cs] by (auto simp: candidate_def)
  have "map ?sc cs \<noteq> []"
    using \<open>cs \<noteq> []\<close> by simp
  from placement_key_hd [OF this] obtain n where n: "n \<in> set cs"
    and hd: "hd (sort_key placement_key (map ?sc cs)) = ?sc n"
    and least: "\<forall>y \<in> set (map ?sc cs). better (?sc n) y"
    by auto
  have "pl_node_id p = node_id n" and "pl_task_id p = task_id t"
    and sc: "pl_score p = score (scorer e) n (task_requirements t)" and "0 < pl_score p"
    using p hd best by simp_all
  moreover have "better (n, pl_score p) (m, score (scorer e) m (task_requirements t))"
    if "candidate e hour t nodes m" for m
    using least that unfolding cand sc by auto
  ultimately show ?thesis
    using n cand by blast
qed

text \<open>
  C1: optimality of placement: the chosen node is one of the given nodes, eligible for the
  task's pool and meeting its requirements, its score is positive, no candidate scores
  higher, and among equal scores none has a smaller identifier.
\<close>

theorem place_optimal:
  assumes "place e hour t nodes = Inr (Some p)"
  shows "\<exists>n \<in> set nodes.
      n \<in> set (eligible_nodes (router e) hour nodes (task_pool t))
      \<and> meets_requirements n (task_requirements t) = Inr True
      \<and> pl_node_id p = node_id n \<and> pl_task_id p = task_id t
      \<and> pl_score p = score (scorer e) n (task_requirements t) \<and> 0 < pl_score p
      \<and> (\<forall>m. m \<in> set (eligible_nodes (router e) hour nodes (task_pool t))
             \<and> meets_requirements m (task_requirements t) = Inr True \<longrightarrow>
           score (scorer e) m (task_requirements t) < pl_score p
           \<or> score (scorer e) m (task_requirements t) = pl_score p \<and> node_id n \<le> node_id m)"
proof -
  obtain n where n: "candidate e hour t nodes n"
    and facts: "pl_node_id p = node_id n" "pl_task_id p = task_id t"
      "pl_score p = score (scorer e) n (task_requirements t)" "0 < pl_score p"
    and best: "\<forall>m. candidate e hour t nodes m \<longrightarrow>
           better (n, pl_score p) (m, score (scorer e) m (task_requirements t))"
    using place_SomeD [OF assms] by blast
  have "n \<in> set nodes"
    using n eligible_nodes_subset unfolding candidate_def by blast
  then show ?thesis
    using n facts best by (intro bexI [of _ n]) (auto simp: candidate_def better_def)
qed

text \<open>
  The sort of the engine is a scan: \<^verbatim>\<open>place\<close> returns what one pass that keeps the better
  of two candidates returns.
\<close>

lemma place_by_scan:
  assumes "filter_result (\<lambda>n. meets_requirements n (task_requirements t))
             (eligible_nodes (router e) hour nodes (task_pool t)) = Inr (c # cs)"
  shows "place e hour t nodes =
    (let sc = (\<lambda>n. (n, score (scorer e) n (task_requirements t)));
         best = scan_best (sc c) (map sc cs)
     in if snd best \<le> 0 then Inr None
        else Inr (Some \<lparr>pl_task_id = task_id t, pl_node_id = node_id (fst best),
                        pl_score = snd best\<rparr>))"
  using assms by (simp add: place_def Let_def scan_best_hd)

subsection \<open>When place returns a node\<close>

lemma score_positive:
  assumes "node_ok n" and "gpu_count_req req \<le> 0"
  shows "0 < score default_weights n req"
proof -
  have parts: "0 \<le> cpu_score (resources n) req" "0 \<le> mem_score (resources n) req"
      "0 \<le> network_score (resources n) req"
    using score_parts_unit [OF assms(1), of req] by simp_all
  have "15 / 100 \<le> raw_score default_weights n req"
    using assms parts by (simp add: raw_score_def Let_def default_weights_def gpu_score_def node_ok_def)
  then have "py_round 6 (15 / 100) \<le> score default_weights n req"
    unfolding score_def by (rule py_round_mono)
  moreover have "py_round 6 (15 / 100) = 15 / 100"
    using round_half_even_of_int [of 150000] by (simp add: py_round_def)
  ultimately show ?thesis by simp
qed

lemma place_decides:
  assumes "scorer e = default_weights" and "gpu_count_req (task_requirements t) \<le> 0"
    and "\<forall>n \<in> set nodes. node_ok n"
  shows "(place e hour t nodes = Inr None \<longleftrightarrow>
            (\<forall>n \<in> set (eligible_nodes (router e) hour nodes (task_pool t)).
               meets_requirements n (task_requirements t) = Inr False))
    \<and> (\<exists>r. place e hour t nodes = Inr r)"
proof -
  let ?meets = "\<lambda>n. meets_requirements n (task_requirements t)"
  let ?el = "eligible_nodes (router e) hour nodes (task_pool t)"
  let ?sc = "\<lambda>n. (n, score (scorer e) n (task_requirements t))"
  have total: "\<exists>b. ?meets n = Inr b" for n
    by (simp add: meets_requirements_no_gpu [OF assms(2)])
  then have fr: "filter_result ?meets ?el = Inr (filter (\<lambda>n. ?meets n = Inr True) ?el)"
    by (intro filter_result_total) (metis (full_types))
  let ?cs = "filter (\<lambda>n. ?meets n = Inr True) ?el"
  have pos: "0 < snd (hd (sort_key placement_key (map ?sc ?cs)))" if "?cs \<noteq> []"
  proof -
    have "map ?sc ?cs \<noteq> []"
      using that by simp
    from placement_key_hd [OF this] obtain n where "n \<in> set ?el"
      and hd: "hd (sort_key placement_key (map ?sc ?cs)) = ?sc n"
      by auto
    then have "n \<in> set nodes"
      using eligible_nodes_subset by blast
    then have "0 < score default_weights n (task_requirements t)"
      using assms score_positive by blast
    then show ?thesis
      unfolding hd using assms(1) by simp
  qed
  have "place e hour t nodes = Inr None \<longleftrightarrow> ?cs = []"
    using pos by (cases "?cs = []") (simp_all add: place_def fr Let_def)
  moreover have "?cs = [] \<longleftrightarrow> (\<forall>n \<in> set ?el. ?meets n = Inr False)"
    unfolding filter_empty_conv
  proof (intro ball_cong refl)
    fix n
    show "(?meets n \<noteq> Inr True) = (?meets n = Inr False)"
      using total [of n] by auto
  qed
  moreover have "\<exists>r. place e hour t nodes = Inr r"
    by (auto simp: place_def fr Let_def)
  ultimately show ?thesis by blast
qed

text \<open>
  C3: completeness of placement: for a task that asks for no GPU, on well-formed nodes under
  the default weights, the engine raises nothing and refuses the task exactly when no
  eligible node meets the requirements.
\<close>

theorem place_complete:
  assumes "scorer e = default_weights" and "gpu_count_req (task_requirements t) \<le> 0"
    and "\<forall>n \<in> set nodes. node_ok n"
  shows "(place e hour t nodes = Inr None \<longleftrightarrow>
            (\<forall>n \<in> set (eligible_nodes (router e) hour nodes (task_pool t)).
               meets_requirements n (task_requirements t) = Inr False))
    \<and> (\<exists>r. place e hour t nodes = Inr r)"
  by (rule place_decides [OF assms])

subsection \<open>The interface of a placement function\<close>

text \<open>What one placement adds to the usage table.\<close>

definition charge :: "string \<Rightarrow> requirements \<Rightarrow> (real \<times> real) dict \<Rightarrow> (real \<times> real) dict" where
  "charge nid req u =
     dict_set nid (fst (usage_of u nid) + cpu_cores_req req, snd (usage_of u nid) + ram_gb_req req) u"

lemma usage_of_charge:
  "usage_of (charge nid req u) nid' =
     (if nid' = nid
      then (fst (usage_of u nid) + cpu_cores_req req, snd (usage_of u nid) + ram_gb_req req)
      else usage_of u nid')"
  by (simp add: charge_def usage_of_def)

text \<open>The tasks of a batch that the placements put on a node, and a usage within bounds.\<close>

definition placed_on :: "placement list \<Rightarrow> task_spec list \<Rightarrow> string \<Rightarrow> task_spec list" where
  "placed_on ps ts nid =
     filter (\<lambda>t. \<exists>p \<in> set ps. pl_task_id p = task_id t \<and> pl_node_id p = nid) ts"

definition usage_ok :: "node list \<Rightarrow> (real \<times> real) dict \<Rightarrow> bool" where
  "usage_ok nodes u \<longleftrightarrow>
     (\<forall>n \<in> set nodes. fst (usage_of u (node_id n)) \<le> max 0 (cpu_cores_free (resources n))
                      \<and> snd (usage_of u (node_id n)) \<le> max 0 (ram_gb_free (resources n)))"

lemma placed_on_Cons_old:
  assumes "task_id t \<notin> task_id ` set ts" and "pl_task_id ` set ps \<subseteq> task_id ` set ts"
  shows "placed_on ps (t # ts) nid = placed_on ps ts nid"
proof -
  have "pl_task_id p \<noteq> task_id t" if "p \<in> set ps" for p
    using assms that by (metis image_eqI subsetD)
  then show ?thesis by (auto simp: placed_on_def)
qed

lemma placed_on_Cons_new:
  assumes "pl_task_id p = task_id t" and "task_id t \<notin> task_id ` set ts"
    and "pl_task_id ` set ps \<subseteq> task_id ` set ts"
  shows "placed_on (p # ps) (t # ts) nid =
    (if pl_node_id p = nid then [t] else []) @ placed_on ps ts nid"
proof -
  have "placed_on (p # ps) ts nid = placed_on ps ts nid"
    unfolding placed_on_def using assms(1,2) by (intro filter_cong) auto
  moreover have "pl_task_id q \<noteq> task_id t" if "q \<in> set ps" for q
    using assms(2,3) that by (metis image_eqI subsetD)
  ultimately show ?thesis
    using assms(1) by (auto simp: placed_on_def)
qed

lemma charge_ok:
  assumes "usage_ok nodes u" and "distinct (map node_id nodes)"
    and "\<exists>n \<in> set nodes. node_id n = nid
      \<and> cpu_cores_req req \<le> max 0 (cpu_cores_free (resources n) - fst (usage_of u (node_id n)))
      \<and> ram_gb_req req \<le> max 0 (ram_gb_free (resources n) - snd (usage_of u (node_id n)))"
  shows "usage_ok nodes (charge nid req u)"
  unfolding usage_ok_def
proof
  fix m
  assume m: "m \<in> set nodes"
  obtain n where n: "n \<in> set nodes" "node_id n = nid"
    and room: "cpu_cores_req req \<le> max 0 (cpu_cores_free (resources n) - fst (usage_of u nid))"
      "ram_gb_req req \<le> max 0 (ram_gb_free (resources n) - snd (usage_of u nid))"
    using assms(3) by blast
  have used: "fst (usage_of u (node_id k)) \<le> max 0 (cpu_cores_free (resources k))"
      "snd (usage_of u (node_id k)) \<le> max 0 (ram_gb_free (resources k))" if "k \<in> set nodes" for k
    using assms(1) that by (simp_all add: usage_ok_def)
  show "fst (usage_of (charge nid req u) (node_id m)) \<le> max 0 (cpu_cores_free (resources m))
      \<and> snd (usage_of (charge nid req u) (node_id m)) \<le> max 0 (ram_gb_free (resources m))"
  proof (cases "node_id m = nid")
    case True
    then have "m = n"
      using assms(2) m n by (auto simp: distinct_map inj_on_def)
    then show ?thesis
      using used [OF n(1)] room n(2) by (simp add: usage_of_charge max_def split: if_splits)
  next
    case False
    then show ?thesis
      using used [OF m] by (simp add: usage_of_charge)
  qed
qed

locale placer =
  fixes pf :: "task_spec \<Rightarrow> node list \<Rightarrow> placement option result"
  assumes pf_node: "pf t ns = Inr (Some p) \<Longrightarrow>
      \<exists>n \<in> set ns. node_id n = pl_node_id p
        \<and> meets_requirements n (task_requirements t) = Inr True"
    and pf_task: "pf t ns = Inr (Some p) \<Longrightarrow> pl_task_id p = task_id t"
begin

text \<open>What a batch charges to a node, and that it never charges more than the node had.\<close>

lemma loop_Cons_cases [consumes 1, case_names none some]:
  assumes "place_all_loop pf nodes (t # ts) u = Inr (ps, u')"
  obtains "pf t (apply_usage nodes u) = Inr None" "place_all_loop pf nodes ts u = Inr (ps, u')"
  | p ps' where "pf t (apply_usage nodes u) = Inr (Some p)" "ps = p # ps'"
      "place_all_loop pf nodes ts (charge (pl_node_id p) (task_requirements t) u) = Inr (ps', u')"
proof -
  obtain r where r: "pf t (apply_usage nodes u) = Inr r"
    using assms by auto
  show thesis
    using assms that r by (cases r) (auto simp: charge_def)
qed

lemma loop_task_ids:
  "place_all_loop pf nodes ts u = Inr (ps, u') \<Longrightarrow> pl_task_id ` set ps \<subseteq> task_id ` set ts"
proof (induction ts arbitrary: u ps u')
  case Nil
  then show ?case by simp
next
  case (Cons t ts)
  from Cons.prems show ?case
  proof (cases rule: loop_Cons_cases)
    case none
    then show ?thesis using Cons.IH [OF none(2)] by auto
  next
    case (some p ps')
    then show ?thesis using Cons.IH [OF some(3)] pf_task [OF some(1)] by auto
  qed
qed

lemma loop_usage:
  assumes "place_all_loop pf nodes ts u = Inr (ps, u')" and "distinct (map task_id ts)"
  shows "usage_of u' nid =
    (fst (usage_of u nid) + sum_list (map (\<lambda>t. cpu_cores_req (task_requirements t)) (placed_on ps ts nid)),
     snd (usage_of u nid) + sum_list (map (\<lambda>t. ram_gb_req (task_requirements t)) (placed_on ps ts nid)))"
  using assms
proof (induction ts arbitrary: u ps u')
  case Nil
  then show ?case by (simp add: placed_on_def)
next
  case (Cons t ts)
  have new: "task_id t \<notin> task_id ` set ts" and d: "distinct (map task_id ts)"
    using Cons.prems(2) by auto
  from Cons.prems(1) show ?case
  proof (cases rule: loop_Cons_cases)
    case none
    have "placed_on ps (t # ts) nid = placed_on ps ts nid"
      using placed_on_Cons_old loop_task_ids [OF none(2)] new by blast
    with Cons.IH [OF none(2) d] show ?thesis by simp
  next
    case (some p ps')
    have "placed_on ps (t # ts) nid = (if pl_node_id p = nid then [t] else []) @ placed_on ps' ts nid"
      unfolding some(2)
      by (rule placed_on_Cons_new [OF pf_task [OF some(1)] new loop_task_ids [OF some(3)]])
    with Cons.IH [OF some(3) d] show ?thesis
      by (simp add: usage_of_charge)
  qed
qed

lemma pf_room:
  assumes "pf t (apply_usage nodes u) = Inr (Some p)"
  shows "\<exists>n \<in> set nodes. node_id n = pl_node_id p
    \<and> cpu_cores_req (task_requirements t)
        \<le> max 0 (cpu_cores_free (resources n) - fst (usage_of u (node_id n)))
    \<and> ram_gb_req (task_requirements t)
        \<le> max 0 (ram_gb_free (resources n) - snd (usage_of u (node_id n)))"
proof -
  from pf_node [OF assms] obtain m where m: "m \<in> set (apply_usage nodes u)"
      "node_id m = pl_node_id p" "meets_requirements m (task_requirements t) = Inr True"
    by blast
  from m(1) obtain n where "n \<in> set nodes" "node_id m = node_id n"
      "cpu_cores_free (resources m) = max 0 (cpu_cores_free (resources n) - fst (usage_of u (node_id n)))"
      "ram_gb_free (resources m) = max 0 (ram_gb_free (resources n) - snd (usage_of u (node_id n)))"
    by (auto simp: apply_usage_def split: prod.splits)
  with m meets_requirementsD(1,2) [OF m(3)] show ?thesis by auto
qed

lemma loop_usage_ok:
  assumes "place_all_loop pf nodes ts u = Inr (ps, u')"
    and "usage_ok nodes u" and "distinct (map node_id nodes)"
  shows "usage_ok nodes u'"
  using assms(1,2)
proof (induction ts arbitrary: u ps u')
  case Nil
  then show ?case by simp
next
  case (Cons t ts)
  from Cons.prems(1) show ?case
  proof (cases rule: loop_Cons_cases)
    case none
    then show ?thesis using Cons by blast
  next
    case (some p ps')
    from pf_room [OF some(1)] have "usage_ok nodes (charge (pl_node_id p) (task_requirements t) u)"
      using charge_ok [OF Cons.prems(2) assms(3)] by blast
    then show ?thesis by (rule Cons.IH [OF some(3)])
  qed
qed

end

interpretation engine: placer "place e hour" for e hour
proof unfold_locales
  fix t ns p
  assume "place e hour t ns = Inr (Some p)"
  from place_SomeD [OF this] eligible_nodes_subset
  show "\<exists>n \<in> set ns. node_id n = pl_node_id p
        \<and> meets_requirements n (task_requirements t) = Inr True"
    and "pl_task_id p = task_id t"
    unfolding candidate_def by (metis subset_iff)+
qed


text \<open>
  C2: a batch never over-commits a node: the cores and the memory asked for by the tasks that
  \<^verbatim>\<open>place_all\<close> puts on a node add up to no more than the node had free.
\<close>

theorem place_all_no_overcommit:
  assumes "place_all e hour tasks nodes = Inr ps"
    and "distinct (map task_id tasks)" and "distinct (map node_id nodes)" and "n \<in> set nodes"
  shows "sum_list (map (\<lambda>t. cpu_cores_req (task_requirements t)) (placed_on ps tasks (node_id n)))
           \<le> max 0 (cpu_cores_free (resources n))
    \<and> sum_list (map (\<lambda>t. ram_gb_req (task_requirements t)) (placed_on ps tasks (node_id n)))
           \<le> max 0 (ram_gb_free (resources n))"
proof -
  obtain u where loop: "place_all_loop (place e hour) nodes tasks [] = Inr (ps, u)"
    using assms(1) by (auto simp: place_all_def)
  have "usage_ok nodes []"
    by (simp add: usage_ok_def usage_of_def)
  then have "usage_ok nodes u"
    using engine.loop_usage_ok [OF loop] assms(3) by blast
  then show ?thesis
    using engine.loop_usage [OF loop assms(2), of "node_id n"] assms(4)
    by (auto simp: usage_ok_def usage_of_def)
qed

subsection \<open>Concrete inputs\<close>

definition sample_cluster :: "node list" where
  "sample_cluster = [sample_node ''b'' 4, sample_node ''a'' 8, sample_node ''c'' 8]"

lemma place_sample:
  "place default_engine 10 (sample_task ''t'' 2) sample_cluster =
     Inr (Some \<lparr>pl_task_id = ''t'', pl_node_id = ''a'', pl_score = 875 / 1000\<rparr>)"
  by code_simp

lemma place_optimal_witness:
  "\<exists>n \<in> set sample_cluster. node_id n = ''a''
     \<and> meets_requirements n (task_requirements (sample_task ''t'' 2)) = Inr True"
  using place_optimal [OF place_sample] by auto

lemma place_by_scan_witness:
  "place default_engine 10 (sample_task ''t'' 2) [sample_node ''b'' 4] =
     (let best = scan_best (sample_node ''b'' 4,
            score default_weights (sample_node ''b'' 4) (task_requirements (sample_task ''t'' 2))) []
      in if snd best \<le> 0 then Inr None
         else Inr (Some \<lparr>pl_task_id = ''t'', pl_node_id = node_id (fst best), pl_score = snd best\<rparr>))"
proof -
  have "filter_result (\<lambda>n. meets_requirements n (task_requirements (sample_task ''t'' 2)))
      (eligible_nodes (router default_engine) 10 [sample_node ''b'' 4] (task_pool (sample_task ''t'' 2)))
      = Inr [sample_node ''b'' 4]"
    by (simp add: sample_defs meets_requirements_no_gpu suitable_def battery_too_low_def)
  from place_by_scan [OF this] show ?thesis
    by (simp add: default_engine_def Let_def)
qed

lemma place_complete_witness:
  "\<exists>r. place default_engine 10 (sample_task ''t'' 2) sample_cluster = Inr r"
proof -
  have "\<forall>n \<in> set sample_cluster. node_ok n"
    by code_simp
  then show ?thesis
    using place_complete [of default_engine "sample_task ''t'' 2" sample_cluster 10]
    by (simp add: default_engine_def sample_defs)
qed

lemma place_all_no_overcommit_witness:
  "\<exists>ps. place_all default_engine 10 [sample_task ''t'' 6, sample_task ''u'' 5]
          [sample_node ''a'' 8] = Inr ps
     \<and> sum_list (map (\<lambda>t. cpu_cores_req (task_requirements t))
          (placed_on ps [sample_task ''t'' 6, sample_task ''u'' 5] ''a'')) \<le> 8"
proof -
  have run: "place_all default_engine 10 [sample_task ''t'' 6, sample_task ''u'' 5]
      [sample_node ''a'' 8] = Inr [\<lparr>pl_task_id = ''t'', pl_node_id = ''a'', pl_score = 875 / 1000\<rparr>]"
    by code_simp
  from place_all_no_overcommit [OF run, of "sample_node ''a'' 8"] run show ?thesis
    by simp
qed

end
