(* ===== verification/Rebalancing.thy ===== *)
theory Rebalancing
  imports Samples
begin

section \<open>Rebalancing (mesh/scheduler/rebalancing.py)\<close>

text \<open>
  \<^verbatim>\<open>Rebalancer.analyze\<close>.  The \<^verbatim>\<open>reason\<close> text of an action interpolates the utilisation of the
  overloaded node and the free cores of the target; the record keeps these two numbers.
\<close>

record rebalance_action =
  ra_task_id :: string
  from_node :: string
  to_node :: string
  reason_util :: real
  reason_target_free :: real

text \<open>The utilisation list skips nodes without cores.\<close>

fun utilizations :: "node list \<Rightarrow> (node \<times> real) list" where
  "utilizations [] = []"
| "utilizations (n # ns) =
     (let total = cpu_cores_total (resources n)
      in if total = 0 then utilizations ns
         else (n, (of_int total - cpu_cores_free (resources n)) / of_int total) # utilizations ns)"

definition avg_util :: "(node \<times> real) list \<Rightarrow> real" where
  "avg_util us = sum_list (map snd us) / of_nat (length us)"

definition overloaded_nodes :: "real \<Rightarrow> (node \<times> real) list \<Rightarrow> (node \<times> real) list" where
  "overloaded_nodes thr us = filter (\<lambda>(n, u). thr < u - avg_util us) us"

definition underloaded_nodes :: "real \<Rightarrow> (node \<times> real) list \<Rightarrow> (node \<times> real) list" where
  "underloaded_nodes thr us = filter (\<lambda>(n, u). thr < avg_util us - u) us"

text \<open>
  The loop over the overloaded nodes: the first task assigned to the node, if any, goes to the
  next unused underloaded node, until these run out.
\<close>

fun rebalance_loop :: "(node \<times> real) list \<Rightarrow> task_spec list \<Rightarrow> (node \<times> real) list \<Rightarrow> rebalance_action list" where
  "rebalance_loop [] tasks und = []"
| "rebalance_loop ((n, u) # over) tasks und =
     (case filter (\<lambda>t. assigned_node t = Some (node_id n)) tasks of
        [] \<Rightarrow> rebalance_loop over tasks und
      | t # _ \<Rightarrow>
          (case und of
             [] \<Rightarrow> rebalance_loop over tasks und
           | (target, _) # rest \<Rightarrow>
               \<lparr>ra_task_id = task_id t, from_node = node_id n, to_node = node_id target,
                reason_util = u, reason_target_free = cpu_cores_free (resources target)\<rparr>
               # rebalance_loop over tasks rest))"

definition analyze :: "real \<Rightarrow> node list \<Rightarrow> task_spec list \<Rightarrow> rebalance_action list" where
  "analyze thr nodes tasks =
     (if length nodes < 2 then []
      else
        let us = utilizations nodes in
        if us = [] then []
        else if overloaded_nodes thr us = [] \<or> underloaded_nodes thr us = [] then []
        else rebalance_loop (overloaded_nodes thr us) tasks (underloaded_nodes thr us))"

subsection \<open>Facts\<close>

lemma utilizations_nodes: "set (map fst (utilizations ns)) \<subseteq> set ns"
  by (induction ns) (auto simp: Let_def)

lemma utilizations_distinct:
  "distinct (map node_id ns) \<Longrightarrow> distinct (map (\<lambda>x. node_id (fst x)) (utilizations ns))"
proof (induction ns)
  case (Cons n ns)
  have "node_id n \<notin> set (map (\<lambda>x. node_id (fst x)) (utilizations ns))"
    using Cons.prems utilizations_nodes [of ns] by fastforce
  with Cons show ?case by (simp add: Let_def)
qed simp

lemma rebalance_loop_length:
  "length (rebalance_loop over tasks und) \<le> min (length over) (length und)"
proof (induction over tasks und rule: rebalance_loop.induct)
  case (2 n u over tasks und)
  then show ?case by (auto split: list.splits)
qed simp

lemma rebalance_loop_targets:
  "distinct (map (\<lambda>x. node_id (fst x)) und) \<Longrightarrow>
     distinct (map to_node (rebalance_loop over tasks und))
     \<and> to_node ` set (rebalance_loop over tasks und) \<subseteq> (\<lambda>x. node_id (fst x)) ` set und"
proof (induction over arbitrary: und)
  case (Cons nu over)
  obtain n u where nu: "nu = (n, u)" by fastforce
  show ?case
  proof (cases "filter (\<lambda>t. assigned_node t = Some (node_id n)) tasks")
    case Nil
    then show ?thesis using Cons.IH [OF Cons.prems] by (simp add: nu)
  next
    case t: (Cons t ts)
    show ?thesis
    proof (cases und)
      case Nil
      then show ?thesis using Cons.IH [OF Cons.prems] t by (simp add: nu)
    next
      case und: (Cons mv rest)
      obtain m v where mv: "mv = (m, v)" by fastforce
      have "distinct (map (\<lambda>x. node_id (fst x)) rest)" and "node_id m \<notin> (\<lambda>x. node_id (fst x)) ` set rest"
        using Cons.prems by (auto simp: und mv)
      then show ?thesis
        using Cons.IH [of rest] t by (auto simp: nu und mv)
    qed
  qed
qed simp

lemma rebalance_loop_sources:
  "a \<in> set (rebalance_loop over tasks und) \<Longrightarrow>
     (\<exists>n u t. (n, u) \<in> set over \<and> t \<in> set tasks \<and> from_node a = node_id n
        \<and> ra_task_id a = task_id t \<and> assigned_node t = Some (node_id n))
     \<and> (\<exists>m v. (m, v) \<in> set und \<and> to_node a = node_id m)"
proof (induction over arbitrary: und)
  case (Cons nu over)
  obtain n u where nu: "nu = (n, u)" by fastforce
  show ?case
  proof (cases "filter (\<lambda>t. assigned_node t = Some (node_id n)) tasks")
    case Nil
    then show ?thesis using Cons.IH [of und] Cons.prems by (auto simp: nu)
  next
    case t: (Cons t ts)
    then have mem: "t \<in> set tasks" "assigned_node t = Some (node_id n)"
      by (metis (mono_tags, lifting) filter_eq_ConsD in_set_conv_decomp)+
    show ?thesis
    proof (cases und)
      case Nil
      then show ?thesis using Cons.IH [of und] Cons.prems t by (auto simp: nu)
    next
      case und: (Cons mv rest)
      obtain m v where mv: "mv = (m, v)" by fastforce
      show ?thesis
        using Cons.prems Cons.IH [of rest] t mem unfolding nu und mv by (auto; blast)
    qed
  qed
qed simp

lemma over_under_gap:
  assumes "(n, u) \<in> set (overloaded_nodes thr us)" and "(m, v) \<in> set (underloaded_nodes thr us)"
  shows "v + 2 * thr < u"
  using assms by (auto simp: overloaded_nodes_def underloaded_nodes_def)

lemma distinct_filter_map: "distinct (map f xs) \<Longrightarrow> distinct (map f (filter P xs))"
  by (induction xs) auto

text \<open>
  Every migration takes a task that runs on its source node from a node above the average
  utilisation by more than the threshold to one below it by more than the threshold, so the
  two differ by more than twice the threshold; no node receives two tasks in one round, and
  there are no more migrations than overloaded or underloaded nodes.
\<close>

lemma analyze_sound:
  assumes "distinct (map node_id nodes)"
  shows "distinct (map to_node (analyze thr nodes tasks))
    \<and> length (analyze thr nodes tasks) \<le> min (length (overloaded_nodes thr (utilizations nodes)))
          (length (underloaded_nodes thr (utilizations nodes)))
    \<and> (\<forall>a \<in> set (analyze thr nodes tasks).
         \<exists>n u m v t. (n, u) \<in> set (overloaded_nodes thr (utilizations nodes))
           \<and> (m, v) \<in> set (underloaded_nodes thr (utilizations nodes))
           \<and> from_node a = node_id n \<and> to_node a = node_id m \<and> v + 2 * thr < u
           \<and> t \<in> set tasks \<and> ra_task_id a = task_id t \<and> assigned_node t = Some (node_id n))"
proof -
  let ?us = "utilizations nodes"
  let ?loop = "rebalance_loop (overloaded_nodes thr ?us) tasks (underloaded_nodes thr ?us)"
  have sub: "analyze thr nodes tasks = [] \<or> analyze thr nodes tasks = ?loop"
    by (simp add: analyze_def Let_def)
  have "distinct (map (\<lambda>x. node_id (fst x)) (underloaded_nodes thr ?us))"
    unfolding underloaded_nodes_def
    by (rule distinct_filter_map) (rule utilizations_distinct [OF assms])
  then have "distinct (map to_node ?loop)"
    using rebalance_loop_targets by blast
  moreover have "\<exists>n u m v t. (n, u) \<in> set (overloaded_nodes thr ?us) \<and> (m, v) \<in> set (underloaded_nodes thr ?us)
           \<and> from_node a = node_id n \<and> to_node a = node_id m \<and> v + 2 * thr < u
           \<and> t \<in> set tasks \<and> ra_task_id a = task_id t \<and> assigned_node t = Some (node_id n)"
    if "a \<in> set ?loop" for a
    using rebalance_loop_sources [OF that] over_under_gap by blast
  ultimately show ?thesis
    using sub rebalance_loop_length [of "overloaded_nodes thr ?us" tasks "underloaded_nodes thr ?us"] by auto
qed

lemma analyze_sound_witness:
  "analyze (1 / 4) [sample_node ''a'' 0, sample_node ''b'' 8] [assigned_task ''t'' ''a''] \<noteq> []
   \<and> distinct (map to_node (analyze (1 / 4) [sample_node ''a'' 0, sample_node ''b'' 8]
        [assigned_task ''t'' ''a'']))"
proof
  show "analyze (1 / 4) [sample_node ''a'' 0, sample_node ''b'' 8] [assigned_task ''t'' ''a''] \<noteq> []"
    by (simp add: analyze_def overloaded_nodes_def underloaded_nodes_def avg_util_def Let_def)
  show "distinct (map to_node (analyze (1 / 4) [sample_node ''a'' 0, sample_node ''b'' 8]
        [assigned_task ''t'' ''a'']))"
    using analyze_sound [of "[sample_node ''a'' 0, sample_node ''b'' 8]" "1 / 4"
        "[assigned_task ''t'' ''a'']"] by simp
qed

end
