(* ===== verification/Fabric.thy ===== *)
theory Fabric
  imports Samples "HOL-Library.Multiset"
begin

section \<open>Memory fabric (mesh/memory/fabric.py)\<close>

text \<open>
  \<^verbatim>\<open>MemoryFabric\<close>: allocations striped over the free memory of the healthy nodes, the amount
  reserved per node, release, and the pool statistics.  The identifier of an allocation is an
  argument.
\<close>

record memory_segment =
  seg_node :: string
  seg_hostname :: string
  size_gb :: real
  seg_location :: string

record memory_allocation =
  allocation_id :: string
  total_gb :: real
  segments :: "memory_segment list"
  owner :: string
  pinned :: bool

record memory_pool_stats =
  pool_total_gb :: real
  pool_free_gb :: real
  pool_allocated_gb :: real
  node_count :: int
  segment_count :: int

record fabric =
  allocations :: "memory_allocation dict"
  reserved :: "real dict"

definition empty_fabric :: fabric where
  "empty_fabric = \<lparr>allocations = [], reserved = []\<rparr>"

definition allocation_to_dict :: "memory_allocation \<Rightarrow> pyval" where
  "allocation_to_dict a = PDict
     [(''allocation_id'', PStr (allocation_id a)),
      (''total_gb'', PFloat (py_round 2 (total_gb a))),
      (''owner'', PStr (owner a)),
      (''pinned'', PBool (pinned a)),
      (''segments'', PList (map (\<lambda>s. PDict
         [(''node_id'', PStr (seg_node s)), (''hostname'', PStr (seg_hostname s)),
          (''size_gb'', PFloat (py_round 2 (size_gb s))), (''location'', PStr (seg_location s))])
        (segments a)))]"

definition stats_to_dict :: "memory_pool_stats \<Rightarrow> pyval" where
  "stats_to_dict s = PDict
     [(''total_gb'', PFloat (py_round 2 (pool_total_gb s))),
      (''free_gb'', PFloat (py_round 2 (pool_free_gb s))),
      (''allocated_gb'', PFloat (py_round 2 (pool_allocated_gb s))),
      (''utilization_pct'', PFloat (py_round 1
         (if pool_total_gb s \<noteq> 0 then pool_allocated_gb s / pool_total_gb s * 100 else 0))),
      (''node_count'', PInt (node_count s)),
      (''segment_count'', PInt (segment_count s))]"

definition fabric_nodes :: "node list \<Rightarrow> node list" where
  "fabric_nodes nodes = filter (\<lambda>n. node_state n = HEALTHY) nodes"

definition reserved_on :: "real dict \<Rightarrow> string \<Rightarrow> real" where
  "reserved_on r nid = dict_get_default r nid 0"

definition free_on_node :: "real dict \<Rightarrow> node \<Rightarrow> real" where
  "free_on_node r n = max 0 (ram_gb_free (resources n) - reserved_on r (node_id n))"

definition pool_stats :: "node list \<Rightarrow> fabric \<Rightarrow> memory_pool_stats" where
  "pool_stats nodes f =
     (let eligible = fabric_nodes nodes in
      \<lparr>pool_total_gb = sum_list (map (\<lambda>n. ram_gb_total (resources n)) eligible),
       pool_free_gb = sum_list (map (free_on_node (reserved f)) eligible),
       pool_allocated_gb = sum_list (map total_gb (dict_values (allocations f))),
       node_count = int (length eligible),
       segment_count = sum_list (map (\<lambda>a. int (length (segments a))) (dict_values (allocations f)))\<rparr>)"

text \<open>
  The greedy loop over the nodes, largest free block first: the segments taken, what remains,
  and the reservations.
\<close>

fun stripe :: "real \<Rightarrow> (node \<times> real) list \<Rightarrow> real \<Rightarrow> real dict \<Rightarrow> memory_segment list \<times> real \<times> real dict" where
  "stripe min_seg [] remaining r = ([], remaining, r)"
| "stripe min_seg ((n, free) # rest) remaining r =
     (if remaining \<le> 0 then ([], remaining, r)
      else
        let take = min free remaining in
        if take < min_seg \<and> min_seg < remaining then stripe min_seg rest remaining r
        else
          case stripe min_seg rest (remaining - take)
                 (dict_set (node_id n) (reserved_on r (node_id n) + take) r) of
            (segs, rem', r') \<Rightarrow>
              (\<lparr>seg_node = node_id n, seg_hostname = hostname n, size_gb = take,
                seg_location = location n\<rparr> # segs, rem', r'))"

definition give_back :: "memory_segment list \<Rightarrow> real dict \<Rightarrow> real dict" where
  "give_back segs r =
     fold (\<lambda>s r. dict_set (seg_node s) (max 0 (reserved_on r (seg_node s) - size_gb s)) r) segs r"

definition available_blocks :: "real \<Rightarrow> node list \<Rightarrow> real dict \<Rightarrow> (node \<times> real) list" where
  "available_blocks min_seg nodes r =
     sort_key snd (map (\<lambda>n. (n, free_on_node r n))
       (filter (\<lambda>n. min_seg \<le> free_on_node r n) (fabric_nodes nodes)))"

definition allocate ::
  "real \<Rightarrow> node list \<Rightarrow> string \<Rightarrow> real \<Rightarrow> string \<Rightarrow> fabric \<Rightarrow> memory_allocation option \<times> fabric" where
  "allocate gb nodes own min_seg uid f =
     (if gb \<le> 0 then (None, f)
      else
        let available = available_blocks min_seg nodes (reserved f);
            total_free = sum_list (map snd available)
        in if total_free < gb then (None, f)
           else
             case stripe min_seg (sort_key (\<lambda>x. - snd x) available) gb (reserved f) of
               (segs, remaining, r) \<Rightarrow>
                 if 1 / 100 < remaining
                 then (None, f\<lparr>reserved := give_back segs r\<rparr>)
                 else
                   let a = \<lparr>allocation_id = uid, total_gb = gb, segments = segs, owner = own,
                            pinned = False\<rparr>
                   in (Some a, f\<lparr>allocations := dict_set uid a (allocations f), reserved := r\<rparr>))"

definition release :: "string \<Rightarrow> fabric \<Rightarrow> bool \<times> fabric" where
  "release aid f =
     (case dict_get (allocations f) aid of
        None \<Rightarrow> (False, f)
      | Some a \<Rightarrow>
          (True, f\<lparr>allocations := dict_pop aid (allocations f),
                   reserved := give_back (segments a) (reserved f)\<rparr>))"

definition list_allocations :: "fabric \<Rightarrow> memory_allocation list" where
  "list_allocations f = dict_values (allocations f)"

definition get_allocation :: "string \<Rightarrow> fabric \<Rightarrow> memory_allocation option" where
  "get_allocation aid f = dict_get (allocations f) aid"

subsection \<open>Amounts per node\<close>

definition seg_sum :: "string \<Rightarrow> memory_segment list \<Rightarrow> real" where
  "seg_sum nid segs = sum_list (map size_gb (filter (\<lambda>s. seg_node s = nid) segs))"

lemma seg_sum_simps [simp]:
  "seg_sum nid [] = 0"
  "seg_sum nid (s # segs) = (if seg_node s = nid then size_gb s else 0) + seg_sum nid segs"
  "seg_sum nid (segs @ segs') = seg_sum nid segs + seg_sum nid segs'"
  by (simp_all add: seg_sum_def)

lemma seg_sum_nonneg: "\<forall>s \<in> set segs. 0 \<le> size_gb s \<Longrightarrow> 0 \<le> seg_sum nid segs"
  by (induction segs) auto

lemma reserved_on_set [simp]:
  "reserved_on (dict_set nid x r) nid' = (if nid' = nid then x else reserved_on r nid')"
  by (simp add: reserved_on_def)

lemma reserved_on_Nil [simp]: "reserved_on [] nid = 0"
  by (simp add: reserved_on_def)

text \<open>Giving back segments that are all reserved subtracts them; the clipping at zero is idle.\<close>

lemma give_back_on:
  "\<lbrakk>\<forall>s \<in> set segs. 0 \<le> size_gb s; \<forall>n. seg_sum n segs \<le> reserved_on r n\<rbrakk> \<Longrightarrow>
     reserved_on (give_back segs r) nid = reserved_on r nid - seg_sum nid segs"
proof (induction segs arbitrary: r)
  case Nil
  then show ?case by (simp add: give_back_def)
next
  case (Cons s segs)
  let ?r = "dict_set (seg_node s) (max 0 (reserved_on r (seg_node s) - size_gb s)) r"
  have nn: "0 \<le> seg_sum n segs" for n
    using Cons.prems(1) by (intro seg_sum_nonneg) simp
  have fit: "size_gb s \<le> reserved_on r (seg_node s)"
    using Cons.prems(2)[rule_format, of "seg_node s"] nn [of "seg_node s"] by simp
  have "seg_sum n segs \<le> reserved_on ?r n" for n
    using Cons.prems(2)[rule_format, of n] fit by auto
  then have "reserved_on (give_back segs ?r) nid = reserved_on ?r nid - seg_sum nid segs"
    using Cons.prems(1) by (intro Cons.IH) auto
  with fit show ?case
    by (auto simp: give_back_def)
qed

subsection \<open>The greedy loop\<close>

definition blocks_ok :: "real \<Rightarrow> (node \<times> real) list \<Rightarrow> bool" where
  "blocks_ok min_seg bs \<longleftrightarrow>
     distinct (map (\<lambda>b. node_id (fst b)) bs) \<and> (\<forall>b \<in> set bs. min_seg \<le> snd b \<and> 0 \<le> snd b)"

text \<open>Every block is at least a minimal segment, so the loop never skips one.\<close>

lemma stripe_Cons:
  assumes "min_seg \<le> free"
  shows "stripe min_seg ((n, free) # rest) remaining r =
     (if remaining \<le> 0 then ([], remaining, r)
      else let take = min free remaining in
        case stripe min_seg rest (remaining - take)
               (dict_set (node_id n) (reserved_on r (node_id n) + take) r) of
          (segs, rem', r') \<Rightarrow>
            (\<lparr>seg_node = node_id n, seg_hostname = hostname n, size_gb = take,
              seg_location = location n\<rparr> # segs, rem', r'))"
proof -
  have "\<not> (min free remaining < min_seg \<and> min_seg < remaining)"
    using assms by auto
  then show ?thesis by (simp only: stripe.simps Let_def if_False)
qed

lemma stripe_spec:
  assumes "stripe min_seg bs remaining r = (segs, rem', r')" and "blocks_ok min_seg bs" and "0 \<le> remaining"
  shows "rem' = max 0 (remaining - sum_list (map snd bs))
    \<and> sum_list (map size_gb segs) = remaining - rem'
    \<and> (\<forall>nid. reserved_on r' nid = reserved_on r nid + seg_sum nid segs)
    \<and> distinct (map seg_node segs)
    \<and> (\<forall>s \<in> set segs. 0 \<le> size_gb s
         \<and> (\<exists>b \<in> set bs. seg_node s = node_id (fst b) \<and> size_gb s \<le> snd b))"
  using assms
proof (induction bs arbitrary: remaining r segs rem' r')
  case Nil
  then show ?case by auto
next
  case (Cons b bs)
  obtain n free where b: "b = (n, free)" by fastforce
  have ge: "min_seg \<le> free" "0 \<le> free" and ok: "blocks_ok min_seg bs"
    and new: "node_id n \<notin> (\<lambda>b. node_id (fst b)) ` set bs"
    and nonneg: "0 \<le> sum_list (map snd bs)"
    using Cons.prems(2) by (auto simp: b blocks_ok_def intro!: sum_list_nonneg)
  show ?case
  proof (cases "remaining = 0")
    case True
    then show ?thesis
      using Cons.prems(1) nonneg ge(2) by (auto simp: b)
  next
    case False
    let ?take = "min free remaining"
    let ?seg = "\<lparr>seg_node = node_id n, seg_hostname = hostname n, size_gb = ?take, seg_location = location n\<rparr>"
    obtain segs1 rem1 r1 where rec: "stripe min_seg bs (remaining - ?take)
        (dict_set (node_id n) (reserved_on r (node_id n) + ?take) r) = (segs1, rem1, r1)"
      by (metis surj_pair)
    have out: "segs = ?seg # segs1" "rem' = rem1" "r' = r1"
      using Cons.prems(1,3) False unfolding b stripe_Cons [OF ge(1)] by (auto simp: rec Let_def)
    have IH: "rem1 = max 0 (remaining - ?take - sum_list (map snd bs))
      \<and> sum_list (map size_gb segs1) = remaining - ?take - rem1
      \<and> (\<forall>nid. reserved_on r1 nid = reserved_on (dict_set (node_id n) (reserved_on r (node_id n) + ?take) r) nid
            + seg_sum nid segs1)
      \<and> distinct (map seg_node segs1)
      \<and> (\<forall>s \<in> set segs1. 0 \<le> size_gb s
         \<and> (\<exists>b \<in> set bs. seg_node s = node_id (fst b) \<and> size_gb s \<le> snd b))"
      using Cons.prems(3) by (intro Cons.IH [OF rec ok]) simp
    have "node_id n \<notin> seg_node ` set segs1"
      using IH new by fastforce
    then have "distinct (map seg_node segs)"
      using IH by (simp add: out)
    moreover have "rem' = max 0 (remaining - sum_list (map snd (b # bs)))"
      using IH nonneg by (auto simp: out b)
    moreover have "\<forall>nid. reserved_on r' nid = reserved_on r nid + seg_sum nid segs"
      using IH by (simp add: out)
    moreover have "\<forall>s \<in> set segs. 0 \<le> size_gb s
         \<and> (\<exists>b \<in> set (b # bs). seg_node s = node_id (fst b) \<and> size_gb s \<le> snd b)"
      using IH ge(2) Cons.prems(3) by (auto simp: out b)
    ultimately show ?thesis using IH by (simp add: out)
  qed
qed

subsection \<open>What allocate does\<close>

text \<open>The memory a request may use: the free memory of the healthy nodes with a large enough block.\<close>

definition capacity :: "real \<Rightarrow> node list \<Rightarrow> real dict \<Rightarrow> real" where
  "capacity min_seg nodes r =
     sum_list (map (free_on_node r) (filter (\<lambda>n. min_seg \<le> free_on_node r n) (fabric_nodes nodes)))"

lemma sum_list_sort_key: "sum_list (map f (sort_key k xs)) = sum_list (map f xs)" for f :: "'a \<Rightarrow> real"
  by (metis mset_map mset_sort sum_mset_sum_list)

lemma available_blocks_facts:
  assumes "distinct (map node_id nodes)"
  shows "blocks_ok m (sort_key (\<lambda>x. - snd x) (available_blocks m nodes r))"
    and "sum_list (map snd (sort_key (\<lambda>x. - snd x) (available_blocks m nodes r))) = capacity m nodes r"
    and "sum_list (map snd (available_blocks m nodes r)) = capacity m nodes r"
    and "set (sort_key (\<lambda>x. - snd x) (available_blocks m nodes r)) =
      (\<lambda>n. (n, free_on_node r n)) ` {n \<in> set nodes. node_state n = HEALTHY \<and> m \<le> free_on_node r n}"
proof -
  let ?bs = "map (\<lambda>n. (n, free_on_node r n))
       (filter (\<lambda>n. m \<le> free_on_node r n) (fabric_nodes nodes))"
  have "distinct (map (\<lambda>b. node_id (fst b)) ?bs)"
    using assms by (simp add: fabric_nodes_def comp_def distinct_map_filter)
  then have "distinct ?bs \<and> inj_on (\<lambda>b. node_id (fst b)) (set ?bs)"
    by (simp only: distinct_map)
  then have d: "distinct (map (\<lambda>b. node_id (fst b)) (sort_key k ?bs))" for k :: "node \<times> real \<Rightarrow> real"
    by (simp only: distinct_map distinct_sort set_sort simp_thms)
  have dd: "distinct (map (\<lambda>b. node_id (fst b)) (sort_key k (sort_key k' ?bs)))"
      for k k' :: "node \<times> real \<Rightarrow> real"
    using d [of k'] by (simp only: distinct_map distinct_sort set_sort simp_thms)
  show "blocks_ok m (sort_key (\<lambda>x. - snd x) (available_blocks m nodes r))"
    using dd unfolding blocks_ok_def available_blocks_def by (auto simp: free_on_node_def)
  show cap: "sum_list (map snd (available_blocks m nodes r)) = capacity m nodes r"
    by (simp add: available_blocks_def capacity_def sum_list_sort_key comp_def)
  show "sum_list (map snd (sort_key (\<lambda>x. - snd x) (available_blocks m nodes r))) = capacity m nodes r"
    by (simp add: sum_list_sort_key cap)
  show "set (sort_key (\<lambda>x. - snd x) (available_blocks m nodes r)) =
      (\<lambda>n. (n, free_on_node r n)) ` {n \<in> set nodes. node_state n = HEALTHY \<and> m \<le> free_on_node r n}"
    by (auto simp: available_blocks_def fabric_nodes_def)
qed

lemma allocate_cases:
  assumes "distinct (map node_id nodes)"
  obtains (refused) "\<not> (0 < gb \<and> gb \<le> capacity m nodes (reserved f))"
      "allocate gb nodes own m uid f = (None, f)"
  | (granted) segs r where "0 < gb" "gb \<le> capacity m nodes (reserved f)"
      "allocate gb nodes own m uid f =
         (Some \<lparr>allocation_id = uid, total_gb = gb, segments = segs, owner = own, pinned = False\<rparr>,
          f\<lparr>allocations := dict_set uid \<lparr>allocation_id = uid, total_gb = gb, segments = segs,
                                       owner = own, pinned = False\<rparr> (allocations f),
            reserved := r\<rparr>)"
      "sum_list (map size_gb segs) = gb"
      "\<forall>nid. reserved_on r nid = reserved_on (reserved f) nid + seg_sum nid segs"
      "distinct (map seg_node segs)"
      "\<forall>s \<in> set segs. 0 \<le> size_gb s
         \<and> (\<exists>n \<in> set nodes. node_state n = HEALTHY \<and> m \<le> free_on_node (reserved f) n
              \<and> seg_node s = node_id n \<and> size_gb s \<le> free_on_node (reserved f) n)"
proof (cases "0 < gb \<and> gb \<le> capacity m nodes (reserved f)")
  case False
  then have "allocate gb nodes own m uid f = (None, f)"
    using available_blocks_facts(3) [OF assms, of m "reserved f"] by (auto simp: allocate_def Let_def)
  with False refused show ?thesis by blast
next
  case True
  let ?bs = "sort_key (\<lambda>x. - snd x) (available_blocks m nodes (reserved f))"
  obtain segs rem r where st: "stripe m ?bs gb (reserved f) = (segs, rem, r)"
    by (metis surj_pair)
  note facts = available_blocks_facts [OF assms, of m "reserved f"]
  note spec = stripe_spec [OF st facts(1)]
  have rem0: "rem = 0"
    using spec True facts(2) by simp
  have alloc: "allocate gb nodes own m uid f =
         (Some \<lparr>allocation_id = uid, total_gb = gb, segments = segs, owner = own, pinned = False\<rparr>,
          f\<lparr>allocations := dict_set uid \<lparr>allocation_id = uid, total_gb = gb, segments = segs,
                                       owner = own, pinned = False\<rparr> (allocations f),
            reserved := r\<rparr>)"
    using True st rem0 facts(3) by (simp add: allocate_def Let_def)
  show ?thesis
  proof (rule granted [OF _ _ alloc])
    show "\<forall>s \<in> set segs. 0 \<le> size_gb s
         \<and> (\<exists>n \<in> set nodes. node_state n = HEALTHY \<and> m \<le> free_on_node (reserved f) n
              \<and> seg_node s = node_id n \<and> size_gb s \<le> free_on_node (reserved f) n)"
      using spec True unfolding facts(4) by auto
  qed (use spec True rem0 in auto)
qed

text \<open>
  C28: allocation is exact: a request succeeds exactly when it is positive and fits the memory it
  may use; the segments then add up to it, lie on different healthy nodes and none takes more
  than its node has free.  A refused request changes nothing.
\<close>

theorem allocate_exact:
  assumes "distinct (map node_id nodes)"
  shows "case allocate gb nodes own m uid f of
      (None, f') \<Rightarrow> f' = f \<and> \<not> (0 < gb \<and> gb \<le> capacity m nodes (reserved f))
    | (Some a, f') \<Rightarrow> 0 < gb \<and> gb \<le> capacity m nodes (reserved f)
        \<and> get_allocation uid f' = Some a
        \<and> sum_list (map size_gb (segments a)) = gb \<and> distinct (map seg_node (segments a))
        \<and> (\<forall>s \<in> set (segments a). \<exists>n \<in> set nodes. node_state n = HEALTHY
              \<and> seg_node s = node_id n \<and> size_gb s \<le> free_on_node (reserved f) n)"
proof (rule allocate_cases [OF assms, of gb m f own uid])
  assume "\<not> (0 < gb \<and> gb \<le> capacity m nodes (reserved f))" "allocate gb nodes own m uid f = (None, f)"
  then show ?thesis by simp
next
  fix segs r
  assume facts: "0 < gb" "gb \<le> capacity m nodes (reserved f)"
    "allocate gb nodes own m uid f =
         (Some \<lparr>allocation_id = uid, total_gb = gb, segments = segs, owner = own, pinned = False\<rparr>,
          f\<lparr>allocations := dict_set uid \<lparr>allocation_id = uid, total_gb = gb, segments = segs,
                                       owner = own, pinned = False\<rparr> (allocations f),
            reserved := r\<rparr>)"
    "sum_list (map size_gb segs) = gb" "distinct (map seg_node segs)"
    "\<forall>s \<in> set segs. 0 \<le> size_gb s
         \<and> (\<exists>n \<in> set nodes. node_state n = HEALTHY \<and> m \<le> free_on_node (reserved f) n
              \<and> seg_node s = node_id n \<and> size_gb s \<le> free_on_node (reserved f) n)"
  then show ?thesis
    by (auto simp: facts(3) get_allocation_def)
qed

subsection \<open>Invariant: what is reserved is what is allocated\<close>

definition allocated_on :: "string \<Rightarrow> memory_allocation dict \<Rightarrow> real" where
  "allocated_on nid d = sum_list (map (\<lambda>a. seg_sum nid (segments a)) (dict_values d))"

definition fabric_ok :: "fabric \<Rightarrow> bool" where
  "fabric_ok f \<longleftrightarrow>
     dict_ok (allocations f)
     \<and> (\<forall>nid. reserved_on (reserved f) nid = allocated_on nid (allocations f))
     \<and> (\<forall>a \<in> set (dict_values (allocations f)).
          total_gb a = sum_list (map size_gb (segments a)) \<and> (\<forall>s \<in> set (segments a). 0 \<le> size_gb s))"

lemma empty_fabric_ok [simp]: "fabric_ok empty_fabric"
  by (simp add: fabric_ok_def empty_fabric_def allocated_on_def)

lemma dict_set_fresh: "k \<notin> set (dict_keys d) \<Longrightarrow> dict_set k v d = d @ [(k, v)]"
  by (induction d) auto

lemma delete_append_fresh: "k \<notin> set (dict_keys d) \<Longrightarrow> dict_pop k (d @ [(k, v)]) = d"
  by (induction d) auto

lemma dict_pop_split:
  assumes "dict_ok d" and "dict_get d k = Some v"
  shows "\<exists>d1 d2. d = d1 @ (k, v) # d2 \<and> dict_pop k d = d1 @ d2"
  using assms
proof (induction d)
  case (Cons x d)
  show ?case
  proof (cases "fst x = k")
    case True
    then have "dict_pop k d = d"
      using Cons.prems(1) by (auto simp: dict_ok_def)
    then have "x # d = [] @ (k, v) # d \<and> dict_pop k (x # d) = [] @ d"
      using True Cons.prems(2) by (cases x) simp
    then show ?thesis by blast
  next
    case False
    then obtain d1 d2 where "d = d1 @ (k, v) # d2" "dict_pop k d = d1 @ d2"
      using Cons by (cases x) (auto simp: dict_ok_def)
    then have "x # d = (x # d1) @ (k, v) # d2 \<and> dict_pop k (x # d) = (x # d1) @ d2"
      using False by simp
    then show ?thesis by blast
  qed
qed simp

lemma allocated_on_simps [simp]:
  "allocated_on nid [] = 0"
  "allocated_on nid (x # d) = seg_sum nid (segments (snd x)) + allocated_on nid d"
  "allocated_on nid (d @ d') = allocated_on nid d + allocated_on nid d'"
  by (simp_all add: allocated_on_def)

lemma allocated_on_nonneg:
  "\<forall>a \<in> set (dict_values d). \<forall>s \<in> set (segments a). 0 \<le> size_gb s \<Longrightarrow> 0 \<le> allocated_on nid d"
  unfolding allocated_on_def by (rule sum_list_nonneg) (auto intro: seg_sum_nonneg)

text \<open>The operations on the fabric that change it.\<close>

datatype fabric_op = Allocate real "node list" string real string | Release string

fun run_fabric :: "fabric_op \<Rightarrow> fabric \<Rightarrow> fabric" where
  "run_fabric (Allocate gb nodes own m uid) f = snd (allocate gb nodes own m uid f)"
| "run_fabric (Release aid) f = snd (release aid f)"

text \<open>Node identifiers are distinct and a drawn allocation identifier is new.\<close>

fun fabric_op_ok :: "fabric_op \<Rightarrow> fabric \<Rightarrow> bool" where
  "fabric_op_ok (Allocate gb nodes own m uid) f =
     (distinct (map node_id nodes) \<and> uid \<notin> set (dict_keys (allocations f)))"
| "fabric_op_ok (Release aid) f = True"

lemma allocate_ok:
  assumes "fabric_ok f" and "distinct (map node_id nodes)" and "uid \<notin> set (dict_keys (allocations f))"
  shows "fabric_ok (snd (allocate gb nodes own m uid f))"
proof (rule allocate_cases [OF assms(2), of gb m f own uid])
  assume "allocate gb nodes own m uid f = (None, f)"
  then show ?thesis using assms(1) by simp
next
  fix segs r
  assume "allocate gb nodes own m uid f =
         (Some \<lparr>allocation_id = uid, total_gb = gb, segments = segs, owner = own, pinned = False\<rparr>,
          f\<lparr>allocations := dict_set uid \<lparr>allocation_id = uid, total_gb = gb, segments = segs,
                                       owner = own, pinned = False\<rparr> (allocations f),
            reserved := r\<rparr>)"
    "sum_list (map size_gb segs) = gb"
    "\<forall>nid. reserved_on r nid = reserved_on (reserved f) nid + seg_sum nid segs"
    "\<forall>s \<in> set segs. 0 \<le> size_gb s
         \<and> (\<exists>n \<in> set nodes. node_state n = HEALTHY \<and> m \<le> free_on_node (reserved f) n
              \<and> seg_node s = node_id n \<and> size_gb s \<le> free_on_node (reserved f) n)"
  then show ?thesis
    using assms dict_ok_set [of "allocations f" uid]
    by (simp add: fabric_ok_def dict_set_fresh)
qed

lemma release_effect:
  assumes "fabric_ok f" and "dict_get (allocations f) aid = Some a"
  shows "\<exists>d1 d2. allocations f = d1 @ (aid, a) # d2 \<and> allocations (snd (release aid f)) = d1 @ d2
    \<and> (\<forall>nid. reserved_on (reserved (snd (release aid f))) nid
             = reserved_on (reserved f) nid - seg_sum nid (segments a))"
proof -
  obtain d1 d2 where d: "allocations f = d1 @ (aid, a) # d2" "dict_pop aid (allocations f) = d1 @ d2"
    using dict_pop_split assms by (metis fabric_ok_def)
  have nn: "\<forall>b \<in> set (dict_values (allocations f)). \<forall>s \<in> set (segments b). 0 \<le> size_gb s"
    using assms(1) by (auto simp: fabric_ok_def)
  have fit: "seg_sum n (segments a) \<le> reserved_on (reserved f) n" for n
  proof -
    have "0 \<le> allocated_on n d1" "0 \<le> allocated_on n d2"
      using nn unfolding d by (auto intro!: allocated_on_nonneg)
    moreover have "reserved_on (reserved f) n = allocated_on n (allocations f)"
      using assms(1) unfolding fabric_ok_def by blast
    ultimately show ?thesis unfolding d by simp
  qed
  moreover have "\<forall>s \<in> set (segments a). 0 \<le> size_gb s"
    using nn unfolding d by auto
  ultimately have "reserved_on (give_back (segments a) (reserved f)) nid
      = reserved_on (reserved f) nid - seg_sum nid (segments a)" for nid
    by (intro give_back_on) auto
  then have "\<forall>nid. reserved_on (reserved (snd (release aid f))) nid
      = reserved_on (reserved f) nid - seg_sum nid (segments a)"
    by (simp add: release_def assms(2))
  moreover have "allocations (snd (release aid f)) = d1 @ d2"
    using d(2) by (simp add: release_def assms(2))
  ultimately show ?thesis using d(1) by blast
qed

lemma release_ok:
  assumes "fabric_ok f"
  shows "fabric_ok (snd (release aid f))"
proof (cases "dict_get (allocations f) aid")
  case None
  then show ?thesis using assms by (simp add: release_def)
next
  case (Some a)
  from release_effect [OF assms this] obtain d1 d2 where
    d: "allocations f = d1 @ (aid, a) # d2" "allocations (snd (release aid f)) = d1 @ d2"
    and r: "\<And>nid. reserved_on (reserved (snd (release aid f))) nid
             = reserved_on (reserved f) nid - seg_sum nid (segments a)"
    by blast
  show ?thesis
    unfolding fabric_ok_def d
  proof (intro conjI allI)
    show "dict_ok (d1 @ d2)"
      using assms by (auto simp: fabric_ok_def d dict_ok_def)
    show "reserved_on (reserved (snd (release aid f))) nid = allocated_on nid (d1 @ d2)" for nid
    proof -
      have "reserved_on (reserved f) nid = allocated_on nid (d1 @ (aid, a) # d2)"
        using assms unfolding fabric_ok_def d by blast
      then show ?thesis by (simp add: r)
    qed
    have "set (dict_values (d1 @ d2)) \<subseteq> set (dict_values (allocations f))"
      by (auto simp: d)
    then show "\<forall>b \<in> set (dict_values (d1 @ d2)).
        total_gb b = sum_list (map size_gb (segments b)) \<and> (\<forall>s \<in> set (segments b). 0 \<le> size_gb s)"
      using assms unfolding fabric_ok_def by blast
  qed
qed

interpretation memory: stateful run_fabric fabric_op_ok fabric_ok
proof unfold_locales
  fix f p
  assume "fabric_ok f" "fabric_op_ok p f"
  then show "fabric_ok (run_fabric p f)"
    by (cases p) (auto intro: allocate_ok release_ok)
qed

text \<open>
  C27: nothing leaks: after any sequence of allocations and releases, what is reserved on a node is
  exactly the sum of the segments that the live allocations hold there.
\<close>

theorem reserved_is_allocated:
  assumes "legal_run run_fabric fabric_op_ok ps empty_fabric"
  shows "reserved_on (reserved (fold run_fabric ps empty_fabric)) nid =
      (\<Sum>a \<leftarrow> list_allocations (fold run_fabric ps empty_fabric). seg_sum nid (segments a))"
  using memory.run_all_ok [OF empty_fabric_ok assms]
  by (simp add: fabric_ok_def allocated_on_def list_allocations_def)

text \<open>
  Releasing an allocation right after it was granted restores the fabric: the same
  allocations and the same reservation on every node; releasing it again does nothing.
\<close>

lemma allocate_release:
  assumes "fabric_ok f" and "distinct (map node_id nodes)" and "uid \<notin> set (dict_keys (allocations f))"
    and "allocate gb nodes own m uid f = (Some a, f')"
  shows "fst (release uid f') \<and> allocations (snd (release uid f')) = allocations f
    \<and> reserved_on (reserved (snd (release uid f'))) nid = reserved_on (reserved f) nid
    \<and> release uid (snd (release uid f')) = (False, snd (release uid f'))"
proof (rule allocate_cases [OF assms(2), of gb m f own uid])
  assume "allocate gb nodes own m uid f = (None, f)"
  then show ?thesis using assms(4) by simp
next
  fix segs r
  assume al: "allocate gb nodes own m uid f =
         (Some \<lparr>allocation_id = uid, total_gb = gb, segments = segs, owner = own, pinned = False\<rparr>,
          f\<lparr>allocations := dict_set uid \<lparr>allocation_id = uid, total_gb = gb, segments = segs,
                                       owner = own, pinned = False\<rparr> (allocations f),
            reserved := r\<rparr>)"
    and r: "\<forall>nid. reserved_on r nid = reserved_on (reserved f) nid + seg_sum nid segs"
  have f': "f' = f\<lparr>allocations := allocations f @ [(uid, a)], reserved := r\<rparr>" "segments a = segs"
    using assms(3,4) al by (auto simp: dict_set_fresh)
  have ok: "fabric_ok f'"
    using allocate_ok [OF assms(1-3), of gb own m] assms(4) by simp
  have get: "dict_get (allocations f') uid = Some a"
    using al assms(4) by auto
  have pop: "dict_pop uid (allocations f') = allocations f"
    using assms(3) by (simp add: f' delete_append_fresh)
  from release_effect [OF ok get] have "reserved_on (reserved (snd (release uid f'))) nid
      = reserved_on (reserved f) nid"
    using r f' by auto
  moreover have "dict_get (allocations f) uid = None"
    using assms(3) by (simp add: map_of_eq_None_iff)
  ultimately show ?thesis
    using get pop by (simp add: release_def)
qed

lemma none_of:
  "x \<notin> node_id ` set ns \<Longrightarrow> (\<Sum>n \<leftarrow> ns. if x = node_id n then c else (0::real)) = 0"
  by (induction ns) auto

lemma one_of:
  "distinct (map node_id ns) \<Longrightarrow> x \<in> node_id ` set ns \<Longrightarrow>
     (\<Sum>n \<leftarrow> ns. if x = node_id n then c else (0::real)) = c"
  by (induction ns) (auto simp: none_of)

lemma seg_sum_over_nodes:
  assumes "distinct (map node_id ns)" and "\<forall>s \<in> set segs. seg_node s \<in> node_id ` set ns"
  shows "(\<Sum>n \<leftarrow> ns. seg_sum (node_id n) segs) = sum_list (map size_gb segs)"
  using assms(2)
proof (induction segs)
  case Nil
  then show ?case by simp
next
  case (Cons s segs)
  have "(\<Sum>n \<leftarrow> ns. if seg_node s = node_id n then size_gb s else 0) = size_gb s"
    using one_of [OF assms(1)] Cons.prems by simp
  with Cons show ?case
    by (simp add: sum_list_addf)
qed

lemma seg_sum_one:
  assumes "distinct (map seg_node segs)" and "s \<in> set segs" and "seg_node s = nid"
  shows "seg_sum nid segs = size_gb s"
  using assms
proof (induction segs)
  case (Cons x segs)
  have "seg_sum nid segs = 0" if "nid \<notin> seg_node ` set segs"
    using that by (induction segs) auto
  with Cons show ?case by auto
qed simp

text \<open>
  Conservation: a granted request takes exactly its size from the free memory the statistics
  show and adds exactly its size to the allocated memory.
\<close>

lemma allocate_conserves:
  assumes "distinct (map node_id nodes)" and "uid \<notin> set (dict_keys (allocations f))"
    and "allocate gb nodes own m uid f = (Some a, f')"
  shows "pool_free_gb (pool_stats nodes f') = pool_free_gb (pool_stats nodes f) - gb
    \<and> pool_allocated_gb (pool_stats nodes f') = pool_allocated_gb (pool_stats nodes f) + gb"
proof (rule allocate_cases [OF assms(1), of gb m f own uid])
  assume "allocate gb nodes own m uid f = (None, f)"
  then show ?thesis using assms(3) by simp
next
  fix segs r
  assume al: "allocate gb nodes own m uid f =
         (Some \<lparr>allocation_id = uid, total_gb = gb, segments = segs, owner = own, pinned = False\<rparr>,
          f\<lparr>allocations := dict_set uid \<lparr>allocation_id = uid, total_gb = gb, segments = segs,
                                       owner = own, pinned = False\<rparr> (allocations f),
            reserved := r\<rparr>)"
    and r: "\<forall>nid. reserved_on r nid = reserved_on (reserved f) nid + seg_sum nid segs"
    and sum: "sum_list (map size_gb segs) = gb" and d: "distinct (map seg_node segs)"
    and segs: "\<forall>s \<in> set segs. 0 \<le> size_gb s
         \<and> (\<exists>n \<in> set nodes. node_state n = HEALTHY \<and> m \<le> free_on_node (reserved f) n
              \<and> seg_node s = node_id n \<and> size_gb s \<le> free_on_node (reserved f) n)"
  let ?el = "fabric_nodes nodes"
  have f': "allocations f' = allocations f @ [(uid, a)]" "reserved f' = r" "total_gb a = gb"
    using assms(2,3) al by (auto simp: dict_set_fresh)
  have el: "distinct (map node_id ?el)"
    using assms(1) by (simp add: fabric_nodes_def distinct_map_filter)
  have on_el: "\<forall>s \<in> set segs. seg_node s \<in> node_id ` set ?el"
  proof
    fix s
    assume "s \<in> set segs"
    with segs obtain n where "n \<in> set nodes" "node_state n = HEALTHY" "seg_node s = node_id n"
      by blast
    then show "seg_node s \<in> node_id ` set ?el"
      by (simp add: fabric_nodes_def)
  qed
  have one: "seg_sum (node_id n) segs \<le> free_on_node (reserved f) n" if "n \<in> set nodes" for n
  proof (cases "\<exists>s \<in> set segs. seg_node s = node_id n")
    case True
    then obtain s where s: "s \<in> set segs" "seg_node s = node_id n" by blast
    then obtain k where "k \<in> set nodes" "node_id k = node_id n" "size_gb s \<le> free_on_node (reserved f) k"
      using segs by metis
    moreover have "k = n"
      using calculation assms(1) that by (auto simp: distinct_map inj_on_def)
    ultimately show ?thesis
      using seg_sum_one [OF d s] by simp
  next
    case False
    then have "seg_sum (node_id n) segs = 0"
      by (simp add: seg_sum_def filter_empty_conv [THEN iffD2])
    then show ?thesis by (simp add: free_on_node_def)
  qed
  have nn: "0 \<le> seg_sum nid segs" for nid
    using segs by (intro seg_sum_nonneg) blast
  have "free_on_node r n = free_on_node (reserved f) n - seg_sum (node_id n) segs"
    if "n \<in> set ?el" for n
  proof -
    have "seg_sum (node_id n) segs \<le> free_on_node (reserved f) n"
      using that by (intro one) (simp add: fabric_nodes_def)
    then show ?thesis
      using nn [of "node_id n"] r [rule_format, of "node_id n"]
      unfolding free_on_node_def max_def by (simp split: if_splits)
  qed
  then have "sum_list (map (free_on_node r) ?el)
      = (\<Sum>n \<leftarrow> ?el. free_on_node (reserved f) n - seg_sum (node_id n) segs)"
    by (intro arg_cong [where f = sum_list] map_cong) auto
  also have "\<dots> = sum_list (map (free_on_node (reserved f)) ?el) - gb"
    using seg_sum_over_nodes [OF el on_el] sum
    by (simp add: sum_list_subtractf)
  finally show ?thesis
    by (simp add: pool_stats_def Let_def f')
qed

subsection \<open>Concrete inputs\<close>

text \<open>Ten gigabytes over two nodes with eight free each: eight from one, two from the other.\<close>

definition sample_nodes :: "node list" where
  "sample_nodes = [sample_node ''a'' 4, sample_node ''b'' 8]"

lemma sample_nodes_distinct: "distinct (map node_id sample_nodes)"
  by (simp add: sample_nodes_def)

lemma allocate_sample:
  "fst (allocate 10 sample_nodes ''o'' 1 ''u'' empty_fabric) =
     Some \<lparr>allocation_id = ''u'', total_gb = 10,
           segments = [\<lparr>seg_node = ''a'', seg_hostname = ''a'', size_gb = 8, seg_location = ''home''\<rparr>,
                       \<lparr>seg_node = ''b'', seg_hostname = ''b'', size_gb = 2, seg_location = ''home''\<rparr>],
           owner = ''o'', pinned = False\<rparr>"
  by code_simp

lemma allocate_exact_witness:
  "10 \<le> capacity 1 sample_nodes (reserved empty_fabric)"
  using allocate_exact [OF sample_nodes_distinct, where gb = 10 and own = "''o''" and m = 1
        and uid = "''u''" and f = empty_fabric]
    allocate_sample by (simp split: prod.splits)

lemma reserved_is_allocated_witness:
  "reserved_on (reserved (fold run_fabric [Allocate 10 sample_nodes ''o'' 1 ''u'',
       Allocate 3 sample_nodes ''o'' 1 ''v'', Release ''u''] empty_fabric)) ''b'' =
    (\<Sum>a \<leftarrow> list_allocations (fold run_fabric [Allocate 10 sample_nodes ''o'' 1 ''u'',
       Allocate 3 sample_nodes ''o'' 1 ''v'', Release ''u''] empty_fabric). seg_sum ''b'' (segments a))"
proof (rule reserved_is_allocated)
  show "legal_run run_fabric fabric_op_ok [Allocate 10 sample_nodes ''o'' 1 ''u'',
       Allocate 3 sample_nodes ''o'' 1 ''v'', Release ''u''] empty_fabric"
    by code_simp
qed

lemma allocate_release_witness:
  "allocations (snd (release ''u'' (snd (allocate 10 sample_nodes ''o'' 1 ''u'' empty_fabric)))) = []"
proof -
  obtain a f' where run: "allocate 10 sample_nodes ''o'' 1 ''u'' empty_fabric = (Some a, f')"
    using allocate_sample by (cases "allocate 10 sample_nodes ''o'' 1 ''u'' empty_fabric") auto
  from allocate_release [OF empty_fabric_ok sample_nodes_distinct _ run] show ?thesis
    unfolding run by (simp add: empty_fabric_def)
qed

lemma allocate_conserves_witness:
  "pool_free_gb (pool_stats sample_nodes (snd (allocate 10 sample_nodes ''o'' 1 ''u'' empty_fabric)))
     = pool_free_gb (pool_stats sample_nodes empty_fabric) - 10"
proof -
  obtain a f' where run: "allocate 10 sample_nodes ''o'' 1 ''u'' empty_fabric = (Some a, f')"
    using allocate_sample by (cases "allocate 10 sample_nodes ''o'' 1 ''u'' empty_fabric") auto
  from allocate_conserves [OF sample_nodes_distinct _ run] show ?thesis
    unfolding run by (simp add: empty_fabric_def)
qed

end
