(* ===== verification/Speculation.thy ===== *)
theory Speculation
  imports Samples
begin

section \<open>Speculative execution (mesh/recovery/speculation.py)\<close>

text \<open>
  \<^verbatim>\<open>SpeculativeExecutor\<close>: start times, the map from a task to its duplicate, and the choice of
  stragglers by the median running time.  A start time of exactly zero is as good as none,
  because the code tests the time itself (\<^verbatim>\<open>if start\<close>).
\<close>

record speculation =
  multiplier :: real
  min_runtime_seconds :: real
  start_times :: "real dict"
  speculative :: "string dict"

definition new_speculation :: speculation where
  "new_speculation =
     \<lparr>multiplier = 3 / 2, min_runtime_seconds = 2, start_times = [], speculative = []\<rparr>"

definition record_start :: "real \<Rightarrow> string \<Rightarrow> speculation \<Rightarrow> speculation" where
  "record_start now tid s = s\<lparr>start_times := dict_set tid now (start_times s)\<rparr>"

definition clear :: "string \<Rightarrow> speculation \<Rightarrow> speculation" where
  "clear tid s =
     s\<lparr>start_times := dict_pop tid (start_times s), speculative := dict_pop tid (speculative s)\<rparr>"

text \<open>\<^verbatim>\<open>statistics.median\<close> of the standard library.\<close>

definition median :: "real list \<Rightarrow> real" where
  "median xs =
     (let s = sort xs; n = length xs
      in if odd n then s ! (n div 2) else (s ! (n div 2 - 1) + s ! (n div 2)) / 2)"

definition started :: "speculation \<Rightarrow> string \<Rightarrow> real option" where
  "started s tid =
     (case dict_get (start_times s) tid of None \<Rightarrow> None | Some t \<Rightarrow> if t = 0 then None else Some t)"

fun runtimes :: "real \<Rightarrow> speculation \<Rightarrow> task_spec list \<Rightarrow> real list" where
  "runtimes now s [] = []"
| "runtimes now s (t # ts) =
     (case started s (task_id t) of
        None \<Rightarrow> runtimes now s ts
      | Some st \<Rightarrow> (now - st) # runtimes now s ts)"

definition is_straggler :: "real \<Rightarrow> real \<Rightarrow> speculation \<Rightarrow> task_spec \<Rightarrow> bool" where
  "is_straggler now threshold s t =
     (case started s (task_id t) of
        None \<Rightarrow> False
      | Some st \<Rightarrow> threshold < now - st \<and> dict_get (speculative s) (task_id t) = None)"

definition find_stragglers :: "real \<Rightarrow> speculation \<Rightarrow> task_spec list \<Rightarrow> task_spec list" where
  "find_stragglers now s tasks =
     (let running = filter (\<lambda>t. task_state t = T_RUNNING) tasks in
      if length running < 2 then []
      else
        let rts = runtimes now s running in
        if rts = [] then []
        else
          let threshold = max (min_runtime_seconds s) (median rts * multiplier s)
          in filter (is_straggler now threshold s) running)"

definition mark_speculative :: "string \<Rightarrow> string \<Rightarrow> speculation \<Rightarrow> speculation" where
  "mark_speculative orig dup s = s\<lparr>speculative := dict_set orig dup (speculative s)\<rparr>"

definition duplicate_id :: "string \<Rightarrow> speculation \<Rightarrow> string option" where
  "duplicate_id orig s = dict_get (speculative s) orig"

subsection \<open>The median\<close>

lemma sorted_above_nth:
  assumes "sorted (xs :: real list)" and "i < length xs" and "xs ! i \<le> m"
  shows "length (filter (\<lambda>x. m < x) xs) \<le> length xs - Suc i"
proof -
  have "x \<le> m" if "x \<in> set (take (Suc i) xs)" for x
  proof -
    from that assms(2) obtain j where "j \<le> i" "x = xs ! j"
      by (auto simp: in_set_conv_nth less_Suc_eq_le)
    then show ?thesis
      using sorted_nth_mono [OF assms(1) _ assms(2), of j] assms(3) by simp
  qed
  then have "filter (\<lambda>x. m < x) (take (Suc i) xs) = []"
    by (auto simp: filter_empty_conv not_less)
  moreover have "filter (\<lambda>x. m < x) xs
      = filter (\<lambda>x. m < x) (take (Suc i) xs) @ filter (\<lambda>x. m < x) (drop (Suc i) xs)"
    by (metis append_take_drop_id filter_append)
  ultimately show ?thesis
    by (metis append_Nil length_drop length_filter_le)
qed

lemma above_median:
  assumes "xs \<noteq> []"
  shows "2 * length (filter (\<lambda>x. median xs < x) xs) \<le> length xs"
proof -
  let ?s = "sort xs" and ?n = "length xs"
  let ?i = "if odd ?n then ?n div 2 else ?n div 2 - 1"
  have pos: "0 < ?n" using assms by simp
  have i: "?i < length ?s" using pos by (simp, linarith)
  have "?s ! ?i \<le> median xs"
  proof (cases "odd ?n")
    case True
    then show ?thesis by (simp add: median_def Let_def)
  next
    case False
    then have "?s ! (?n div 2 - 1) \<le> ?s ! (?n div 2)"
      using pos by (intro sorted_nth_mono) auto
    then show ?thesis using False by (simp add: median_def Let_def)
  qed
  from sorted_above_nth [OF sorted_sort i this]
  have "length (filter (\<lambda>x. median xs < x) ?s) \<le> ?n - Suc ?i"
    by simp
  moreover have "length (filter P ?s) = length (filter P xs)" for P
    by (simp add: filter_sort)
  moreover have "2 * (?n - Suc ?i) \<le> ?n"
    using pos by (cases "odd ?n") (auto elim!: oddE evenE)
  ultimately show ?thesis by (metis (no_types, lifting) le_trans mult_le_mono2)
qed

lemma median_nonneg:
  assumes "xs \<noteq> []" and "\<forall>x \<in> set xs. 0 \<le> x"
  shows "0 \<le> median xs"
proof -
  have "0 \<le> sort xs ! i" if "i < length xs" for i
    using assms(2) that by (metis length_sort nth_mem set_sort)
  then have "0 \<le> sort xs ! (length xs div 2)" "0 \<le> sort xs ! (length xs div 2 - 1)"
    using assms(1) by (simp_all add: less_imp_diff_less)
  then show ?thesis
    by (simp add: median_def Let_def)
qed

subsection \<open>Stragglers\<close>

lemma stragglers_runtimes:
  "length (filter (is_straggler now thr s) ts) \<le> length (filter (\<lambda>x. thr < x) (runtimes now s ts))"
  by (induction ts) (auto simp: is_straggler_def split: option.splits)

lemma length_runtimes: "length (runtimes now s ts) \<le> length ts"
  by (induction ts) (auto split: option.splits)

lemma runtimes_nonneg:
  "\<forall>tid st. dict_get (start_times s) tid = Some st \<longrightarrow> st \<le> now \<Longrightarrow> \<forall>x \<in> set (runtimes now s ts). 0 \<le> x"
  by (induction ts) (auto simp: started_def split: option.splits if_splits)

lemma length_filter_mono:
  "(\<And>x. P x \<Longrightarrow> Q x) \<Longrightarrow> length (filter P xs) \<le> length (filter Q xs)"
  by (induction xs) auto

text \<open>
  With a multiplier of at least one and start times in the past, the stragglers are running
  tasks without a duplicate that have run longer than the minimum, and never more than half
  of the running tasks.
\<close>

lemma stragglers_minority:
  assumes "1 \<le> multiplier s" and "\<forall>tid st. dict_get (start_times s) tid = Some st \<longrightarrow> st \<le> now"
  shows "2 * length (find_stragglers now s tasks)
      \<le> length (filter (\<lambda>t. task_state t = T_RUNNING) tasks)
    \<and> (\<forall>t \<in> set (find_stragglers now s tasks).
         t \<in> set tasks \<and> task_state t = T_RUNNING \<and> duplicate_id (task_id t) s = None
         \<and> (\<exists>st. dict_get (start_times s) (task_id t) = Some st \<and> min_runtime_seconds s < now - st))"
proof -
  let ?run = "filter (\<lambda>t. task_state t = T_RUNNING) tasks"
  let ?rts = "runtimes now s ?run"
  let ?thr = "max (min_runtime_seconds s) (median ?rts * multiplier s)"
  have cases: "find_stragglers now s tasks = []
      \<or> ?rts \<noteq> [] \<and> find_stragglers now s tasks = filter (is_straggler now ?thr s) ?run"
    by (simp add: find_stragglers_def Let_def)
  have "2 * length (filter (is_straggler now ?thr s) ?run) \<le> length ?run" if ne: "?rts \<noteq> []"
  proof -
    have "0 \<le> median ?rts"
      using median_nonneg [OF ne runtimes_nonneg [OF assms(2)]] .
    then have "median ?rts \<le> ?thr"
      using mult_left_mono [OF assms(1), of "median ?rts"] by simp
    then have "length (filter (\<lambda>x. ?thr < x) ?rts) \<le> length (filter (\<lambda>x. median ?rts < x) ?rts)"
      by (intro length_filter_mono) linarith
    then show ?thesis
      using stragglers_runtimes [of now ?thr s ?run] above_median [OF ne]
        length_runtimes [of now s ?run] by linarith
  qed
  moreover have "\<exists>st. dict_get (start_times s) (task_id t) = Some st \<and> min_runtime_seconds s < now - st"
    if "is_straggler now ?thr s t" for t
    using that by (auto simp: is_straggler_def started_def split: option.splits if_splits)
  moreover have "duplicate_id (task_id t) s = None" if "is_straggler now ?thr s t" for t
    using that by (auto simp: is_straggler_def duplicate_id_def split: option.splits)
  ultimately show ?thesis
    using cases by auto
qed

definition sample_speculation :: speculation where
  "sample_speculation = record_start 19 ''c'' (record_start 18 ''b'' (record_start 10 ''a'' new_speculation))"

lemma stragglers_minority_witness:
  "find_stragglers 20 sample_speculation
       [assigned_task ''a'' ''n'', assigned_task ''b'' ''n'', assigned_task ''c'' ''n'']
     = [assigned_task ''a'' ''n'']
   \<and> 2 * length (find_stragglers 20 sample_speculation
       [assigned_task ''a'' ''n'', assigned_task ''b'' ''n'', assigned_task ''c'' ''n'']) \<le> 3"
proof
  show "find_stragglers 20 sample_speculation
       [assigned_task ''a'' ''n'', assigned_task ''b'' ''n'', assigned_task ''c'' ''n'']
     = [assigned_task ''a'' ''n'']"
    by (simp add: find_stragglers_def sample_speculation_def record_start_def new_speculation_def
        started_def median_def is_straggler_def Let_def)
  have "1 \<le> multiplier sample_speculation"
    "\<forall>tid st. dict_get (start_times sample_speculation) tid = Some st \<longrightarrow> st \<le> 20"
    by (simp_all add: sample_speculation_def record_start_def new_speculation_def)
  from stragglers_minority [OF this, of "[assigned_task ''a'' ''n'', assigned_task ''b'' ''n'', assigned_task ''c'' ''n'']"]
  show "2 * length (find_stragglers 20 sample_speculation
       [assigned_task ''a'' ''n'', assigned_task ''b'' ''n'', assigned_task ''c'' ''n'']) \<le> 3"
    by simp
qed

end
