(* ===== verification/Checkpoints.thy ===== *)
theory Checkpoints
  imports Samples
begin

section \<open>Checkpoints (mesh/recovery/checkpoint.py)\<close>

text \<open>
  \<^verbatim>\<open>CheckpointManager\<close>: one checkpoint per task, the last one saved.  A task object that is
  updated in place is a task that is returned updated.
\<close>

record checkpoint =
  cp_task_id :: string
  cp_progress :: real
  cp_state_data :: "pyval dict"
  cp_timestamp :: real

text \<open>\<^verbatim>\<open>state_data or {}\<close> makes an absent and an empty dictionary the same.\<close>

definition save_checkpoint ::
  "task_spec \<Rightarrow> pyval dict option \<Rightarrow> real \<Rightarrow> checkpoint dict \<Rightarrow> checkpoint \<times> checkpoint dict" where
  "save_checkpoint t sd ts cps =
     (let cp = \<lparr>cp_task_id = task_id t, cp_progress = task_progress t,
                cp_state_data = (case sd of None \<Rightarrow> [] | Some d \<Rightarrow> d), cp_timestamp = ts\<rparr>
      in (cp, dict_set (task_id t) cp cps))"

definition load_checkpoint :: "checkpoint dict \<Rightarrow> string \<Rightarrow> checkpoint option" where
  "load_checkpoint cps tid = dict_get cps tid"

definition restore_progress :: "checkpoint dict \<Rightarrow> task_spec \<Rightarrow> task_spec" where
  "restore_progress cps t =
     (case load_checkpoint cps (task_id t) of
        None \<Rightarrow> t
      | Some cp \<Rightarrow> t\<lparr>task_progress := cp_progress cp, state_data := cp_state_data cp\<rparr>)"

definition restore :: "checkpoint dict \<Rightarrow> task_spec \<Rightarrow> task_spec" where
  "restore cps t = restore_progress cps t"

subsection \<open>Facts\<close>

lemma restore_frame [simp]:
  "task_id (restore cps t) = task_id t"
  "task_requirements (restore cps t) = task_requirements t"
  "task_pool (restore cps t) = task_pool t"
  "task_state (restore cps t) = task_state t"
  "assigned_node (restore cps t) = assigned_node t"
  "total_work (restore cps t) = total_work t"
  "task_fn (restore cps t) = task_fn t"
  "task_job_id (restore cps t) = task_job_id t"
  by (simp_all add: restore_def restore_progress_def split: option.split)

lemma restore_empty [simp]: "restore [] t = t"
  by (simp add: restore_def restore_progress_def load_checkpoint_def)

text \<open>A history of saves: the task as it was, its user state, and the time.\<close>

type_synonym save_event = "task_spec \<times> pyval dict option \<times> real"

definition run_save :: "save_event \<Rightarrow> checkpoint dict \<Rightarrow> checkpoint dict" where
  "run_save ev cps = (case ev of (t, sd, ts) \<Rightarrow> snd (save_checkpoint t sd ts cps))"

definition last_save :: "string \<Rightarrow> save_event list \<Rightarrow> save_event option" where
  "last_save tid evs = List.find (\<lambda>(t, _). task_id t = tid) (rev evs)"

lemma fold_saves:
  "dict_get (fold run_save evs cps) tid =
     (case last_save tid evs of
        None \<Rightarrow> dict_get cps tid
      | Some (t, sd, ts) \<Rightarrow>
          Some \<lparr>cp_task_id = tid, cp_progress = task_progress t,
                cp_state_data = (case sd of None \<Rightarrow> [] | Some d \<Rightarrow> d), cp_timestamp = ts\<rparr>)"
proof (induction evs rule: rev_induct)
  case Nil
  then show ?case by (simp add: last_save_def)
next
  case (snoc ev evs)
  then show ?case
    by (cases ev) (auto simp: last_save_def run_save_def save_checkpoint_def Let_def)
qed

text \<open>
  After any history of saves, restoring a task gives it the progress and the user state of
  the last save made under its identifier, whatever was saved for other tasks in between, and
  leaves a task that was never saved as it is; every other field is kept.
\<close>

lemma restore_last_save:
  "restore (fold run_save evs []) t =
     (case last_save (task_id t) evs of
        None \<Rightarrow> t
      | Some (old, sd, ts) \<Rightarrow>
          t\<lparr>task_progress := task_progress old,
            state_data := (case sd of None \<Rightarrow> [] | Some d \<Rightarrow> d)\<rparr>)"
  by (simp add: restore_def restore_progress_def load_checkpoint_def fold_saves
      split: option.split prod.split)

end
