(* ===== verification/WorkStealing.thy ===== *)
theory WorkStealing
  imports Placement Checkpoints
begin

section \<open>Work stealing (mesh/recovery/work_stealing.py)\<close>

text \<open>
  \<^verbatim>\<open>WorkStealer\<close>: which tasks a dead node orphans, and their reassignment one by one.  The loop
  takes the placement method as an argument; its lemmas are proved for every \<open>placer\<close>, and
  the properties are about the placement engine.  The result lists the updated tasks.
\<close>

definition orphan_states :: "task_state set" where
  "orphan_states = {T_RUNNING, T_PAUSED, T_CHECKPOINTING}"

definition is_orphan :: "string set \<Rightarrow> task_spec \<Rightarrow> bool" where
  "is_orphan dead t \<longleftrightarrow>
     (case assigned_node t of None \<Rightarrow> False | Some nid \<Rightarrow> nid \<in> dead) \<and> task_state t \<in> orphan_states"

definition find_orphaned_tasks :: "task_spec list \<Rightarrow> string set \<Rightarrow> task_spec list" where
  "find_orphaned_tasks tasks dead = filter (is_orphan dead) tasks"

fun steal_loop ::
  "(task_spec \<Rightarrow> node list \<Rightarrow> placement option result) \<Rightarrow> checkpoint dict \<Rightarrow> node list
     \<Rightarrow> task_spec list \<Rightarrow> string set \<Rightarrow> (task_spec \<times> string option) list result" where
  "steal_loop pf cps healthy [] used = Inr []"
| "steal_loop pf cps healthy (t # ts) used =
     (let t1 = (restore cps t)\<lparr>task_state := T_MIGRATING\<rparr>;
          candidates = filter (\<lambda>n. node_id n \<notin> used \<or> length healthy = 1) healthy
      in ebind (pf t1 candidates) (\<lambda>r.
           case r of
             Some p \<Rightarrow>
               ebind (steal_loop pf cps healthy ts (insert (pl_node_id p) used)) (\<lambda>rs.
                 Inr ((t1\<lparr>assigned_node := Some (pl_node_id p), task_state := T_RUNNING\<rparr>,
                       Some (pl_node_id p)) # rs))
           | None \<Rightarrow>
               ebind (steal_loop pf cps healthy ts used) (\<lambda>rs.
                 Inr ((t1\<lparr>task_state := T_PENDING, assigned_node := None\<rparr>, None) # rs))))"

definition steal ::
  "(task_spec \<Rightarrow> node list \<Rightarrow> placement option result) \<Rightarrow> checkpoint dict
     \<Rightarrow> task_spec list \<Rightarrow> node list \<Rightarrow> (task_spec \<times> string option) list result" where
  "steal pf cps orphaned available =
     steal_loop pf cps (filter (\<lambda>n. node_state n = HEALTHY) available) orphaned {}"

subsection \<open>The loop, for any placement method\<close>

text \<open>What one reassignment leaves behind, for the orphan \<open>t\<close>.\<close>

definition stolen_ok :: "checkpoint dict \<Rightarrow> node list \<Rightarrow> task_spec \<Rightarrow> task_spec \<times> string option \<Rightarrow> bool" where
  "stolen_ok cps healthy t r \<longleftrightarrow>
     assigned_node (fst r) = snd r
     \<and> task_id (fst r) = task_id t
     \<and> task_progress (fst r) = task_progress (restore cps t)
     \<and> state_data (fst r) = state_data (restore cps t)
     \<and> (case snd r of
          None \<Rightarrow> task_state (fst r) = T_PENDING
        | Some nid \<Rightarrow> task_state (fst r) = T_RUNNING
            \<and> (\<exists>n \<in> set healthy. node_id n = nid
                \<and> meets_requirements n (task_requirements t) = Inr True))"

text \<open>The nodes a list of results uses.\<close>

definition used_by :: "('a \<times> string option) list \<Rightarrow> string list" where
  "used_by rs = List.map_filter snd rs"

lemma used_by_simps [simp]:
  "used_by [] = []"
  "used_by ((t, None) # rs) = used_by rs"
  "used_by ((t, Some n) # rs) = n # used_by rs"
  by (simp_all add: used_by_def map_filter_simps)

context placer
begin

lemma steal_Cons_cases [consumes 1, case_names placed unplaced]:
  assumes "steal_loop pf cps healthy (t # ts) used = Inr rs"
  obtains (placed) p rs' where
      "pf ((restore cps t)\<lparr>task_state := T_MIGRATING\<rparr>)
         (filter (\<lambda>n. node_id n \<notin> used \<or> length healthy = 1) healthy) = Inr (Some p)"
      "steal_loop pf cps healthy ts (insert (pl_node_id p) used) = Inr rs'"
      "rs = ((restore cps t)\<lparr>task_state := T_RUNNING, assigned_node := Some (pl_node_id p)\<rparr>,
             Some (pl_node_id p)) # rs'"
  | (unplaced) rs' where
      "pf ((restore cps t)\<lparr>task_state := T_MIGRATING\<rparr>)
         (filter (\<lambda>n. node_id n \<notin> used \<or> length healthy = 1) healthy) = Inr None"
      "steal_loop pf cps healthy ts used = Inr rs'"
      "rs = ((restore cps t)\<lparr>task_state := T_PENDING, assigned_node := None\<rparr>, None) # rs'"
proof -
  let ?pf = "pf ((restore cps t)\<lparr>task_state := T_MIGRATING\<rparr>)
         (filter (\<lambda>n. node_id n \<notin> used \<or> length healthy = 1) healthy)"
  from assms obtain r where r: "?pf = Inr r"
    by (auto simp: Let_def)
  show thesis
  proof (cases r)
    case None
    then show ?thesis using assms r unplaced by (auto simp: Let_def)
  next
    case (Some p)
    then show ?thesis using assms r placed by (auto simp: Let_def)
  qed
qed

lemma steal_loop_ok:
  "steal_loop pf cps healthy ts used = Inr rs \<Longrightarrow> list_all2 (stolen_ok cps healthy) ts rs"
proof (induction ts arbitrary: used rs)
  case Nil
  then show ?case by simp
next
  case (Cons t ts)
  from Cons.prems show ?case
  proof (cases rule: steal_Cons_cases)
    case (placed p rs')
    from pf_node [OF placed(1)] Cons.IH [OF placed(2)] show ?thesis
      by (auto simp: placed(3) stolen_ok_def)
  next
    case (unplaced rs')
    from Cons.IH [OF unplaced(2)] show ?thesis
      by (simp add: unplaced(3) stolen_ok_def)
  qed
qed

lemma steal_loop_distinct:
  assumes "length healthy \<noteq> 1"
  shows "steal_loop pf cps healthy ts used = Inr rs \<Longrightarrow>
    distinct (used_by rs) \<and> set (used_by rs) \<inter> used = {} \<and> set (used_by rs) \<subseteq> node_id ` set healthy"
proof (induction ts arbitrary: used rs)
  case Nil
  then show ?case by simp
next
  case (Cons t ts)
  from Cons.prems show ?case
  proof (cases rule: steal_Cons_cases)
    case (placed p rs')
    from pf_node [OF placed(1)] assms have "pl_node_id p \<notin> used" "pl_node_id p \<in> node_id ` set healthy"
      by (auto simp del: One_nat_def intro: rev_image_eqI)
    with Cons.IH [OF placed(2)] show ?thesis by (auto simp: placed(3))
  next
    case (unplaced rs')
    from Cons.IH [OF unplaced(2)] show ?thesis by (simp add: unplaced(3))
  qed
qed

lemma steal_sound:
  assumes "steal pf cps orphaned available = Inr rs"
  shows "list_all2 (stolen_ok cps (filter (\<lambda>n. node_state n = HEALTHY) available)) orphaned rs"
  using steal_loop_ok assms unfolding steal_def by blast

lemma steal_one_per_node:
  assumes "steal pf cps orphaned available = Inr rs"
    and "length (filter (\<lambda>n. node_state n = HEALTHY) available) \<noteq> 1"
  shows "distinct (used_by rs)
    \<and> length (used_by rs) \<le> length (filter (\<lambda>n. node_state n = HEALTHY) available)"
proof -
  let ?h = "filter (\<lambda>n. node_state n = HEALTHY) available"
  have d: "distinct (used_by rs)" "set (used_by rs) \<subseteq> node_id ` set ?h"
    using steal_loop_distinct [OF assms(2)] assms(1) unfolding steal_def by blast+
  then have "card (set (used_by rs)) \<le> card (node_id ` set ?h)"
    by (intro card_mono) auto
  also have "\<dots> \<le> card (set ?h)"
    by (rule card_image_le) simp
  finally show ?thesis
    using d(1) card_length [of ?h] by (simp add: distinct_card)
qed

end

subsection \<open>Properties of stealing with the placement engine\<close>

text \<open>
  C15: reassignment is sound: every orphan, in order, comes back either running on a healthy node
  that meets its requirements or pending with no node, and in both cases with the progress
  and the user state of its last checkpoint.
\<close>

theorem steal_reassigns:
  assumes "steal (place e hour) cps orphaned available = Inr rs"
  shows "length rs = length orphaned \<and> (\<forall>i < length orphaned.
      stolen_ok cps (filter (\<lambda>n. node_state n = HEALTHY) available) (orphaned ! i) (rs ! i))"
  using engine.steal_sound [OF assms] by (simp add: list_all2_conv_all_nth)

text \<open>
  With any number of healthy nodes but one, no node receives two orphans, so of more orphans
  than healthy nodes the surplus stays pending (the fault-tolerance guide promises that every
  orphan is reassigned).
\<close>

lemma steal_spreads:
  assumes "steal (place e hour) cps orphaned available = Inr rs"
    and "length (filter (\<lambda>n. node_state n = HEALTHY) available) \<noteq> 1"
  shows "distinct (used_by rs)
    \<and> length (used_by rs) \<le> length (filter (\<lambda>n. node_state n = HEALTHY) available)"
  by (rule engine.steal_one_per_node [OF assms])

text \<open>
  The other direction: when every healthy node suits every orphan and there are no more orphans
  than healthy nodes, all of them are reassigned.
\<close>

lemma steal_loop_all:
  assumes "scorer e = default_weights"
    and "\<forall>n \<in> set healthy. node_ok n" and "distinct (map node_id healthy)"
    and "\<forall>t \<in> set ts. task_pool t = None \<and> gpu_count_req (task_requirements t) \<le> 0
            \<and> (\<forall>n \<in> set healthy. suitable n (task_requirements t))"
    and "finite used" and "length ts + card (used \<inter> node_id ` set healthy) \<le> length healthy"
  shows "\<exists>rs. steal_loop (place e hour) cps healthy ts used = Inr rs \<and> length (used_by rs) = length ts"
  using assms(4-)
proof (induction ts arbitrary: used)
  case Nil
  then show ?case by simp
next
  case (Cons t ts)
  let ?c = "filter (\<lambda>n. node_id n \<notin> used \<or> length healthy = 1) healthy"
  let ?t = "(restore cps t)\<lparr>task_state := T_MIGRATING\<rparr>"
  have "card (node_id ` set healthy) = length healthy"
    using assms(3) by (metis distinct_card length_map set_map)
  then have "card (used \<inter> node_id ` set healthy) < card (node_id ` set healthy)"
    using Cons.prems(3) by simp
  then obtain x where "x \<in> node_id ` set healthy" "x \<notin> used"
    by (metis Int_absorb1 nless_le subsetI)
  then obtain n where n: "n \<in> set ?c" by auto
  have suit: "suitable m (task_requirements t)" if "m \<in> set ?c" for m
    using Cons.prems(1) that by auto
  have "place e hour ?t ?c \<noteq> Inr None" "\<exists>r. place e hour ?t ?c = Inr r"
    using place_decides [of e ?t ?c hour] assms(1,2) Cons.prems(1) n suit
    by (auto simp: meets_requirements_no_gpu)
  then obtain p where p: "place e hour ?t ?c = Inr (Some p)" by auto
  have "card (insert (pl_node_id p) used \<inter> node_id ` set healthy)
      \<le> Suc (card (used \<inter> node_id ` set healthy))"
    by (rule order_trans [OF card_mono [of "insert (pl_node_id p) (used \<inter> node_id ` set healthy)"]])
      (auto simp: card_insert_if)
  then have "\<exists>rs. steal_loop (place e hour) cps healthy ts (insert (pl_node_id p) used) = Inr rs
      \<and> length (used_by rs) = length ts"
    using Cons.prems by (intro Cons.IH) auto
  then show ?case
    using p by (auto simp: Let_def)
qed


subsection \<open>Concrete inputs\<close>

lemma steal_sample:
  "steal (place default_engine 10) [] [assigned_task ''t'' ''x'', assigned_task ''u'' ''x'',
       assigned_task ''v'' ''x''] [sample_node ''a'' 8, sample_node ''b'' 4] =
     Inr [(assigned_task ''t'' ''a'', Some ''a''), (assigned_task ''u'' ''b'', Some ''b''),
          ((sample_task ''v'' 1), None)]"
  by code_simp

lemma steal_reassigns_witness:
  "\<exists>rs. steal (place default_engine 10) [] [assigned_task ''t'' ''x'', assigned_task ''u'' ''x'',
       assigned_task ''v'' ''x''] [sample_node ''a'' 8, sample_node ''b'' 4] = Inr rs
     \<and> stolen_ok [] [sample_node ''a'' 8, sample_node ''b'' 4] (assigned_task ''t'' ''x'') (rs ! 0)"
proof -
  have "stolen_ok [] [sample_node ''a'' 8, sample_node ''b'' 4] (assigned_task ''t'' ''x'')
     ([(assigned_task ''t'' ''a'', Some ''a''), (assigned_task ''u'' ''b'', Some ''b''),
          ((sample_task ''v'' 1), None)] ! 0)"
    using conjunct2 [OF steal_reassigns [OF steal_sample], rule_format, of 0] by simp
  then show ?thesis
    using steal_sample by blast
qed

lemma steal_spreads_witness:
  "\<exists>rs. steal (place default_engine 10) [] [assigned_task ''t'' ''x'', assigned_task ''u'' ''x'',
       assigned_task ''v'' ''x''] [sample_node ''a'' 8, sample_node ''b'' 4] = Inr rs
     \<and> length (used_by rs) \<le> 2"
  using steal_spreads [OF steal_sample] steal_sample by simp


end
