(* ===== verification/Replication.thy ===== *)
theory Replication
  imports WorkStealing
begin

section \<open>Task replicas (mesh/recovery/replication.py)\<close>

text \<open>
  \<^verbatim>\<open>ReplicationManager\<close>: the replica specifications of a task, their assignment to different
  nodes, and what the completion or the failure of one replica means for the job.  The
  identifiers that \<^verbatim>\<open>uuid4\<close> draws are an argument.
\<close>

definition active_states :: "task_state set" where
  "active_states = {T_RUNNING, T_PENDING, T_MIGRATING}"

fun create_replicas :: "task_spec \<Rightarrow> string \<Rightarrow> int \<Rightarrow> string list \<Rightarrow> task_spec list" where
  "create_replicas base jid i [] = []"
| "create_replicas base jid i (u # us) =
     base\<lparr>task_id := u, task_job_id := Some jid, replica_index := i, replicas := 1\<rparr>
     # create_replicas base jid (i + 1) us"

text \<open>\<^verbatim>\<open>range(count)\<close> draws one identifier per replica: \<open>uuids\<close> has \<open>count\<close> of them, none for a negative count.\<close>

definition create_replica_specs :: "task_spec \<Rightarrow> string \<Rightarrow> string list \<Rightarrow> task_spec list" where
  "create_replica_specs base jid uuids = create_replicas base jid 0 uuids"

definition other_active :: "task_spec \<Rightarrow> task_spec list \<Rightarrow> task_spec list" where
  "other_active t specs =
     filter (\<lambda>s. task_id s \<noteq> task_id t \<and> task_state s \<in> active_states) specs"

definition on_replica_complete :: "job \<Rightarrow> task_spec \<Rightarrow> task_spec list \<Rightarrow> job \<times> task_spec list" where
  "on_replica_complete j done_spec specs =
     (j\<lparr>job_state := J_COMPLETED, completed_task_id := Some (task_id done_spec)\<rparr>,
      other_active done_spec specs)"

definition on_replica_failure :: "job \<Rightarrow> task_spec \<Rightarrow> task_spec list \<Rightarrow> bool \<times> job" where
  "on_replica_failure j failed specs =
     (if other_active failed specs \<noteq> [] then (True, j)
      else (False, j\<lparr>job_state := J_FAILED,
                     job_error := Some (''All replicas failed (last: '' @ task_id failed @ '')'')\<rparr>))"

text \<open>A spec that cannot be placed keeps the \<^verbatim>\<open>assigned_node\<close> it had.\<close>

fun assign_loop ::
  "(task_spec \<Rightarrow> node list \<Rightarrow> placement option result) \<Rightarrow> node list \<Rightarrow> task_spec list \<Rightarrow> string set
     \<Rightarrow> (task_spec \<times> string option) list result" where
  "assign_loop pf nodes [] used = Inr []"
| "assign_loop pf nodes (t # ts) used =
     (let free = filter (\<lambda>n. node_id n \<notin> used) nodes;
          available = (if free = [] then nodes else free)
      in ebind (pf t available) (\<lambda>r.
           case r of
             Some p \<Rightarrow>
               ebind (assign_loop pf nodes ts (insert (pl_node_id p) used)) (\<lambda>rs.
                 Inr ((t\<lparr>assigned_node := Some (pl_node_id p), task_state := T_RUNNING\<rparr>,
                       Some (pl_node_id p)) # rs))
           | None \<Rightarrow>
               ebind (assign_loop pf nodes ts used) (\<lambda>rs.
                 Inr ((t\<lparr>task_state := T_PENDING\<rparr>, None) # rs))))"

definition assign_to_different_nodes ::
  "(task_spec \<Rightarrow> node list \<Rightarrow> placement option result) \<Rightarrow> task_spec list \<Rightarrow> node list
     \<Rightarrow> (task_spec \<times> string option) list result" where
  "assign_to_different_nodes pf specs nodes = assign_loop pf nodes specs {}"

subsection \<open>Replica specifications\<close>

lemma create_replicas_nth:
  "i < length us \<Longrightarrow> create_replicas base jid k us ! i =
     base\<lparr>task_id := us ! i, task_job_id := Some jid, replica_index := k + int i, replicas := 1\<rparr>"
proof (induction us arbitrary: k i)
  case (Cons u us)
  then show ?case by (cases i) (auto simp: algebra_simps)
qed simp

lemma create_replicas_length [simp]: "length (create_replicas base jid k us) = length us"
  by (induction us arbitrary: k) auto

lemma create_replicas_ids [simp]: "map task_id (create_replicas base jid k us) = us"
  by (induction us arbitrary: k) auto

subsection \<open>Assignment\<close>

text \<open>What one assignment leaves behind, for the specification \<open>t\<close>.\<close>

definition assigned_ok :: "node list \<Rightarrow> task_spec \<Rightarrow> task_spec \<times> string option \<Rightarrow> bool" where
  "assigned_ok nodes t r \<longleftrightarrow>
     (case snd r of
        None \<Rightarrow> fst r = t\<lparr>task_state := T_PENDING\<rparr>
      | Some nid \<Rightarrow> fst r = t\<lparr>assigned_node := Some nid, task_state := T_RUNNING\<rparr>
          \<and> (\<exists>n \<in> set nodes. node_id n = nid
              \<and> meets_requirements n (task_requirements t) = Inr True))"

context placer
begin

lemma assign_Cons_cases [consumes 1, case_names placed unplaced]:
  assumes "assign_loop pf nodes (t # ts) used = Inr rs"
  obtains (placed) p rs' where
      "pf t (if filter (\<lambda>n. node_id n \<notin> used) nodes = [] then nodes
             else filter (\<lambda>n. node_id n \<notin> used) nodes) = Inr (Some p)"
      "assign_loop pf nodes ts (insert (pl_node_id p) used) = Inr rs'"
      "rs = (t\<lparr>assigned_node := Some (pl_node_id p), task_state := T_RUNNING\<rparr>,
             Some (pl_node_id p)) # rs'"
  | (unplaced) rs' where
      "assign_loop pf nodes ts used = Inr rs'" "rs = (t\<lparr>task_state := T_PENDING\<rparr>, None) # rs'"
proof -
  let ?pf = "pf t (if filter (\<lambda>n. node_id n \<notin> used) nodes = [] then nodes
             else filter (\<lambda>n. node_id n \<notin> used) nodes)"
  obtain r where r: "?pf = Inr r"
    using assms by (cases ?pf) (simp_all add: Let_def del: ebind_eq_Inr)
  show thesis
  proof (cases r)
    case None
    then show ?thesis using assms r unplaced by (auto simp: Let_def simp del: if_split split del: if_split)
  next
    case (Some p)
    then show ?thesis using assms r placed by (auto simp: Let_def simp del: if_split split del: if_split)
  qed
qed

lemma assign_loop_ok:
  "assign_loop pf nodes ts used = Inr rs \<Longrightarrow> list_all2 (assigned_ok nodes) ts rs"
proof (induction ts arbitrary: used rs)
  case Nil
  then show ?case by simp
next
  case (Cons t ts)
  from Cons.prems show ?case
  proof (cases rule: assign_Cons_cases)
    case (placed p rs')
    from pf_node [OF placed(1)] Cons.IH [OF placed(2)] show ?thesis
      by (auto simp: placed(3) assigned_ok_def split: if_splits)
  next
    case (unplaced rs')
    from Cons.IH [OF unplaced(1)] show ?thesis
      by (simp add: unplaced(2) assigned_ok_def)
  qed
qed

lemma assign_loop_distinct:
  "\<lbrakk>assign_loop pf nodes ts used = Inr rs; finite used;
    length ts + card (used \<inter> node_id ` set nodes) \<le> card (node_id ` set nodes)\<rbrakk> \<Longrightarrow>
     distinct (used_by rs) \<and> set (used_by rs) \<inter> used = {}"
proof (induction ts arbitrary: used rs)
  case Nil
  then show ?case by simp
next
  case (Cons t ts)
  from Cons.prems(1) show ?case
  proof (cases rule: assign_Cons_cases)
    case (placed p rs')
    have "card (used \<inter> node_id ` set nodes) < card (node_id ` set nodes)"
      using Cons.prems(3) by simp
    then obtain x where "x \<in> node_id ` set nodes" "x \<notin> used"
      by (metis Int_absorb1 nless_le subsetI)
    then have "filter (\<lambda>n. node_id n \<notin> used) nodes \<noteq> []"
      by (auto simp: filter_empty_conv)
    with pf_node [OF placed(1)] have new: "pl_node_id p \<notin> used"
      by auto
    have "card (insert (pl_node_id p) used \<inter> node_id ` set nodes)
        \<le> Suc (card (used \<inter> node_id ` set nodes))"
      by (rule order_trans [OF card_mono [of "insert (pl_node_id p) (used \<inter> node_id ` set nodes)"]])
        (auto simp: card_insert_if)
    then have "distinct (used_by rs') \<and> set (used_by rs') \<inter> insert (pl_node_id p) used = {}"
      using Cons.prems by (intro Cons.IH [OF placed(2)]) auto
    with new show ?thesis by (auto simp: placed(3))
  next
    case (unplaced rs')
    have "distinct (used_by rs') \<and> set (used_by rs') \<inter> used = {}"
      using Cons.prems by (intro Cons.IH [OF unplaced(1)]) auto
    then show ?thesis by (simp add: unplaced(2))
  qed
qed

end

text \<open>
  Replicas on different nodes: the replicas made for a job carry the drawn identifiers and
  consecutive indices; each placed replica runs on a node that meets its requirements, and
  when there are at least as many nodes as replicas no two of them share a node.
\<close>

lemma replicas_spread:
  assumes "assign_to_different_nodes (place e hour) (create_replica_specs base jid uuids) nodes = Inr rs"
    and "distinct (map node_id nodes)"
  shows "map (task_id \<circ> fst) rs = uuids
    \<and> (\<forall>i < length uuids. assigned_ok nodes (create_replica_specs base jid uuids ! i) (rs ! i)
          \<and> replica_index (fst (rs ! i)) = int i)
    \<and> (length uuids \<le> length nodes \<longrightarrow> distinct (used_by rs))"
proof -
  let ?specs = "create_replica_specs base jid uuids"
  have run: "assign_loop (place e hour) nodes ?specs {} = Inr rs"
    using assms(1) by (simp add: assign_to_different_nodes_def)
  have ok: "list_all2 (assigned_ok nodes) ?specs rs"
    by (rule engine.assign_loop_ok [OF run])
  have len: "length rs = length uuids"
    using ok by (simp add: list_all2_conv_all_nth create_replica_specs_def)
  have each: "assigned_ok nodes (?specs ! i) (rs ! i) \<and> task_id (fst (rs ! i)) = uuids ! i
      \<and> replica_index (fst (rs ! i)) = int i" if "i < length uuids" for i
  proof -
    have "assigned_ok nodes (?specs ! i) (rs ! i)"
      using ok that by (simp add: list_all2_conv_all_nth create_replica_specs_def)
    moreover from this have "task_id (fst (rs ! i)) = task_id (?specs ! i)"
        "replica_index (fst (rs ! i)) = replica_index (?specs ! i)"
      by (auto simp: assigned_ok_def split: option.splits)
    ultimately show ?thesis
      using that by (simp add: create_replica_specs_def create_replicas_nth)
  qed
  then have "map (task_id \<circ> fst) rs = uuids"
    by (intro nth_equalityI) (auto simp: len)
  moreover have "distinct (used_by rs)" if "length uuids \<le> length nodes"
  proof -
    have "card (node_id ` set nodes) = length nodes"
      using assms(2) by (metis distinct_card length_map set_map)
    then show ?thesis
      using engine.assign_loop_distinct [OF run] that by (simp add: create_replica_specs_def)
  qed
  ultimately show ?thesis using each by blast
qed

text \<open>
  The first replica wins: completing one cancels exactly the other active replicas of the
  job, and the failure of one fails the job exactly when no other replica is active.
\<close>

lemma first_replica_wins:
  "job_state (fst (on_replica_complete j t specs)) = J_COMPLETED
   \<and> completed_task_id (fst (on_replica_complete j t specs)) = Some (task_id t)
   \<and> set (snd (on_replica_complete j t specs)) =
       {s \<in> set specs. task_id s \<noteq> task_id t \<and> task_state s \<in> {T_RUNNING, T_PENDING, T_MIGRATING}}
   \<and> fst (on_replica_failure j t specs) = (snd (on_replica_complete j t specs) \<noteq> [])
   \<and> job_state (snd (on_replica_failure j t specs)) =
       (if snd (on_replica_complete j t specs) \<noteq> [] then job_state j else J_FAILED)"
  by (auto simp: on_replica_complete_def on_replica_failure_def other_active_def active_states_def)

lemma replicas_spread_witness:
  "\<exists>rs. assign_to_different_nodes (place default_engine 10)
          (create_replica_specs (sample_task ''t'' 1) ''j'' [''r0'', ''r1''])
          [sample_node ''a'' 8, sample_node ''b'' 4] = Inr rs
     \<and> used_by rs = [''a'', ''b''] \<and> distinct (used_by rs) \<and> map (task_id \<circ> fst) rs = [''r0'', ''r1'']"
proof -
  let ?run = "assign_to_different_nodes (place default_engine 10)
          (create_replica_specs (sample_task ''t'' 1) ''j'' [''r0'', ''r1''])
          [sample_node ''a'' 8, sample_node ''b'' 4]"
  let ?t = "\<lambda>u i n. (sample_task u 1)\<lparr>task_job_id := Some ''j'', replica_index := i,
      assigned_node := Some n, task_state := T_RUNNING\<rparr>"
  have run: "?run = Inr [(?t ''r0'' 0 ''a'', Some ''a''), (?t ''r1'' 1 ''b'', Some ''b'')]"
    by code_simp
  from replicas_spread [OF run] run show ?thesis by simp
qed

end
