(* ===== verification/Serialize.thy ===== *)
theory Serialize
  imports Checkpoints
begin

section \<open>Serialization (mesh/state/serialize.py)\<close>

text \<open>
  Jobs, tasks, nodes and checkpoints to and from plain dictionaries.  A dictionary of the code
  is a list of named values of type \<open>pyval\<close>; the texts \<^verbatim>\<open>json.dumps\<close> makes of them are read
  back by \<^verbatim>\<open>json.loads\<close> as the same values, so the model keeps the value in place of its text.
  A missing mandatory key and an unknown enumeration name raise \<open>KeyError\<close>, an unexpected or
  missing keyword argument \<open>TypeError\<close>.  The model's records are typed: where Python would
  store a value of another type unchecked, the model raises \<open>TypeError\<close>.
\<close>

subsection \<open>Reading typed values\<close>

fun as_str :: "pyval \<Rightarrow> string result" where
  "as_str (PStr s) = Inr s"
| "as_str _ = Inl TypeError"

fun as_real :: "pyval \<Rightarrow> real result" where
  "as_real (PFloat x) = Inr x"
| "as_real (PInt i) = Inr (of_int i)"
| "as_real _ = Inl TypeError"

fun as_int :: "pyval \<Rightarrow> int result" where
  "as_int (PInt i) = Inr i"
| "as_int _ = Inl TypeError"

fun as_bool :: "pyval \<Rightarrow> bool result" where
  "as_bool (PBool b) = Inr b"
| "as_bool _ = Inl TypeError"

fun as_list :: "pyval \<Rightarrow> pyval list result" where
  "as_list (PList xs) = Inr xs"
| "as_list _ = Inl TypeError"

fun as_dict :: "pyval \<Rightarrow> pyval dict result" where
  "as_dict (PDict d) = Inr d"
| "as_dict _ = Inl TypeError"

definition as_opt :: "(pyval \<Rightarrow> 'a result) \<Rightarrow> pyval \<Rightarrow> 'a option result" where
  "as_opt f v = (if v = PNone then Inr None else ebind (f v) (\<lambda>x. Inr (Some x)))"

definition as_any :: "pyval \<Rightarrow> pyval result" where
  "as_any v = Inr v"

definition opt_val :: "('a \<Rightarrow> pyval) \<Rightarrow> 'a option \<Rightarrow> pyval" where
  "opt_val f x = (case x of None \<Rightarrow> PNone | Some y \<Rightarrow> f y)"

text \<open>\<^verbatim>\<open>d[k]\<close>, \<^verbatim>\<open>d.get(k, default)\<close> and the keyword arguments of a dataclass.\<close>

definition item :: "pyval dict \<Rightarrow> string \<Rightarrow> (pyval \<Rightarrow> 'a result) \<Rightarrow> 'a result" where
  "item d k f = (case dict_get d k of None \<Rightarrow> Inl KeyError | Some v \<Rightarrow> f v)"

definition item_or :: "pyval dict \<Rightarrow> string \<Rightarrow> 'a \<Rightarrow> (pyval \<Rightarrow> 'a result) \<Rightarrow> 'a result" where
  "item_or d k x f = (case dict_get d k of None \<Rightarrow> Inr x | Some v \<Rightarrow> f v)"

definition kwarg :: "pyval dict \<Rightarrow> string \<Rightarrow> (pyval \<Rightarrow> 'a result) \<Rightarrow> 'a result" where
  "kwarg d k f = (case dict_get d k of None \<Rightarrow> Inl TypeError | Some v \<Rightarrow> f v)"

definition only_keys :: "string list \<Rightarrow> pyval dict \<Rightarrow> unit result" where
  "only_keys ks d = (if list_all (\<lambda>k. k \<in> set ks) (dict_keys d) then Inr () else Inl TypeError)"

subsection \<open>Enumeration names\<close>

text \<open>\<^verbatim>\<open>E[name]\<close> finds the member of that name or raises \<open>KeyError\<close>.\<close>

definition by_name :: "('a \<Rightarrow> string) \<Rightarrow> 'a list \<Rightarrow> string \<Rightarrow> 'a result" where
  "by_name name xs s = (case List.find (\<lambda>x. name x = s) xs of None \<Rightarrow> Inl KeyError | Some x \<Rightarrow> Inr x)"

fun job_state_name :: "job_state \<Rightarrow> string" where
  "job_state_name J_PENDING = ''PENDING''"
| "job_state_name J_RUNNING = ''RUNNING''"
| "job_state_name J_COMPLETED = ''COMPLETED''"
| "job_state_name J_FAILED = ''FAILED''"
| "job_state_name J_CANCELLED = ''CANCELLED''"

fun task_state_name :: "task_state \<Rightarrow> string" where
  "task_state_name T_PENDING = ''PENDING''"
| "task_state_name T_RUNNING = ''RUNNING''"
| "task_state_name T_CHECKPOINTING = ''CHECKPOINTING''"
| "task_state_name T_PAUSED = ''PAUSED''"
| "task_state_name T_COMPLETED = ''COMPLETED''"
| "task_state_name T_FAILED = ''FAILED''"
| "task_state_name T_MIGRATING = ''MIGRATING''"

fun node_state_name :: "node_state \<Rightarrow> string" where
  "node_state_name HEALTHY = ''HEALTHY''"
| "node_state_name SUSPECTED = ''SUSPECTED''"
| "node_state_name DEAD = ''DEAD''"
| "node_state_name PREEMPTED = ''PREEMPTED''"
| "node_state_name OFFLINE = ''OFFLINE''"

fun pool_name :: "resource_pool \<Rightarrow> string" where
  "pool_name POOL_CPU = ''CPU''"
| "pool_name POOL_MEMORY = ''MEMORY''"
| "pool_name POOL_GPU = ''GPU''"
| "pool_name POOL_NIGHT = ''NIGHT''"

definition job_state_of :: "string \<Rightarrow> job_state result" where
  "job_state_of = by_name job_state_name [J_PENDING, J_RUNNING, J_COMPLETED, J_FAILED, J_CANCELLED]"

definition task_state_of :: "string \<Rightarrow> task_state result" where
  "task_state_of = by_name task_state_name
     [T_PENDING, T_RUNNING, T_CHECKPOINTING, T_PAUSED, T_COMPLETED, T_FAILED, T_MIGRATING]"

definition node_state_of :: "string \<Rightarrow> node_state result" where
  "node_state_of = by_name node_state_name [HEALTHY, SUSPECTED, DEAD, PREEMPTED, OFFLINE]"

definition pool_of :: "string \<Rightarrow> resource_pool result" where
  "pool_of = by_name pool_name [POOL_CPU, POOL_MEMORY, POOL_GPU, POOL_NIGHT]"

definition as_enum :: "(string \<Rightarrow> 'a result) \<Rightarrow> pyval \<Rightarrow> 'a result" where
  "as_enum f v = ebind (as_str v) f"

subsection \<open>Jobs\<close>

definition job_to_dict :: "job \<Rightarrow> pyval dict" where
  "job_to_dict j =
     [(''job_id'', PStr (job_id j)), (''name'', PStr (job_name j)),
      (''state'', PStr (job_state_name (job_state j))),
      (''task_ids'', PList (map PStr (task_ids j))), (''result'', job_result j),
      (''error'', opt_val PStr (job_error j)),
      (''idempotency_key'', opt_val PStr (idempotency_key j)),
      (''completed_task_id'', opt_val PStr (completed_task_id j))]"

definition job_from_dict :: "pyval dict \<Rightarrow> job result" where
  "job_from_dict d =
     ebind (item d ''job_id'' as_str) (\<lambda>jid.
     ebind (item_or d ''name'' [] as_str) (\<lambda>name.
     ebind (item d ''state'' (as_enum job_state_of)) (\<lambda>st.
     ebind (item_or d ''task_ids'' [] (\<lambda>v. ebind (as_list v) (map_result as_str))) (\<lambda>tids.
     ebind (item_or d ''result'' PNone as_any) (\<lambda>res.
     ebind (item_or d ''error'' None (as_opt as_str)) (\<lambda>err.
     ebind (item_or d ''idempotency_key'' None (as_opt as_str)) (\<lambda>key.
     ebind (item_or d ''completed_task_id'' None (as_opt as_str)) (\<lambda>cid.
       Inr \<lparr>job_id = jid, job_name = name, job_state = st, task_ids = tids, job_result = res,
            job_error = err, idempotency_key = key, completed_task_id = cid\<rparr>))))))))"

subsection \<open>Tasks\<close>

definition requirements_to_dict :: "requirements \<Rightarrow> pyval dict" where
  "requirements_to_dict r =
     [(''cpu_cores'', PFloat (cpu_cores_req r)), (''ram_gb'', PFloat (ram_gb_req r)),
      (''gpu_count'', PInt (gpu_count_req r)), (''vram_gb'', PFloat (vram_gb_req r)),
      (''cuda_version'', opt_val PStr (cuda_version_req r)),
      (''network_gbps'', PFloat (network_gbps_req r)),
      (''min_battery_pct'', opt_val PFloat (min_battery_pct r))]"

definition requirements_from_dict :: "pyval dict \<Rightarrow> requirements result" where
  "requirements_from_dict d =
     ebind (only_keys [''cpu_cores'', ''ram_gb'', ''gpu_count'', ''vram_gb'', ''cuda_version'',
                       ''network_gbps'', ''min_battery_pct''] d) (\<lambda>_.
     ebind (item_or d ''cpu_cores'' 1 as_real) (\<lambda>cpu.
     ebind (item_or d ''ram_gb'' 1 as_real) (\<lambda>ram.
     ebind (item_or d ''gpu_count'' 0 as_int) (\<lambda>gpu.
     ebind (item_or d ''vram_gb'' 0 as_real) (\<lambda>vram.
     ebind (item_or d ''cuda_version'' None (as_opt as_str)) (\<lambda>cuda.
     ebind (item_or d ''network_gbps'' 0 as_real) (\<lambda>net.
     ebind (item_or d ''min_battery_pct'' None (as_opt as_real)) (\<lambda>bat.
       Inr \<lparr>cpu_cores_req = cpu, ram_gb_req = ram, gpu_count_req = gpu, vram_gb_req = vram,
            cuda_version_req = cuda, network_gbps_req = net, min_battery_pct = bat\<rparr>))))))))"

definition task_to_dict :: "task_spec \<Rightarrow> pyval dict" where
  "task_to_dict t =
     [(''task_id'', PStr (task_id t)), (''name'', PStr (task_name t)),
      (''job_id'', opt_val PStr (task_job_id t)), (''replica_index'', PInt (replica_index t)),
      (''state'', PStr (task_state_name (task_state t))),
      (''assigned_node'', opt_val PStr (assigned_node t)),
      (''progress'', PFloat (task_progress t)), (''total_work'', PFloat (total_work t)),
      (''state_data'', PDict (state_data t)), (''replicas'', PInt (replicas t)),
      (''checkpoint'', PBool (task_checkpoint t)),
      (''checkpoint_interval'', PFloat (checkpoint_interval t)),
      (''preemption_ok'', PBool (preemption_ok t)),
      (''pool'', opt_val (\<lambda>p. PStr (pool_name p)) (task_pool t)),
      (''requirements'', PDict (requirements_to_dict (task_requirements t)))]"

text \<open>\<^verbatim>\<open>if d.get("pool")\<close> takes an absent, null or empty name for no pool.\<close>

definition pool_item :: "pyval dict \<Rightarrow> resource_pool option result" where
  "pool_item d =
     (case dict_get d ''pool'' of
        None \<Rightarrow> Inr None
      | Some v \<Rightarrow> if v = PNone \<or> v = PStr [] then Inr None
                  else ebind (as_enum pool_of v) (\<lambda>p. Inr (Some p)))"

definition task_from_dict :: "pyval dict \<Rightarrow> task_spec result" where
  "task_from_dict d =
     ebind (pool_item d) (\<lambda>pool.
     ebind (item_or d ''requirements'' [] as_dict) (\<lambda>rd.
     ebind (item d ''name'' as_str) (\<lambda>name.
     ebind (requirements_from_dict rd) (\<lambda>req.
     ebind (item_or d ''replicas'' 1 as_int) (\<lambda>reps.
     ebind (item_or d ''checkpoint'' False as_bool) (\<lambda>cp.
     ebind (item_or d ''checkpoint_interval'' 30 as_real) (\<lambda>ival.
     ebind (item_or d ''preemption_ok'' True as_bool) (\<lambda>pre.
     ebind (item d ''task_id'' as_str) (\<lambda>tid.
     ebind (item_or d ''job_id'' None (as_opt as_str)) (\<lambda>jid.
     ebind (item_or d ''replica_index'' 0 as_int) (\<lambda>idx.
     ebind (item d ''state'' (as_enum task_state_of)) (\<lambda>st.
     ebind (item_or d ''assigned_node'' None (as_opt as_str)) (\<lambda>node.
     ebind (item_or d ''progress'' 0 as_real) (\<lambda>prog.
     ebind (item_or d ''total_work'' 1 as_real) (\<lambda>work.
     ebind (item_or d ''state_data'' [] as_dict) (\<lambda>sd.
       Inr \<lparr>task_name = name, task_requirements = req, task_pool = pool, replicas = reps,
            task_checkpoint = cp, checkpoint_interval = ival, preemption_ok = pre, task_id = tid,
            task_job_id = jid, replica_index = idx, task_state = st, assigned_node = node,
            task_progress = prog, total_work = work, state_data = sd, task_fn = None\<rparr>))))))))))))))))"

subsection \<open>Nodes\<close>

definition resources_to_dict :: "node_resources \<Rightarrow> pyval dict" where
  "resources_to_dict r =
     [(''cpu_cores_total'', PInt (cpu_cores_total r)), (''cpu_cores_free'', PFloat (cpu_cores_free r)),
      (''ram_gb_total'', PFloat (ram_gb_total r)), (''ram_gb_free'', PFloat (ram_gb_free r)),
      (''gpu_count'', PInt (gpu_count r)), (''vram_gb_free'', PFloat (vram_gb_free r)),
      (''cuda_version'', opt_val PStr (cuda_version r)), (''network_gbps'', PFloat (network_gbps r)),
      (''battery_pct'', opt_val PFloat (battery_pct r)),
      (''cpu_utilization'', PFloat (cpu_utilization r)), (''user_active'', PBool (user_active r))]"

definition resources_from_dict :: "pyval dict \<Rightarrow> node_resources result" where
  "resources_from_dict d =
     ebind (only_keys [''cpu_cores_total'', ''cpu_cores_free'', ''ram_gb_total'', ''ram_gb_free'',
                       ''gpu_count'', ''vram_gb_free'', ''cuda_version'', ''network_gbps'',
                       ''battery_pct'', ''cpu_utilization'', ''user_active''] d) (\<lambda>_.
     ebind (kwarg d ''cpu_cores_total'' as_int) (\<lambda>ct.
     ebind (kwarg d ''cpu_cores_free'' as_real) (\<lambda>cf.
     ebind (kwarg d ''ram_gb_total'' as_real) (\<lambda>rt.
     ebind (kwarg d ''ram_gb_free'' as_real) (\<lambda>rf.
     ebind (item_or d ''gpu_count'' 0 as_int) (\<lambda>gpu.
     ebind (item_or d ''vram_gb_free'' 0 as_real) (\<lambda>vram.
     ebind (item_or d ''cuda_version'' None (as_opt as_str)) (\<lambda>cuda.
     ebind (item_or d ''network_gbps'' 1 as_real) (\<lambda>net.
     ebind (item_or d ''battery_pct'' None (as_opt as_real)) (\<lambda>bat.
     ebind (item_or d ''cpu_utilization'' 0 as_real) (\<lambda>util.
     ebind (item_or d ''user_active'' False as_bool) (\<lambda>act.
       Inr \<lparr>cpu_cores_total = ct, cpu_cores_free = cf, ram_gb_total = rt, ram_gb_free = rf,
            gpu_count = gpu, vram_gb_free = vram, cuda_version = cuda, network_gbps = net,
            battery_pct = bat, cpu_utilization = util, user_active = act\<rparr>))))))))))))"

definition node_to_dict :: "node \<Rightarrow> pyval dict" where
  "node_to_dict n =
     [(''node_id'', PStr (node_id n)), (''hostname'', PStr (hostname n)),
      (''state'', PStr (node_state_name (node_state n))),
      (''reliability_score'', PFloat (reliability_score n)),
      (''latency_score'', PFloat (latency_score n)), (''pool'', PStr (pool_name (node_pool n))),
      (''preemptible'', PBool (preemptible n)), (''location'', PStr (location n)),
      (''tags'', PDict (map (\<lambda>(k, v). (k, PStr v)) (tags n))),
      (''resources'', PDict (resources_to_dict (resources n)))]"

definition str_dict :: "pyval \<Rightarrow> string dict result" where
  "str_dict v = ebind (as_dict v) (map_result (\<lambda>(k, w). ebind (as_str w) (\<lambda>s. Inr (k, s))))"

definition node_from_dict :: "pyval dict \<Rightarrow> node result" where
  "node_from_dict d =
     ebind (item d ''resources'' as_dict) (\<lambda>rd.
     ebind (item d ''node_id'' as_str) (\<lambda>nid.
     ebind (item d ''hostname'' as_str) (\<lambda>host.
     ebind (resources_from_dict rd) (\<lambda>res.
     ebind (item d ''state'' (as_enum node_state_of)) (\<lambda>st.
     ebind (item_or d ''reliability_score'' (8 / 10) as_real) (\<lambda>rel.
     ebind (item_or d ''latency_score'' (9 / 10) as_real) (\<lambda>lat.
     ebind (item_or d ''pool'' POOL_CPU (as_enum pool_of)) (\<lambda>pool.
     ebind (item_or d ''preemptible'' False as_bool) (\<lambda>pre.
     ebind (item_or d ''location'' ''default'' as_str) (\<lambda>loc.
     ebind (item_or d ''tags'' [] str_dict) (\<lambda>tg.
       Inr \<lparr>node_id = nid, hostname = host, resources = res, node_state = st,
            reliability_score = rel, latency_score = lat, node_pool = pool, preemptible = pre,
            location = loc, tags = tg\<rparr>)))))))))))"

subsection \<open>Checkpoints\<close>

definition checkpoint_to_dict :: "checkpoint \<Rightarrow> pyval dict" where
  "checkpoint_to_dict cp =
     [(''task_id'', PStr (cp_task_id cp)), (''progress'', PFloat (cp_progress cp)),
      (''state_data'', PDict (cp_state_data cp)), (''timestamp'', PFloat (cp_timestamp cp))]"

definition checkpoint_from_dict :: "pyval dict \<Rightarrow> checkpoint result" where
  "checkpoint_from_dict d =
     ebind (only_keys [''task_id'', ''progress'', ''state_data'', ''timestamp''] d) (\<lambda>_.
     ebind (kwarg d ''task_id'' as_str) (\<lambda>tid.
     ebind (kwarg d ''progress'' as_real) (\<lambda>prog.
     ebind (item_or d ''state_data'' [] as_dict) (\<lambda>sd.
     ebind (item_or d ''timestamp'' 0 as_real) (\<lambda>ts.
       Inr \<lparr>cp_task_id = tid, cp_progress = prog, cp_state_data = sd, cp_timestamp = ts\<rparr>)))))"

subsection \<open>Round trips\<close>

lemma as_opt_opt_val [simp]:
  "(\<And>x. f (g x) = Inr x) \<Longrightarrow> (\<And>x. g x \<noteq> PNone) \<Longrightarrow> as_opt f (opt_val g y) = Inr y"
  by (cases y) (simp_all add: as_opt_def opt_val_def)

lemma job_state_of_name [simp]: "job_state_of (job_state_name j) = Inr j"
  by (cases j) (simp_all add: job_state_of_def by_name_def)

lemma task_state_of_name [simp]: "task_state_of (task_state_name t) = Inr t"
  by (cases t) (simp_all add: task_state_of_def by_name_def)

lemma node_state_of_name [simp]: "node_state_of (node_state_name n) = Inr n"
  by (cases n) (simp_all add: node_state_of_def by_name_def)

lemma pool_of_name [simp]: "pool_of (pool_name p) = Inr p"
  by (cases p) (simp_all add: pool_of_def by_name_def)

lemma as_enum_PStr [simp]: "as_enum f (PStr s) = f s"
  by (simp add: as_enum_def)

lemma map_result_PStr [simp]: "map_result as_str (map PStr xs) = Inr xs"
  by (induction xs) auto

lemma str_dict_round [simp]: "str_dict (PDict (map (\<lambda>(k, v). (k, PStr v)) d)) = Inr d"
  unfolding str_dict_def by (induction d) auto

lemma item_simps [simp]:
  "item ((k, v) # d) k' f = (if k = k' then f v else item d k' f)"
  "item_or ((k, v) # d) k' x f = (if k = k' then f v else item_or d k' x f)"
  "kwarg ((k, v) # d) k' f = (if k = k' then f v else kwarg d k' f)"
  by (simp_all add: item_def item_or_def kwarg_def)

lemma as_any_simp [simp]: "as_any v = Inr v"
  by (simp add: as_any_def)

lemma requirements_round [simp]: "requirements_from_dict (requirements_to_dict r) = Inr r"
  by (simp add: requirements_from_dict_def requirements_to_dict_def only_keys_def del: ebind_eq_Inr)

lemma resources_round [simp]: "resources_from_dict (resources_to_dict r) = Inr r"
  by (simp add: resources_from_dict_def resources_to_dict_def only_keys_def del: ebind_eq_Inr)

lemma job_round [simp]: "job_from_dict (job_to_dict j) = Inr j"
  by (simp add: job_from_dict_def job_to_dict_def del: ebind_eq_Inr)

lemma pool_item_round:
  "pool_item (task_to_dict t) = Inr (task_pool t)"
proof (cases "task_pool t")
  case None
  then show ?thesis by (simp add: pool_item_def task_to_dict_def opt_val_def)
next
  case (Some p)
  then show ?thesis
    by (cases p) (simp_all add: pool_item_def task_to_dict_def opt_val_def pool_of_def by_name_def
        del: ebind_eq_Inr)
qed

lemma task_round [simp]: "task_from_dict (task_to_dict t) = Inr (t\<lparr>task_fn := None\<rparr>)"
  unfolding task_from_dict_def pool_item_round
  by (simp add: task_to_dict_def del: ebind_eq_Inr)

lemma node_round [simp]: "node_from_dict (node_to_dict n) = Inr n"
  by (simp add: node_from_dict_def node_to_dict_def del: ebind_eq_Inr)

lemma checkpoint_round [simp]: "checkpoint_from_dict (checkpoint_to_dict cp) = Inr cp"
  by (simp add: checkpoint_from_dict_def checkpoint_to_dict_def only_keys_def del: ebind_eq_Inr)

text \<open>
  C36: durable objects survive the round trip through their dictionaries: jobs, nodes and
  checkpoints unchanged, tasks with everything but their callable, which is lost.
\<close>

theorem serialize_round_trip:
  "job_from_dict (job_to_dict j) = Inr j
   \<and> node_from_dict (node_to_dict n) = Inr n
   \<and> checkpoint_from_dict (checkpoint_to_dict cp) = Inr cp
   \<and> task_from_dict (task_to_dict t) = Inr (t\<lparr>task_fn := None\<rparr>)"
  by (simp only: job_round node_round checkpoint_round task_round simp_thms)

end
