(* ===== verification/StateStore.thy ===== *)
theory StateStore
  imports Serialize
begin

section \<open>Durable state (mesh/state/store.py, mesh/state/sqlite_store.py)\<close>

text \<open>
  The interface of the state stores and its SQLite implementation: four tables of documents by
  primary key and the single row of the leadership lease.  A table is a list of rows in the
  order of their row identifiers: \<^verbatim>\<open>INSERT OR REPLACE\<close> removes the row of the key and appends a
  new one, and a \<^verbatim>\<open>SELECT\<close> without condition reads them in this order.  The clock reading is an
  argument.
\<close>

subsection \<open>The two contracts of a store\<close>

text \<open>A lease: the driver, its term, and the time it expires.\<close>

type_synonym lease = "string \<times> int \<times> real"

text \<open>When a request for the lease is written: it is free, has expired, or has a smaller term.\<close>

fun lease_open :: "real \<Rightarrow> int \<Rightarrow> lease option \<Rightarrow> bool" where
  "lease_open now t None = True"
| "lease_open now t (Some (d, t', expires)) = (expires < now \<or> t' < t)"

definition lease_of :: "string \<Rightarrow> int \<Rightarrow> lease option \<Rightarrow> bool" where
  "lease_of d t l = (case l of None \<Rightarrow> False | Some (d', t', e) \<Rightarrow> d' = d \<and> t' = t)"

text \<open>\<open>ok\<close> are the states the store gets into.\<close>

locale lease_store =
  fixes acquire :: "real \<Rightarrow> string \<Rightarrow> int \<Rightarrow> real \<Rightarrow> 's \<Rightarrow> bool \<times> 's"
    and renew :: "real \<Rightarrow> string \<Rightarrow> int \<Rightarrow> real \<Rightarrow> 's \<Rightarrow> bool \<times> 's"
    and lease :: "'s \<Rightarrow> lease option"
    and ok :: "'s \<Rightarrow> bool"
  assumes lease_acquire: "ok s \<Longrightarrow> lease (snd (acquire now d t ttl s)) =
      (if lease_open now t (lease s) then Some (d, t, now + ttl) else lease s)"
    and acquire_result: "ok s \<Longrightarrow> fst (acquire now d t ttl s) \<longleftrightarrow>
      lease_open now t (lease s) \<or> (\<exists>t' e. lease s = Some (d, t', e) \<and> t' \<le> t)"
    and lease_renew: "ok s \<Longrightarrow> lease (snd (renew now d t ttl s)) =
      (if lease_of d t (lease s) then Some (d, t, now + ttl) else lease s)"
    and renew_result: "ok s \<Longrightarrow> fst (renew now d t ttl s) \<longleftrightarrow> lease_of d t (lease s)"
    and lease_ok: "ok s \<Longrightarrow> ok (snd (acquire now d t ttl s))"
      "ok s \<Longrightarrow> ok (snd (renew now d t ttl s))"

text \<open>
  A table seen from outside: what an operation of the store writes into it and what a load
  returns; \<open>norm\<close> is what is left of an object in the store.
\<close>

definition last_written :: "('op \<Rightarrow> 'v option) \<Rightarrow> ('v \<Rightarrow> string) \<Rightarrow> string \<Rightarrow> 'op list \<Rightarrow> 'v option" where
  "last_written written key k ps =
     (case List.find (\<lambda>p. case written p of None \<Rightarrow> False | Some v \<Rightarrow> key v = k) (rev ps) of
        None \<Rightarrow> None
      | Some p \<Rightarrow> written p)"

locale object_table =
  fixes run :: "'op \<Rightarrow> 's \<Rightarrow> 's"
    and written :: "'op \<Rightarrow> 'v option"
    and key :: "'v \<Rightarrow> string"
    and norm :: "'v \<Rightarrow> 'v"
    and load :: "string \<Rightarrow> 's \<Rightarrow> 'v option result"
  assumes load_run: "load k (run p s) =
      (case written p of
         None \<Rightarrow> load k s
       | Some v \<Rightarrow> if key v = k then Inr (Some (norm v)) else load k s)"
begin

lemma load_fold:
  assumes "load k s = Inr None"
  shows "load k (fold run ps s) = Inr (map_option norm (last_written written key k ps))"
proof (induction ps rule: rev_induct)
  case Nil
  then show ?case using assms by (simp add: last_written_def)
next
  case (snoc p ps)
  then show ?case
    by (cases "written p") (simp_all add: load_run last_written_def)
qed

end

subsection \<open>The SQLite store\<close>

record sqlite_store =
  jobs_table :: "pyval dict dict"
  tasks_table :: "(string option \<times> pyval dict) dict"
  checkpoints_table :: "pyval dict dict"
  nodes_table :: "pyval dict dict"
  leadership :: "lease option"

definition init_schema :: sqlite_store where
  "init_schema =
     \<lparr>jobs_table = [], tasks_table = [], checkpoints_table = [], nodes_table = [],
      leadership = None\<rparr>"

definition insert_or_replace :: "string \<Rightarrow> 'v \<Rightarrow> 'v dict \<Rightarrow> 'v dict" where
  "insert_or_replace k v tab = dict_pop k tab @ [(k, v)]"

definition load_row :: "('d \<Rightarrow> 'v result) \<Rightarrow> string \<Rightarrow> 'd dict \<Rightarrow> 'v option result" where
  "load_row from_doc k tab =
     (case dict_get tab k of
        None \<Rightarrow> Inr None
      | Some d \<Rightarrow> ebind (from_doc d) (\<lambda>v. Inr (Some v)))"

definition sql_save_job :: "job \<Rightarrow> sqlite_store \<Rightarrow> sqlite_store" where
  "sql_save_job j s =
     s\<lparr>jobs_table := insert_or_replace (job_id j) (job_to_dict j) (jobs_table s)\<rparr>"

definition sql_load_job :: "string \<Rightarrow> sqlite_store \<Rightarrow> job option result" where
  "sql_load_job jid s = load_row job_from_dict jid (jobs_table s)"

definition sql_list_jobs :: "sqlite_store \<Rightarrow> job list result" where
  "sql_list_jobs s = map_result job_from_dict (dict_values (jobs_table s))"

definition sql_save_task :: "task_spec \<Rightarrow> sqlite_store \<Rightarrow> sqlite_store" where
  "sql_save_task t s =
     s\<lparr>tasks_table :=
         insert_or_replace (task_id t) (task_job_id t, task_to_dict t) (tasks_table s)\<rparr>"

definition sql_load_task :: "string \<Rightarrow> sqlite_store \<Rightarrow> task_spec option result" where
  "sql_load_task tid s = load_row (\<lambda>(jid, d). task_from_dict d) tid (tasks_table s)"

definition sql_list_tasks :: "sqlite_store \<Rightarrow> task_spec list result" where
  "sql_list_tasks s = map_result (\<lambda>(jid, d). task_from_dict d) (dict_values (tasks_table s))"

definition sql_save_checkpoint :: "checkpoint \<Rightarrow> sqlite_store \<Rightarrow> sqlite_store" where
  "sql_save_checkpoint cp s =
     s\<lparr>checkpoints_table :=
         insert_or_replace (cp_task_id cp) (checkpoint_to_dict cp) (checkpoints_table s)\<rparr>"

definition sql_load_checkpoint :: "string \<Rightarrow> sqlite_store \<Rightarrow> checkpoint option result" where
  "sql_load_checkpoint tid s = load_row checkpoint_from_dict tid (checkpoints_table s)"

definition sql_save_node :: "node \<Rightarrow> sqlite_store \<Rightarrow> sqlite_store" where
  "sql_save_node n s =
     s\<lparr>nodes_table := insert_or_replace (node_id n) (node_to_dict n) (nodes_table s)\<rparr>"

definition sql_load_node :: "string \<Rightarrow> sqlite_store \<Rightarrow> node option result" where
  "sql_load_node nid s = load_row node_from_dict nid (nodes_table s)"

definition sql_list_nodes :: "sqlite_store \<Rightarrow> node list result" where
  "sql_list_nodes s = map_result node_from_dict (dict_values (nodes_table s))"

definition sql_try_acquire ::
  "real \<Rightarrow> string \<Rightarrow> int \<Rightarrow> real \<Rightarrow> sqlite_store \<Rightarrow> bool \<times> sqlite_store" where
  "sql_try_acquire now driver trm ttl s =
     (let expires = now + ttl in
      case leadership s of
        None \<Rightarrow> (True, s\<lparr>leadership := Some (driver, trm, expires)\<rparr>)
      | Some (holder, current_term, expires_at) \<Rightarrow>
          if expires_at < now \<or> current_term < trm
          then (True, s\<lparr>leadership := Some (driver, trm, expires)\<rparr>)
          else (holder = driver \<and> current_term \<le> trm, s))"

definition sql_renew ::
  "real \<Rightarrow> string \<Rightarrow> int \<Rightarrow> real \<Rightarrow> sqlite_store \<Rightarrow> bool \<times> sqlite_store" where
  "sql_renew now driver trm ttl s =
     (let expires = now + ttl in
      case leadership s of
        None \<Rightarrow> (False, s)
      | Some (holder, current_term, _) \<Rightarrow>
          if holder \<noteq> driver \<or> current_term \<noteq> trm then (False, s)
          else (True, s\<lparr>leadership := Some (holder, current_term, expires)\<rparr>))"

definition sql_get_leader :: "real \<Rightarrow> sqlite_store \<Rightarrow> (string \<times> int) option" where
  "sql_get_leader now s =
     (case leadership s of
        None \<Rightarrow> None
      | Some (holder, trm, expires_at) \<Rightarrow> if now \<le> expires_at then Some (holder, trm) else None)"

interpretation sql_lease: lease_store sql_try_acquire sql_renew leadership "\<lambda>_. True"
  by unfold_locales
    (auto simp: sql_try_acquire_def sql_renew_def lease_of_def Let_def split: option.splits prod.splits)

subsection \<open>The tables keep the last write\<close>

text \<open>The operations that change a store.\<close>

datatype store_op =
    SaveJob job
  | SaveTask task_spec
  | SaveCheckpoint checkpoint
  | SaveNode node
  | TryAcquire real string int real
  | Renew real string int real

fun run_store :: "store_op \<Rightarrow> sqlite_store \<Rightarrow> sqlite_store" where
  "run_store (SaveJob j) s = sql_save_job j s"
| "run_store (SaveTask t) s = sql_save_task t s"
| "run_store (SaveCheckpoint cp) s = sql_save_checkpoint cp s"
| "run_store (SaveNode n) s = sql_save_node n s"
| "run_store (TryAcquire now d t ttl) s = snd (sql_try_acquire now d t ttl s)"
| "run_store (Renew now d t ttl) s = snd (sql_renew now d t ttl s)"

fun written_job :: "store_op \<Rightarrow> job option" where
  "written_job (SaveJob j) = Some j"
| "written_job _ = None"

fun written_task :: "store_op \<Rightarrow> task_spec option" where
  "written_task (SaveTask t) = Some t"
| "written_task _ = None"

fun written_checkpoint :: "store_op \<Rightarrow> checkpoint option" where
  "written_checkpoint (SaveCheckpoint cp) = Some cp"
| "written_checkpoint _ = None"

fun written_node :: "store_op \<Rightarrow> node option" where
  "written_node (SaveNode n) = Some n"
| "written_node _ = None"

lemma get_insert_or_replace [simp]:
  "dict_get (insert_or_replace k v tab) k' = (if k' = k then Some v else dict_get tab k')"
  by (simp add: insert_or_replace_def map_add_def split: option.split)

lemma lease_frame [simp]:
  "jobs_table (snd (sql_try_acquire now d t ttl s)) = jobs_table s"
  "tasks_table (snd (sql_try_acquire now d t ttl s)) = tasks_table s"
  "checkpoints_table (snd (sql_try_acquire now d t ttl s)) = checkpoints_table s"
  "nodes_table (snd (sql_try_acquire now d t ttl s)) = nodes_table s"
  "jobs_table (snd (sql_renew now d t ttl s)) = jobs_table s"
  "tasks_table (snd (sql_renew now d t ttl s)) = tasks_table s"
  "checkpoints_table (snd (sql_renew now d t ttl s)) = checkpoints_table s"
  "nodes_table (snd (sql_renew now d t ttl s)) = nodes_table s"
  by (simp_all add: sql_try_acquire_def sql_renew_def Let_def split: option.split prod.split)

lemmas sql_save_defs =
  sql_save_job_def sql_save_task_def sql_save_checkpoint_def sql_save_node_def

interpretation job_rows: object_table run_store written_job job_id "\<lambda>j. j" sql_load_job
proof unfold_locales
  fix k p s
  show "sql_load_job k (run_store p s) = (case written_job p of None \<Rightarrow> sql_load_job k s
      | Some v \<Rightarrow> if job_id v = k then Inr (Some v) else sql_load_job k s)"
    by (cases p) (auto simp: sql_load_job_def load_row_def sql_save_defs)
qed

interpretation task_rows: object_table run_store written_task task_id "\<lambda>t. t\<lparr>task_fn := None\<rparr>" sql_load_task
proof unfold_locales
  fix k p s
  show "sql_load_task k (run_store p s) = (case written_task p of None \<Rightarrow> sql_load_task k s
      | Some v \<Rightarrow> if task_id v = k then Inr (Some (v\<lparr>task_fn := None\<rparr>)) else sql_load_task k s)"
    by (cases p) (auto simp: sql_load_task_def load_row_def sql_save_defs)
qed

interpretation checkpoint_rows:
  object_table run_store written_checkpoint cp_task_id "\<lambda>cp. cp" sql_load_checkpoint
proof unfold_locales
  fix k p s
  show "sql_load_checkpoint k (run_store p s) = (case written_checkpoint p of
        None \<Rightarrow> sql_load_checkpoint k s
      | Some v \<Rightarrow> if cp_task_id v = k then Inr (Some v) else sql_load_checkpoint k s)"
    by (cases p) (auto simp: sql_load_checkpoint_def load_row_def sql_save_defs)
qed

interpretation node_rows: object_table run_store written_node node_id "\<lambda>n. n" sql_load_node
proof unfold_locales
  fix k p s
  show "sql_load_node k (run_store p s) = (case written_node p of None \<Rightarrow> sql_load_node k s
      | Some v \<Rightarrow> if node_id v = k then Inr (Some v) else sql_load_node k s)"
    by (cases p) (auto simp: sql_load_node_def load_row_def sql_save_defs)
qed

text \<open>
  C37: the store keeps the last write: after any sequence of operations on a new store, saves of
  every kind and lease operations mixed, loading an identifier raises nothing and gives the
  last object saved under it (a task without its callable), or nothing if there was none.
\<close>

theorem store_last_write:
  "sql_load_job k (fold run_store ps init_schema) = Inr (last_written written_job job_id k ps)
   \<and> sql_load_task k (fold run_store ps init_schema) =
       Inr (map_option (\<lambda>t. t\<lparr>task_fn := None\<rparr>) (last_written written_task task_id k ps))
   \<and> sql_load_checkpoint k (fold run_store ps init_schema) =
       Inr (last_written written_checkpoint cp_task_id k ps)
   \<and> sql_load_node k (fold run_store ps init_schema) = Inr (last_written written_node node_id k ps)"
proof -
  have "sql_load_job k init_schema = Inr None" "sql_load_task k init_schema = Inr None"
    "sql_load_checkpoint k init_schema = Inr None" "sql_load_node k init_schema = Inr None"
    by (simp_all add: sql_load_job_def sql_load_task_def sql_load_checkpoint_def sql_load_node_def
        load_row_def init_schema_def)
  then show ?thesis
    by (simp add: job_rows.load_fold task_rows.load_fold checkpoint_rows.load_fold
        node_rows.load_fold option.map_ident)
qed

end
