(* ===== verification/Election.thy ===== *)
theory Election
  imports StateStore
begin

section \<open>Leader election (mesh/driver/ha/election.py)\<close>

text \<open>
  \<^verbatim>\<open>LeaderElection\<close>: attempts, renewal and the loop that alternates them.  The lease operations
  of the state store are arguments; the general lemmas hold for every \<open>lease_store\<close> and the
  properties are about the SQLite store.  A step returns the notifications of the leadership
  callbacks in order.  Each store call is one atomic step, as with the store's lock within a
  process; the two statements of an attempt by two processes are not interleaved here.
\<close>

record election =
  driver_id :: string
  lease_seconds :: real
  el_term :: int
  is_leader :: bool
  stopped :: bool

definition new_election :: "string \<Rightarrow> real \<Rightarrow> election" where
  "new_election d ttl =
     \<lparr>driver_id = d, lease_seconds = ttl, el_term = 0, is_leader = False, stopped = False\<rparr>"

type_synonym 's lease_call = "real \<Rightarrow> string \<Rightarrow> int \<Rightarrow> real \<Rightarrow> 's \<Rightarrow> bool \<times> 's"

definition try_become_leader ::
  "'s lease_call \<Rightarrow> real \<Rightarrow> election \<Rightarrow> 's \<Rightarrow> bool list \<times> election \<times> 's" where
  "try_become_leader acq now e s =
     (if stopped e then ([], e, s)
      else
        let e1 = e\<lparr>el_term := el_term e + 1\<rparr>
        in case acq now (driver_id e1) (el_term e1) (lease_seconds e1) s of (acquired, s1) \<Rightarrow>
             if acquired \<noteq> is_leader e1 then ([acquired], e1\<lparr>is_leader := acquired\<rparr>, s1)
             else ([], e1, s1))"

text \<open>One round of the renewal loop.\<close>

definition renew_tick ::
  "'s lease_call \<Rightarrow> 's lease_call \<Rightarrow> real \<Rightarrow> election \<Rightarrow> 's \<Rightarrow> bool list \<times> election \<times> 's" where
  "renew_tick acq ren now e s =
     (if stopped e then ([], e, s)
      else if is_leader e
      then
        case ren now (driver_id e) (el_term e) (lease_seconds e) s of (ok, s1) \<Rightarrow>
          if ok then ([], e, s1)
          else case try_become_leader acq now (e\<lparr>is_leader := False\<rparr>) s1 of (ns, e2, s2) \<Rightarrow>
                 (False # ns, e2, s2)
      else try_become_leader acq now e s)"

definition stop_election :: "election \<Rightarrow> election" where
  "stop_election e = e\<lparr>stopped := True, is_leader := False\<rparr>"

text \<open>Rounds of one driver's loop at given times, while nobody else acts on the store.\<close>

fun rounds :: "'s lease_call \<Rightarrow> 's lease_call \<Rightarrow> real list \<Rightarrow> election \<Rightarrow> 's \<Rightarrow> election \<times> 's" where
  "rounds acq ren [] e s = (e, s)"
| "rounds acq ren (now # ts) e s =
     (case renew_tick acq ren now e s of (ns, e1, s1) \<Rightarrow> rounds acq ren ts e1 s1)"

subsection \<open>Several drivers over one store\<close>

text \<open>
  The drivers by name, the store, and the time.  A step is one round of one driver's loop (the
  first attempt of \<^verbatim>\<open>start\<close> is such a round), or a stop.
\<close>

type_synonym 's drivers = "real \<times> (string \<Rightarrow> election) \<times> 's"

inductive el_step :: "'s lease_call \<Rightarrow> 's lease_call \<Rightarrow> 's drivers \<Rightarrow> 's drivers \<Rightarrow> bool"
  for acq ren where
    tick: "now \<le> now' \<Longrightarrow> renew_tick acq ren now' (E d) s = (ns, e, s') \<Longrightarrow>
      el_step acq ren (now, E, s) (now', E(d := e), s')"
  | stop: "el_step acq ren (now, E, s) (now, E(d := stop_election (E d)), s)"

inductive el_reach :: "'s lease_call \<Rightarrow> 's lease_call \<Rightarrow> 's drivers \<Rightarrow> 's drivers \<Rightarrow> bool"
  for acq ren where
    refl: "el_reach acq ren x x"
  | step: "el_reach acq ren x y \<Longrightarrow> el_step acq ren y z \<Longrightarrow> el_reach acq ren x z"

inductive_cases el_stepE: "el_step acq ren x (now', E', s')"

text \<open>The drivers before anyone has started.\<close>

definition fresh_drivers :: "(string \<Rightarrow> election) \<Rightarrow> bool" where
  "fresh_drivers E \<longleftrightarrow> (\<forall>d. driver_id (E d) = d \<and> el_term (E d) = 0 \<and> \<not> is_leader (E d))"

text \<open>
  Names are kept, and the lease names a driver with a term this driver has already reached.
\<close>

definition drivers_ok :: "lease option \<Rightarrow> (string \<Rightarrow> election) \<Rightarrow> bool" where
  "drivers_ok l E \<longleftrightarrow>
     (\<forall>d. driver_id (E d) = d)
     \<and> (case l of None \<Rightarrow> True | Some (d, t, ex) \<Rightarrow> t \<le> el_term (E d))"

text \<open>The driver holds the lease with its current term.\<close>

definition holds_lease :: "lease option \<Rightarrow> election \<Rightarrow> bool" where
  "holds_lease l e = lease_of (driver_id e) (el_term e) l"

subsection \<open>Facts for every lease store\<close>

context lease_store
begin

lemma try_effect:
  assumes "try_become_leader acquire now e s = (ns, e', s')" and "\<not> stopped e"
    and "\<And>t ex. lease s = Some (driver_id e, t, ex) \<Longrightarrow> t \<le> el_term e" and "ok s"
  shows "driver_id e' = driver_id e" and "el_term e' = el_term e + 1" and "\<not> stopped e'"
    and "lease_seconds e' = lease_seconds e"
    and "is_leader e' \<longleftrightarrow> lease_open now (el_term e + 1) (lease s)"
    and "lease s' = (if lease_open now (el_term e + 1) (lease s)
           then Some (driver_id e, el_term e + 1, now + lease_seconds e) else lease s)"
    and "ok s'"
proof -
  obtain won where acq: "acquire now (driver_id e) (el_term e + 1) (lease_seconds e) s = (won, s')"
    using assms(1,2) by (auto simp: try_become_leader_def Let_def split: prod.splits if_splits)
  have won: "won \<longleftrightarrow> lease_open now (el_term e + 1) (lease s)"
  proof
    assume "won"
    then have "lease_open now (el_term e + 1) (lease s)
        \<or> (\<exists>t' ex. lease s = Some (driver_id e, t', ex) \<and> t' \<le> el_term e + 1)"
      using acquire_result [OF assms(4), of now "driver_id e" "el_term e + 1" "lease_seconds e"] acq by simp
    then show "lease_open now (el_term e + 1) (lease s)"
      using assms(3) by fastforce
  next
    assume "lease_open now (el_term e + 1) (lease s)"
    then show "won"
      using acquire_result [OF assms(4), of now "driver_id e" "el_term e + 1" "lease_seconds e"] acq by simp
  qed
  show "driver_id e' = driver_id e" and "el_term e' = el_term e + 1" and "\<not> stopped e'"
    and "lease_seconds e' = lease_seconds e"
    and "is_leader e' \<longleftrightarrow> lease_open now (el_term e + 1) (lease s)"
    using assms(1,2) acq won
    by (auto simp: try_become_leader_def Let_def split: if_splits)
  show "lease s' = (if lease_open now (el_term e + 1) (lease s)
           then Some (driver_id e, el_term e + 1, now + lease_seconds e) else lease s)"
    using lease_acquire [OF assms(4), of now "driver_id e" "el_term e + 1" "lease_seconds e"] acq by simp
  show "ok s'"
    using lease_ok(1) [OF assms(4), of now "driver_id e" "el_term e + 1" "lease_seconds e"] acq by simp
qed

lemma tick_effect:
  assumes "renew_tick acquire renew now e s = (ns, e', s')" and "\<not> stopped e"
    and "\<And>t ex. lease s = Some (driver_id e, t, ex) \<Longrightarrow> t \<le> el_term e" and "ok s"
  shows "driver_id e' = driver_id e \<and> el_term e \<le> el_term e' \<and> \<not> stopped e' \<and> ok s'
    \<and> (is_leader e' \<longleftrightarrow> holds_lease (lease s') e')
    \<and> (lease s' = lease s
       \<or> lease s' = Some (driver_id e, el_term e', now + lease_seconds e))"
proof -
  have attempt: ?thesis
    if att: "try_become_leader acquire now e1 s1 = (ns1, e', s')"
      and e1: "driver_id e1 = driver_id e" "el_term e1 = el_term e" "\<not> stopped e1"
        "lease_seconds e1 = lease_seconds e"
      and s1: "lease s1 = lease s" "ok s1" for e1 s1 ns1
  proof -
    have bound: "\<And>t ex. lease s1 = Some (driver_id e1, t, ex) \<Longrightarrow> t \<le> el_term e1"
      using assms(3) e1 s1 by simp
    note eff = try_effect [OF att e1(3) bound s1(2)]
    show ?thesis
    proof (cases "lease_open now (el_term e1 + 1) (lease s1)")
      case True
      then show ?thesis using eff e1 s1 by (simp add: holds_lease_def lease_of_def)
    next
      case False
      then have "\<not> holds_lease (lease s') e'"
        using eff e1 s1 assms(3) by (force simp: holds_lease_def lease_of_def split: option.splits)
      then show ?thesis using eff e1 s1 False by simp
    qed
  qed
  show ?thesis
  proof (cases "is_leader e")
    case False
    then have "try_become_leader acquire now e s = (ns, e', s')"
      using assms(1,2) by (simp add: renew_tick_def)
    from attempt [OF this] assms(2,4) show ?thesis by simp
  next
    case True
    obtain held s1 where ren: "renew now (driver_id e) (el_term e) (lease_seconds e) s = (held, s1)"
      by fastforce
    have s1: "ok s1"
      using lease_ok(2) [OF assms(4), of now "driver_id e" "el_term e" "lease_seconds e"] ren by simp
    show ?thesis
    proof (cases held)
      case ok: True
      then have "e' = e" "s' = s1"
        using assms(1,2) True ren by (simp_all add: renew_tick_def)
      moreover have "lease s1 = Some (driver_id e, el_term e, now + lease_seconds e)"
        using lease_renew [OF assms(4), of now "driver_id e" "el_term e" "lease_seconds e"]
          renew_result [OF assms(4), of now "driver_id e" "el_term e" "lease_seconds e"] ren ok by simp
      ultimately show ?thesis
        using True assms(2) s1 by (simp add: holds_lease_def lease_of_def)
    next
      case bad: False
      then obtain ns1 where att: "try_become_leader acquire now (e\<lparr>is_leader := False\<rparr>) s1 = (ns1, e', s')"
        using assms(1,2) True ren by (auto simp: renew_tick_def split: prod.splits)
      have "lease s1 = lease s"
        using lease_renew [OF assms(4), of now "driver_id e" "el_term e" "lease_seconds e"]
          renew_result [OF assms(4), of now "driver_id e" "el_term e" "lease_seconds e"] ren bad by simp
      from attempt [OF att _ _ _ _ this s1] assms(2) show ?thesis by simp
    qed
  qed
qed

lemma step_ok:
  assumes "el_step acquire renew (now, E, s) (now', E', s')"
    and "drivers_ok (lease s) E" and "ok s"
  shows "drivers_ok (lease s') E' \<and> ok s'"
  using assms(1)
proof (cases rule: el_step.cases)
  case (tick d ns e)
  have id: "driver_id (E d) = d" and bound: "\<And>t ex. lease s = Some (driver_id (E d), t, ex) \<Longrightarrow> t \<le> el_term (E d)"
    using assms(2) by (auto simp: drivers_ok_def)
  show ?thesis
  proof (cases "stopped (E d)")
    case True
    then have "e = E d" "s' = s"
      using tick(3) by (simp_all add: renew_tick_def)
    then show ?thesis using tick(1) assms(2,3) by simp
  next
    case False
    have "driver_id e = driver_id (E d) \<and> el_term (E d) \<le> el_term e \<and> \<not> stopped e \<and> ok s'
    \<and> (is_leader e \<longleftrightarrow> holds_lease (lease s') e)
    \<and> (lease s' = lease s
       \<or> lease s' = Some (driver_id (E d), el_term e, now' + lease_seconds (E d)))"
      using bound assms(3) by (rule tick_effect [OF tick(3) False])
    then show ?thesis
      using assms(2) id by (auto simp: tick drivers_ok_def split: option.splits)
  qed
next
  case (stop d)
  then show ?thesis
    using assms(2,3) by (auto simp: drivers_ok_def stop_election_def split: option.splits)
qed

lemma reach_ok:
  assumes "el_reach acquire renew x y"
    and "drivers_ok (lease (snd (snd x))) (fst (snd x))" and "ok (snd (snd x))"
  shows "drivers_ok (lease (snd (snd y))) (fst (snd y)) \<and> ok (snd (snd y))"
  using assms
proof (induction rule: el_reach.induct)
  case (step x y z)
  then show ?case
    using step_ok by (metis prod.collapse)
qed simp

lemma leader_keeps:
  assumes "is_leader e" and "\<not> stopped e" and "holds_lease (lease s) e" and "ok s"
  shows "is_leader (fst (rounds acquire renew ts e s))
    \<and> holds_lease (lease (snd (rounds acquire renew ts e s))) (fst (rounds acquire renew ts e s))"
  using assms
proof (induction ts arbitrary: s)
  case Nil
  then show ?case by simp
next
  case (Cons now ts)
  obtain held s1 where ren: "renew now (driver_id e) (el_term e) (lease_seconds e) s = (held, s1)"
    by fastforce
  have ok: "held" "ok s1" "lease s1 = Some (driver_id e, el_term e, now + lease_seconds e)"
    using lease_renew [OF Cons.prems(4), of now "driver_id e" "el_term e" "lease_seconds e"]
      renew_result [OF Cons.prems(4), of now "driver_id e" "el_term e" "lease_seconds e"]
      lease_ok(2) [OF Cons.prems(4), of now "driver_id e" "el_term e" "lease_seconds e"] ren Cons.prems(3)
    by (simp_all add: holds_lease_def)
  then have "renew_tick acquire renew now e s = ([], e, s1)"
    using Cons.prems ren by (simp add: renew_tick_def)
  moreover have "holds_lease (lease s1) e"
    using ok by (simp add: holds_lease_def lease_of_def)
  ultimately show ?case
    using Cons.IH Cons.prems ok by simp
qed

lemma standby_leads:
  assumes "\<not> is_leader e" and "\<not> stopped e" and "lease s = Some (d', t, ex)" and "d' \<noteq> driver_id e"
    and "t < el_term e + int (length ts)" and "ts \<noteq> []" and "ok s"
  shows "is_leader (fst (rounds acquire renew ts e s))
    \<and> holds_lease (lease (snd (rounds acquire renew ts e s))) (fst (rounds acquire renew ts e s))"
  using assms
proof (induction ts arbitrary: e s)
  case Nil
  then show ?case by simp
next
  case (Cons now ts)
  obtain ns e1 s1 where att: "try_become_leader acquire now e s = (ns, e1, s1)"
    by (metis surj_pair)
  have tick: "renew_tick acquire renew now e s = (ns, e1, s1)"
    using att Cons.prems(1,2) by (simp add: renew_tick_def)
  have bound: "\<And>t' ex'. lease s = Some (driver_id e, t', ex') \<Longrightarrow> t' \<le> el_term e"
    using Cons.prems(3,4) by simp
  note eff = try_effect [OF att Cons.prems(2) bound Cons.prems(7)]
  show ?case
  proof (cases "lease_open now (el_term e + 1) (lease s)")
    case True
    then have "is_leader e1" "\<not> stopped e1" "holds_lease (lease s1) e1" "ok s1"
      using eff by (auto simp: holds_lease_def lease_of_def)
    from leader_keeps [OF this] show ?thesis by (simp add: tick)
  next
    case False
    then have "\<not> is_leader e1" "\<not> stopped e1" "lease s1 = Some (d', t, ex)" "d' \<noteq> driver_id e1" "ok s1"
      using eff Cons.prems(3,4) by auto
    moreover have "el_term e + 1 \<le> t"
      using False Cons.prems(3) by simp
    then have "ts \<noteq> []" "t < el_term e1 + int (length ts)"
      using Cons.prems(5) eff(2) by auto
    ultimately show ?thesis
      using Cons.IH [of e1 s1] by (simp add: tick)
  qed
qed

lemma leads_iff_holds:
  assumes "fresh_drivers E0" and "lease s0 = None" and "ok s0"
    and "el_reach acquire renew (now0, E0, s0) (now, E, s)"
    and "\<not> stopped (E d)" and "renew_tick acquire renew now' (E d) s = (ns, e', s')"
  shows "is_leader e' \<longleftrightarrow> holds_lease (lease s') e'"
proof -
  have "drivers_ok (lease s0) E0"
    using assms(1,2) by (simp add: drivers_ok_def fresh_drivers_def)
  then have ok: "drivers_ok (lease s) E" "ok s"
    using reach_ok [OF assms(4)] assms(3) by simp_all
  then have "\<And>t ex. lease s = Some (driver_id (E d), t, ex) \<Longrightarrow> t \<le> el_term (E d)"
    by (auto simp: drivers_ok_def)
  then have "driver_id e' = driver_id (E d) \<and> el_term (E d) \<le> el_term e' \<and> \<not> stopped e' \<and> ok s'
    \<and> (is_leader e' \<longleftrightarrow> holds_lease (lease s') e')
    \<and> (lease s' = lease s
       \<or> lease s' = Some (driver_id (E d), el_term e', now' + lease_seconds (E d)))"
    using ok(2) by (rule tick_effect [OF assms(6,5)])
  then show ?thesis by blast
qed

end

subsection \<open>Properties over the SQLite store\<close>


text \<open>
  C11: failover is live: a running standby becomes the leader after as many rounds of its loop as
  bring its term above the term of the lease, whatever the times of these rounds are, if the
  holder does nothing meanwhile; and it does not have to wait for the lease to expire.
\<close>

theorem standby_takes_over:
  assumes "\<not> is_leader e" and "\<not> stopped e" and "leadership s = Some (d', t, ex)"
    and "d' \<noteq> driver_id e" and "t < el_term e + int (length ts)" and "ts \<noteq> []"
  shows "is_leader (fst (rounds sql_try_acquire sql_renew ts e s))
    \<and> holds_lease (leadership (snd (rounds sql_try_acquire sql_renew ts e s)))
        (fst (rounds sql_try_acquire sql_renew ts e s))"
  by (rule sql_lease.standby_leads [OF assms TrueI])

definition sample_drivers :: "string \<Rightarrow> election" where
  "sample_drivers d = new_election d 10"

text \<open>
  Two leaders at once: a state is reachable in which two drivers both believe to be the
  leader although the lease of the first has not expired, because each attempt of the second
  raises its term until the store lets it take over.
\<close>

lemma two_leaders_reachable:
  "\<exists>E s. el_reach sql_try_acquire sql_renew (0, sample_drivers, init_schema) (4, E, s)
     \<and> is_leader (E ''a'') \<and> is_leader (E ''b'') \<and> ''a'' \<noteq> ''b''
     \<and> sql_get_leader 4 (snd (snd (renew_tick sql_try_acquire sql_renew 0 (sample_drivers ''a'') init_schema)))
         = Some (''a'', 1)"
proof -
  let ?acq = sql_try_acquire and ?ren = sql_renew
  let ?e = "\<lambda>d t l. \<lparr>driver_id = d, lease_seconds = 10, el_term = t, is_leader = l, stopped = False\<rparr>"
  let ?s = "\<lambda>d t ex. init_schema\<lparr>leadership := Some (d, t, ex)\<rparr>"
  let ?E1 = "sample_drivers(''a'' := ?e ''a'' 1 True)"
  let ?E2 = "?E1(''b'' := ?e ''b'' 1 False)"
  let ?E3 = "?E2(''b'' := ?e ''b'' 2 True)"
  note tick_defs = renew_tick_def try_become_leader_def sql_try_acquire_def sample_drivers_def
    new_election_def init_schema_def Let_def
  have t1: "renew_tick ?acq ?ren 0 (sample_drivers ''a'') init_schema = ([True], ?e ''a'' 1 True, ?s ''a'' 1 10)"
    by (simp add: tick_defs)
  have t2: "renew_tick ?acq ?ren 1 (?E1 ''b'') (?s ''a'' 1 10) = ([], ?e ''b'' 1 False, ?s ''a'' 1 10)"
    by (simp add: tick_defs)
  have t3: "renew_tick ?acq ?ren 4 (?E2 ''b'') (?s ''a'' 1 10) = ([True], ?e ''b'' 2 True, ?s ''b'' 2 14)"
    by (simp add: tick_defs)
  have "el_reach ?acq ?ren (0, sample_drivers, init_schema) (0, ?E1, ?s ''a'' 1 10)"
    by (rule el_reach.step [OF el_reach.refl], rule el_step.tick [where E = "sample_drivers" and d = "''a''", OF _ t1]) simp
  then have "el_reach ?acq ?ren (0, sample_drivers, init_schema) (1, ?E2, ?s ''a'' 1 10)"
    by (rule el_reach.step, intro el_step.tick [where E = "?E1" and d = "''b''", OF _ t2]) simp
  then have "el_reach ?acq ?ren (0, sample_drivers, init_schema) (4, ?E3, ?s ''b'' 2 14)"
    by (rule el_reach.step, intro el_step.tick [where E = "?E2" and d = "''b''", OF _ t3]) simp
  moreover have "sql_get_leader 4 (?s ''a'' 1 10) = Some (''a'', 1)"
    by (simp add: sql_get_leader_def)
  ultimately show ?thesis
    unfolding t1 by (intro exI [of _ ?E3] exI [of _ "?s ''b'' 2 14"]) simp
qed


lemma standby_takes_over_witness:
  "is_leader (fst (rounds sql_try_acquire sql_renew [1, 4] (new_election ''b'' 10)
     (init_schema\<lparr>leadership := Some (''a'', 1, 10)\<rparr>)))"
  using standby_takes_over [of "new_election ''b'' 10" "init_schema\<lparr>leadership := Some (''a'', 1, 10)\<rparr>"
      "''a''" 1 10 "[1, 4]"]
  by (simp add: new_election_def)

end
