(* ===== verification/Wire.thy ===== *)
theory Wire
  imports Pools Samples
begin

section \<open>Resource reports (mesh/agent/monitor.py, mesh/agent/client.py, mesh/driver/server.py)\<close>

text \<open>
  A resource snapshot of the agent, the message the client makes of it, and the node resources the
  driver makes of the message.  A message field is never absent: the client writes \<open>-1\<close> for no
  battery and the empty text for no CUDA version.
\<close>

record resource_snapshot = node_resources +
  cpu_cores_physical :: int
  host_metrics_json :: string

record resource_report =
  rr_node_id :: string
  rr_cpu_cores_total :: int
  rr_cpu_cores_free :: real
  rr_ram_gb_total :: real
  rr_ram_gb_free :: real
  rr_gpu_count :: int
  rr_vram_gb_free :: real
  rr_cuda_version :: string
  rr_network_gbps :: real
  rr_battery_pct :: real
  rr_cpu_utilization :: real
  rr_user_active :: bool
  rr_cpu_cores_physical :: int
  rr_host_metrics_json :: string

text \<open>\<^verbatim>\<open>x or -1\<close> is \<open>-1\<close> for an absent battery and for an empty one.\<close>

definition resource_msg :: "string \<Rightarrow> resource_snapshot \<Rightarrow> resource_report" where
  "resource_msg nid s =
     \<lparr>rr_node_id = nid, rr_cpu_cores_total = cpu_cores_total s,
      rr_cpu_cores_free = cpu_cores_free s, rr_ram_gb_total = ram_gb_total s,
      rr_ram_gb_free = ram_gb_free s, rr_gpu_count = gpu_count s,
      rr_vram_gb_free = vram_gb_free s,
      rr_cuda_version = (case cuda_version s of None \<Rightarrow> [] | Some v \<Rightarrow> v),
      rr_network_gbps = network_gbps s,
      rr_battery_pct = (case battery_pct s of None \<Rightarrow> -1 | Some b \<Rightarrow> if b = 0 then -1 else b),
      rr_cpu_utilization = cpu_utilization s, rr_user_active = user_active s,
      rr_cpu_cores_physical =
        (if cpu_cores_physical s = 0 then cpu_cores_total s else cpu_cores_physical s),
      rr_host_metrics_json = host_metrics_json s\<rparr>"

definition snapshot_to_resources :: "resource_report \<Rightarrow> node_resources" where
  "snapshot_to_resources m =
     \<lparr>cpu_cores_total = rr_cpu_cores_total m, cpu_cores_free = rr_cpu_cores_free m,
      ram_gb_total = rr_ram_gb_total m, ram_gb_free = rr_ram_gb_free m,
      gpu_count = rr_gpu_count m, vram_gb_free = rr_vram_gb_free m,
      cuda_version = (if rr_cuda_version m = [] then None else Some (rr_cuda_version m)),
      network_gbps = rr_network_gbps m,
      battery_pct = (if 0 \<le> rr_battery_pct m then Some (rr_battery_pct m) else None),
      cpu_utilization = rr_cpu_utilization m, user_active = rr_user_active m\<rparr>"

subsection \<open>What arrives\<close>

text \<open>
  A report carries the resources of the snapshot unchanged, except for the battery and the
  CUDA version: a battery level arrives exactly when it is positive, so an empty battery arrives
  as no battery at all, and the empty CUDA version as none.
\<close>

lemma report_round_trip:
  "snapshot_to_resources (resource_msg nid s) = (node_resources.truncate s)
     \<lparr>battery_pct := (case battery_pct s of Some b \<Rightarrow> if 0 < b then Some b else None | None \<Rightarrow> None),
      cuda_version := (case cuda_version s of Some (c # cs) \<Rightarrow> Some (c # cs) | _ \<Rightarrow> None)\<rparr>"
  by (auto simp: snapshot_to_resources_def resource_msg_def node_resources.truncate_def
      split: option.split list.split)

text \<open>
  An empty battery opens the gate: a node that reports a battery of zero passes the battery
  gate of every pool router, whatever minimum it asks for, while a node that reports a positive
  level below the minimum does not.
\<close>

lemma empty_battery_passes:
  assumes "resources n = snapshot_to_resources (resource_msg nid s)" and "battery_pct s = Some b"
    and "0 \<le> b" and "b < battery_min_pct p"
  shows "passes_battery_gate p n \<longleftrightarrow> b = 0"
  using assms by (auto simp: passes_battery_gate_def snapshot_to_resources_def resource_msg_def)

definition flat_laptop :: resource_snapshot where
  "flat_laptop = node_resources.extend
     ((resources (sample_node ''a'' 8))\<lparr>battery_pct := Some 0\<rparr>)
     \<lparr>cpu_cores_physical = 4, host_metrics_json = []\<rparr>"

lemma empty_battery_passes_witness:
  "passes_battery_gate default_router
     ((sample_node ''a'' 8)\<lparr>resources := snapshot_to_resources (resource_msg ''a'' flat_laptop)\<rparr>)"
  using empty_battery_passes [of "(sample_node ''a'' 8)\<lparr>resources :=
      snapshot_to_resources (resource_msg ''a'' flat_laptop)\<rparr>" "''a''" flat_laptop 0 default_router]
  by (simp add: flat_laptop_def default_router_def node_resources.extend_def sample_node_def)

end
