(* ===== verification/Worker.thy ===== *)
theory Worker
  imports Wire
begin

section \<open>State of the worker UI (mesh/worker/state.py)\<close>

text \<open>
  \<^verbatim>\<open>WorkerState\<close>: what the local page shows of the agent.  The clock reading is an argument, and so is
  the parser of JSON texts, which raises on a malformed text.
\<close>

record worker_state =
  ws_node_id :: string
  ws_hostname :: string
  ws_driver_address :: string
  ws_agent_address :: string
  ws_location :: string
  ws_ui_port :: int
  ws_registered :: bool
  ws_node_state :: string
  ws_preemptible :: bool
  ws_started_at :: real
  ws_last_heartbeat_at :: "real option"
  ws_cpu_utilization_pct :: real
  ws_cpu_cores :: int
  ws_cpu_physical :: int
  ws_ram_gb_total :: real
  ws_ram_gb_free :: real
  ws_process_count :: pyval
  ws_thread_count :: pyval
  ws_libraries_count :: int
  ws_active_tasks :: int
  ws_last_error :: "string option"
  ws_host_metrics :: pyval

definition new_worker :: "string \<Rightarrow> real \<Rightarrow> worker_state" where
  "new_worker host now =
     \<lparr>ws_node_id = [], ws_hostname = host, ws_driver_address = [], ws_agent_address = [],
      ws_location = ''default'', ws_ui_port = 50052, ws_registered = False,
      ws_node_state = ''STARTING'', ws_preemptible = True, ws_started_at = now,
      ws_last_heartbeat_at = None, ws_cpu_utilization_pct = 0, ws_cpu_cores = 0,
      ws_cpu_physical = 0, ws_ram_gb_total = 0, ws_ram_gb_free = 0, ws_process_count = PInt 0,
      ws_thread_count = PInt 0, ws_libraries_count = 0, ws_active_tasks = 0,
      ws_last_error = None, ws_host_metrics = PDict []\<rparr>"

definition mark_registered :: "string \<Rightarrow> worker_state \<Rightarrow> worker_state" where
  "mark_registered nid w =
     w\<lparr>ws_node_id := nid, ws_registered := True, ws_node_state := ''HEALTHY'', ws_last_error := None\<rparr>"

definition mark_failed :: "string \<Rightarrow> worker_state \<Rightarrow> worker_state" where
  "mark_failed err w =
     w\<lparr>ws_registered := False, ws_node_state := ''ERROR'', ws_last_error := Some err\<rparr>"

definition update_heartbeat :: "real \<Rightarrow> string option \<Rightarrow> worker_state \<Rightarrow> worker_state" where
  "update_heartbeat now st w =
     (let w1 = w\<lparr>ws_last_heartbeat_at := Some now\<rparr>
      in case st of Some (c # cs) \<Rightarrow> w1\<lparr>ws_node_state := c # cs\<rparr> | _ \<Rightarrow> w1)"

text \<open>\<^verbatim>\<open>d.get(k, default)\<close> on a value that must be a dictionary.\<close>

fun get_or :: "pyval \<Rightarrow> string \<Rightarrow> pyval \<Rightarrow> pyval result" where
  "get_or (PDict d) k v = Inr (dict_get_default d k v)"
| "get_or _ k v = Inl TypeError"

text \<open>
  A text that is no JSON leaves the metrics as they are; a document that is no dictionary raises.
  The numbers of the snapshot are stored before the text is read.
\<close>

definition update_metrics :: "(string \<Rightarrow> pyval result) \<Rightarrow> string \<Rightarrow> worker_state \<Rightarrow> worker_state result" where
  "update_metrics loads txt w =
     (if txt = [] then Inr w
      else
        case loads txt of
          Inl _ \<Rightarrow> Inr w
        | Inr hm \<Rightarrow>
            ebind (get_or hm ''processes'' (PDict [])) (\<lambda>procs.
            ebind (get_or procs ''total'' (PInt 0)) (\<lambda>n.
            ebind (get_or procs ''threads_total'' (PInt 0)) (\<lambda>th.
              Inr (w\<lparr>ws_process_count := n, ws_thread_count := th, ws_host_metrics := hm\<rparr>)))))"

definition update_snapshot ::
  "(string \<Rightarrow> pyval result) \<Rightarrow> resource_snapshot \<Rightarrow> int \<Rightarrow> int \<Rightarrow> (worker_state, unit) py" where
  "update_snapshot loads s libs active w =
     (let w1 = w\<lparr>ws_cpu_utilization_pct := py_round 1 (cpu_utilization s * 100),
                 ws_cpu_cores := cpu_cores_total s,
                 ws_cpu_physical :=
                   (if cpu_cores_physical s = 0 then cpu_cores_total s else cpu_cores_physical s),
                 ws_ram_gb_total := py_round 1 (ram_gb_total s),
                 ws_ram_gb_free := py_round 1 (ram_gb_free s)\<rparr>
      in case update_metrics loads (host_metrics_json s) w1 of
           Inl e \<Rightarrow> (Inl e, w1)
         | Inr w2 \<Rightarrow> (Inr (), w2\<lparr>ws_libraries_count := libs, ws_active_tasks := active\<rparr>))"

text \<open>\<^verbatim>\<open>s.rsplit(":", 1)[0]\<close>: what is before the last colon, or everything.\<close>

definition before_last_colon :: "string \<Rightarrow> string" where
  "before_last_colon s =
     (case dropWhile (\<lambda>c. c \<noteq> CHR '':'') (rev s) of [] \<Rightarrow> s | _ # r \<Rightarrow> rev r)"

definition dashboard_url :: "worker_state \<Rightarrow> string option" where
  "dashboard_url w =
     (if ws_driver_address w = [] then None
      else
        let host = before_last_colon (ws_driver_address w)
        in if host \<in> {''localhost'', ''127.0.0.1'', ''0.0.0.0''} then Some ''http://localhost:8080''
           else Some (''http://'' @ host @ '':8080''))"

text \<open>The decimal digits of a whole number.\<close>

fun nat_digits :: "nat \<Rightarrow> string" where
  "nat_digits n =
     (if n < 10 then [char_of (48 + n)] else nat_digits (n div 10) @ [char_of (48 + n mod 10)])"

declare nat_digits.simps [simp del]

definition int_text :: "int \<Rightarrow> string" where
  "int_text i = (if i < 0 then CHR ''-'' # nat_digits (nat (- i)) else nat_digits (nat i))"

definition opt_str :: "string option \<Rightarrow> pyval" where
  "opt_str x = (case x of None \<Rightarrow> PNone | Some s \<Rightarrow> PStr s)"

definition worker_to_dict :: "real \<Rightarrow> worker_state \<Rightarrow> pyval dict" where
  "worker_to_dict now w =
     [(''node_id'', PStr (ws_node_id w)), (''hostname'', PStr (ws_hostname w)),
      (''driver_address'', PStr (ws_driver_address w)),
      (''agent_address'', PStr (ws_agent_address w)), (''location'', PStr (ws_location w)),
      (''ui_port'', PInt (ws_ui_port w)), (''registered'', PBool (ws_registered w)),
      (''node_state'', PStr (ws_node_state w)), (''preemptible'', PBool (ws_preemptible w)),
      (''uptime_seconds'', PInt (py_trunc (now - ws_started_at w))),
      (''last_heartbeat_at'',
         (case ws_last_heartbeat_at w of None \<Rightarrow> PNone | Some t \<Rightarrow> PFloat t)),
      (''cpu_utilization_pct'', PFloat (ws_cpu_utilization_pct w)),
      (''cpu_cores'', PInt (ws_cpu_cores w)), (''cpu_physical'', PInt (ws_cpu_physical w)),
      (''ram_gb_total'', PFloat (ws_ram_gb_total w)), (''ram_gb_free'', PFloat (ws_ram_gb_free w)),
      (''process_count'', ws_process_count w), (''thread_count'', ws_thread_count w),
      (''libraries_count'', PInt (ws_libraries_count w)),
      (''active_tasks'', PInt (ws_active_tasks w)), (''last_error'', opt_str (ws_last_error w)),
      (''dashboard_url'', opt_str (dashboard_url w)),
      (''local_ui_url'', PStr (''http://127.0.0.1:'' @ int_text (ws_ui_port w))),
      (''host_metrics'', ws_host_metrics w)]"

end
