(* ===== verification/MeshVpn.thy ===== *)
theory MeshVpn
  imports Serialize Worker
begin

section \<open>Sites and routes (mesh/meshvpn)\<close>

text \<open>
  \<^verbatim>\<open>SitePeer\<close> and \<^verbatim>\<open>MeshConfig\<close> (\<^verbatim>\<open>site.py\<close>), the coordinator that probes peers and selects routes
  (\<^verbatim>\<open>coordinator.py\<close>), and the addresses and the connection count of the relay (\<^verbatim>\<open>relay.py\<close>; its sockets
  are in theory \<open>Relay\<close>).  A configuration file is the document it contains, read with the typed
  accessors of the serialisation; the latency of a TCP connection is what the environment
  measures, \<open>None\<close> where the connection fails.
\<close>

subsection \<open>Configuration\<close>

record site_peer =
  sp_site_id :: string
  sp_relay_address :: string
  sp_grpc_address :: string
  sp_region :: string
  sp_latency_ms :: real
  sp_status :: string

record mesh_config =
  mc_site_id :: string
  mc_relay_listen :: string
  mc_relay_public :: string
  mc_peers :: "site_peer list"

definition default_mesh_config :: mesh_config where
  "default_mesh_config =
     \<lparr>mc_site_id = ''default'', mc_relay_listen = ''0.0.0.0:6000'', mc_relay_public = [],
      mc_peers = []\<rparr>"

definition peer_to_dict :: "site_peer \<Rightarrow> pyval dict" where
  "peer_to_dict p =
     [(''site_id'', PStr (sp_site_id p)), (''relay_address'', PStr (sp_relay_address p)),
      (''grpc_address'', PStr (sp_grpc_address p)),
      (''region'', PStr (if sp_region p = [] then sp_site_id p else sp_region p)),
      (''latency_ms'', PFloat (py_round 1 (sp_latency_ms p))), (''status'', PStr (sp_status p))]"

definition peer_from_doc :: "pyval dict \<Rightarrow> site_peer result" where
  "peer_from_doc d =
     ebind (item d ''site'' as_str) (\<lambda>site.
     ebind (item_or d ''relay'' [] as_str) (\<lambda>relay.
     ebind (item_or d ''grpc'' [] as_str) (\<lambda>grpc.
     ebind (item_or d ''region'' site as_str) (\<lambda>region.
     ebind (item_or d ''latency_ms'' 0 as_real) (\<lambda>ms.
       Inr \<lparr>sp_site_id = site, sp_relay_address = relay, sp_grpc_address = grpc,
            sp_region = region, sp_latency_ms = ms, sp_status = ''unknown''\<rparr>)))))"

definition mesh_config_from_doc :: "pyval dict \<Rightarrow> mesh_config result" where
  "mesh_config_from_doc d =
     ebind (item_or d ''peers'' [] as_list) (\<lambda>ps.
     ebind (map_result (\<lambda>p. ebind (as_dict p) peer_from_doc) ps) (\<lambda>peers.
     ebind (item_or d ''relay'' [] as_dict) (\<lambda>relay.
     ebind (item_or d ''site'' ''default'' as_str) (\<lambda>site.
     ebind (item_or relay ''listen'' ''0.0.0.0:6000'' as_str) (\<lambda>listen.
     ebind (item_or relay ''public'' [] as_str) (\<lambda>public.
       Inr \<lparr>mc_site_id = site, mc_relay_listen = listen, mc_relay_public = public,
            mc_peers = peers\<rparr>))))))"

definition mesh_config_to_dict :: "mesh_config \<Rightarrow> pyval dict" where
  "mesh_config_to_dict c =
     [(''site_id'', PStr (mc_site_id c)), (''relay_listen'', PStr (mc_relay_listen c)),
      (''relay_public'', PStr (mc_relay_public c)),
      (''peers'', PList (map (\<lambda>p. PDict (peer_to_dict p)) (mc_peers c)))]"

subsection \<open>Relay addresses\<close>

text \<open>\<^verbatim>\<open>int(s)\<close> of a text.\<close>

definition parse_int :: "string \<Rightarrow> int result" where
  "parse_int s =
     (case split_sign (strip s) of (sg, d) \<Rightarrow>
        if digit_part d then Inr (sg * int (digits_val d)) else Inl ValueError)"

definition after_last_colon :: "string \<Rightarrow> string" where
  "after_last_colon s = rev (takeWhile (\<lambda>c. c \<noteq> CHR '':'') (rev s))"

text \<open>\<^verbatim>\<open>host, port = s.rsplit(":", 1)\<close>, which raises without a colon, and \<^verbatim>\<open>int(port)\<close>.\<close>

definition split_address :: "string \<Rightarrow> (string \<times> int) result" where
  "split_address s =
     (if CHR '':'' \<notin> set s then Inl ValueError
      else ebind (parse_int (after_last_colon s)) (\<lambda>port. Inr (before_last_colon s, port)))"

record relay =
  rl_listen_host :: string
  rl_listen_port :: int
  rl_target_host :: string
  rl_target_port :: int
  rl_connections :: int

definition new_relay :: "string \<Rightarrow> string \<Rightarrow> relay result" where
  "new_relay listen target =
     ebind (split_address listen) (\<lambda>(host, port).
     ebind (split_address target) (\<lambda>(thost, tport).
       Inr \<lparr>rl_listen_host = host, rl_listen_port = port, rl_target_host = thost,
            rl_target_port = tport, rl_connections = 0\<rparr>))"

definition relay_address :: "relay \<Rightarrow> string" where
  "relay_address r = rl_listen_host r @ '':'' @ int_text (rl_listen_port r)"

subsection \<open>Coordinator\<close>

record mesh =
  ms_config :: mesh_config
  ms_peers :: "site_peer dict"
  ms_relay :: "relay option"

definition new_mesh :: "mesh_config \<Rightarrow> mesh" where
  "new_mesh c =
     \<lparr>ms_config = c, ms_peers = fold (\<lambda>p. dict_set (sp_site_id p) p) (mc_peers c) [],
      ms_relay = None\<rparr>"

definition start_relay :: "string \<Rightarrow> (mesh, unit) py" where
  "start_relay target m =
     (case new_relay (mc_relay_listen (ms_config m)) target of
        Inl e \<Rightarrow> (Inl e, m)
      | Inr r \<Rightarrow> (Inr (), m\<lparr>ms_relay := Some r\<rparr>))"

definition add_peer :: "site_peer \<Rightarrow> mesh \<Rightarrow> mesh" where
  "add_peer p m = m\<lparr>ms_peers := dict_set (sp_site_id p) p (ms_peers m)\<rparr>"

definition remove_peer :: "string \<Rightarrow> mesh \<Rightarrow> mesh" where
  "remove_peer site m = m\<lparr>ms_peers := dict_pop site (ms_peers m)\<rparr>"

definition peer_list :: "mesh \<Rightarrow> site_peer list" where
  "peer_list m = dict_values (ms_peers m)"

text \<open>
  The host and the port a probe connects to: \<^verbatim>\<open>rpartition\<close> gives an empty host where there is no
  colon, and then the whole address is the host.
\<close>

definition probe_target :: "string \<Rightarrow> string \<times> string" where
  "probe_target addr =
     (let host = (if CHR '':'' \<in> set addr then before_last_colon addr else [])
      in if host = [] then (addr, ''6000'') else (host, after_last_colon addr))"

definition probe_peer :: "(string \<Rightarrow> int \<Rightarrow> real option) \<Rightarrow> site_peer \<Rightarrow> site_peer result" where
  "probe_peer connect p =
     (case probe_target (sp_relay_address p) of (host, port) \<Rightarrow>
        ebind (parse_int port) (\<lambda>n.
          case connect host n of
            Some ms \<Rightarrow> Inr (p\<lparr>sp_latency_ms := ms, sp_status := ''reachable''\<rparr>)
          | None \<Rightarrow> Inr (p\<lparr>sp_latency_ms := -1, sp_status := ''unreachable''\<rparr>)))"

text \<open>A port that is no number raises and leaves the remaining peers unprobed.\<close>

fun probe_loop ::
  "(string \<Rightarrow> int \<Rightarrow> real option) \<Rightarrow> site_peer dict \<Rightarrow> unit result \<times> site_peer dict" where
  "probe_loop connect [] = (Inr (), [])"
| "probe_loop connect ((site, p) # ps) =
     (case probe_peer connect p of
        Inl e \<Rightarrow> (Inl e, (site, p) # ps)
      | Inr q \<Rightarrow> (case probe_loop connect ps of (res, qs) \<Rightarrow> (res, (site, q) # qs)))"

definition probe_peers :: "(string \<Rightarrow> int \<Rightarrow> real option) \<Rightarrow> (mesh, unit) py" where
  "probe_peers connect m =
     (case probe_loop connect (ms_peers m) of (res, ps) \<Rightarrow> (res, m\<lparr>ms_peers := ps\<rparr>))"

definition best_peer_route :: "string \<Rightarrow> mesh \<Rightarrow> string option" where
  "best_peer_route site m =
     (case dict_get (ms_peers m) site of
        None \<Rightarrow> None
      | Some p \<Rightarrow> if sp_status p = ''reachable'' then Some (sp_grpc_address p)
                  else Some (sp_grpc_address p))"

definition resolve_agent_driver :: "string \<Rightarrow> string \<Rightarrow> mesh \<Rightarrow> string" where
  "resolve_agent_driver site local_grpc m =
     (if site = mc_site_id (ms_config m) \<or> site = ''default'' then local_grpc
      else case best_peer_route site m of Some (c # cs) \<Rightarrow> c # cs | _ \<Rightarrow> local_grpc)"

definition mesh_payload :: "mesh \<Rightarrow> pyval dict" where
  "mesh_payload m =
     [(''site_id'', PStr (mc_site_id (ms_config m))),
      (''relay'',
         (case ms_relay m of
            None \<Rightarrow> PNone
          | Some r \<Rightarrow> PDict
              [(''listen'', PStr (mc_relay_listen (ms_config m))),
               (''public'', PStr (if mc_relay_public (ms_config m) = [] then relay_address r
                                 else mc_relay_public (ms_config m))),
               (''connections'', PInt (rl_connections r))])),
      (''peers'', PList (map (\<lambda>p. PDict (peer_to_dict p)) (peer_list m)))]"

subsection \<open>Probing and routes\<close>

lemma probe_peer_keeps:
  "probe_peer connect p = Inr q \<Longrightarrow> sp_grpc_address q = sp_grpc_address p"
  by (auto simp: probe_peer_def ebind_eq_Inr split: prod.splits option.splits)

lemma probe_loop_keeps:
  "map_option sp_grpc_address (dict_get (snd (probe_loop connect ps)) site)
     = map_option sp_grpc_address (dict_get ps site)"
  by (induction connect ps rule: probe_loop.induct)
    (auto simp: probe_peer_keeps split: sum.split prod.split)

text \<open>
  Probing does not matter: whatever the probe measures, reachable, unreachable or an error, the
  address an agent of a site is sent to stays the same, so the route to an unreachable peer is
  handed out like any other and no latency is ever compared.
\<close>

lemma probe_never_changes_route:
  "resolve_agent_driver site local_grpc (snd (probe_peers connect m)) = resolve_agent_driver site local_grpc m"
proof -
  have route: "best_peer_route site m = map_option sp_grpc_address (dict_get (ms_peers m) site)" for m
    by (simp add: best_peer_route_def split: option.split)
  have "ms_config (snd (probe_peers connect m)) = ms_config m"
    by (simp add: probe_peers_def split: prod.split)
  moreover have "best_peer_route site (snd (probe_peers connect m)) = best_peer_route site m"
    using probe_loop_keeps [of connect "ms_peers m" site] unfolding route
    by (simp add: probe_peers_def case_prod_beta)
  ultimately show ?thesis
    by (simp add: resolve_agent_driver_def)
qed

end
