(* ===== verification/Heartbeat.thy ===== *)
theory Heartbeat
  imports Samples
begin

section \<open>Heartbeats and node health (mesh/health/heartbeat.py)\<close>

text \<open>
  \<^verbatim>\<open>HeartbeatTracker\<close> and \<^verbatim>\<open>NodeHealthRegistry\<close>.  The tracker is an extensible record: the
  cluster and the job manager extend it with their own fields, so that a callback of the
  registry, which may do anything to the driver's state and calls back into the tracker, is a
  function on the extended record.  Every operation takes the clock reading \<open>now\<close>; a pass over
  all nodes uses one reading.  The code divides by \<^verbatim>\<open>interval_seconds\<close>, which is positive
  wherever the repository builds a tracker; the properties that depend on it say so.
\<close>

record tracker =
  interval_seconds :: real
  suspected_threshold :: int
  dead_threshold :: int
  last_heartbeat :: "real dict"
  states :: "node_state dict"
  explicit_dead :: "string set"

definition new_tracker :: "real \<Rightarrow> tracker" where
  "new_tracker interval =
     \<lparr>interval_seconds = interval, suspected_threshold = 3, dead_threshold = 5,
      last_heartbeat = [], states = [], explicit_dead = {}\<rparr>"

subsection \<open>HeartbeatTracker\<close>

definition tracker_register :: "real \<Rightarrow> string \<Rightarrow> 'a tracker_scheme \<Rightarrow> 'a tracker_scheme" where
  "tracker_register now nid s =
     s\<lparr>last_heartbeat := dict_set nid now (last_heartbeat s),
       states := dict_set nid HEALTHY (states s),
       explicit_dead := explicit_dead s - {nid}\<rparr>"

definition tracker_heartbeat :: "real \<Rightarrow> string \<Rightarrow> 'a tracker_scheme \<Rightarrow> 'a tracker_scheme" where
  "tracker_heartbeat now nid s =
     s\<lparr>last_heartbeat := dict_set nid now (last_heartbeat s),
       states := dict_set nid HEALTHY (states s),
       explicit_dead := explicit_dead s - {nid}\<rparr>"

definition missed_count :: "real \<Rightarrow> string \<Rightarrow> 'a tracker_scheme \<Rightarrow> int" where
  "missed_count now nid s =
     (case dict_get (last_heartbeat s) nid of
        None \<Rightarrow> dead_threshold s
      | Some t \<Rightarrow> \<lfloor>(now - t) / interval_seconds s\<rfloor>)"

definition health_of :: "real \<Rightarrow> string \<Rightarrow> 'a tracker_scheme \<Rightarrow> node_state" where
  "health_of now nid s =
     (let missed = missed_count now nid s
      in if dead_threshold s \<le> missed then DEAD
         else if suspected_threshold s \<le> missed then SUSPECTED
         else HEALTHY)"

definition evaluate :: "real \<Rightarrow> string \<Rightarrow> 'a tracker_scheme \<Rightarrow> node_state \<times> 'a tracker_scheme" where
  "evaluate now nid s =
     (if nid \<in> explicit_dead s then (DEAD, s\<lparr>states := dict_set nid DEAD (states s)\<rparr>)
      else if dict_get (last_heartbeat s) nid = None then (DEAD, s)
      else (health_of now nid s, s\<lparr>states := dict_set nid (health_of now nid s) (states s)\<rparr>))"

definition tracker_state :: "string \<Rightarrow> 'a tracker_scheme \<Rightarrow> node_state" where
  "tracker_state nid s = dict_get_default (states s) nid OFFLINE"

definition mark_dead :: "string \<Rightarrow> 'a tracker_scheme \<Rightarrow> 'a tracker_scheme" where
  "mark_dead nid s =
     s\<lparr>states := dict_set nid DEAD (states s), explicit_dead := insert nid (explicit_dead s)\<rparr>"

definition mark_preempted :: "string \<Rightarrow> 'a tracker_scheme \<Rightarrow> 'a tracker_scheme" where
  "mark_preempted nid s = s\<lparr>states := dict_set nid PREEMPTED (states s)\<rparr>"

definition time_to_suspected :: "'a tracker_scheme \<Rightarrow> real" where
  "time_to_suspected s = interval_seconds s * of_int (suspected_threshold s)"

definition time_to_dead :: "'a tracker_scheme \<Rightarrow> real" where
  "time_to_dead s = interval_seconds s * of_int (dead_threshold s)"

subsection \<open>NodeHealthRegistry\<close>

text \<open>
  A registered callback: node, old state, new state, and its effect on the driver's state.  An
  exception of a callback leaves the operation that notified it.
\<close>

type_synonym 'a callback =
  "string \<Rightarrow> node_state \<Rightarrow> node_state \<Rightarrow> ('a tracker_scheme, unit) py"

definition notify :: "'a callback list \<Rightarrow> 'a callback" where
  "notify cbs nid old new = siter (\<lambda>cb. cb nid old new) cbs"

definition registry_heartbeat ::
  "'a callback list \<Rightarrow> real \<Rightarrow> string \<Rightarrow> ('a tracker_scheme, node_state) py" where
  "registry_heartbeat cbs now nid s =
     (let old = tracker_state nid s; s1 = tracker_heartbeat now nid s
      in if old \<noteq> HEALTHY then sbind (notify cbs nid old HEALTHY) (\<lambda>_. sret HEALTHY) s1
         else (Inr HEALTHY, s1))"

definition evaluate_one ::
  "'a callback list \<Rightarrow> real \<Rightarrow> string \<Rightarrow> ('a tracker_scheme, node_state) py" where
  "evaluate_one cbs now nid s =
     (let old = tracker_state nid s
      in case evaluate now nid s of (new, s1) \<Rightarrow>
           if old \<noteq> new then sbind (notify cbs nid old new) (\<lambda>_. sret new) s1
           else (Inr new, s1))"

fun evaluate_loop ::
  "'a callback list \<Rightarrow> real \<Rightarrow> string list \<Rightarrow> node_state dict
     \<Rightarrow> ('a tracker_scheme, node_state dict) py" where
  "evaluate_loop cbs now [] results = sret results"
| "evaluate_loop cbs now (nid # nids) results =
     sbind (evaluate_one cbs now nid) (\<lambda>new.
       evaluate_loop cbs now nids (dict_set nid new results))"

definition evaluate_all ::
  "'a callback list \<Rightarrow> real \<Rightarrow> ('a tracker_scheme, node_state dict) py" where
  "evaluate_all cbs now s = evaluate_loop cbs now (dict_keys (last_heartbeat s)) [] s"

text \<open>\<^verbatim>\<open>NodeHealthRegistry.get_state\<close> evaluates the node, and so writes the tracker, but notifies nobody.\<close>

definition registry_state :: "real \<Rightarrow> string \<Rightarrow> 'a tracker_scheme \<Rightarrow> node_state \<times> 'a tracker_scheme" where
  "registry_state now nid s = evaluate now nid s"

fun dead_nodes_loop :: "real \<Rightarrow> string list \<Rightarrow> 'a tracker_scheme \<Rightarrow> string list \<times> 'a tracker_scheme" where
  "dead_nodes_loop now [] s = ([], s)"
| "dead_nodes_loop now (nid # nids) s =
     (case evaluate now nid s of (st, s1) \<Rightarrow>
        case dead_nodes_loop now nids s1 of (ds, s2) \<Rightarrow>
          (if st = DEAD then nid # ds else ds, s2))"

definition get_dead_nodes :: "real \<Rightarrow> 'a tracker_scheme \<Rightarrow> string list \<times> 'a tracker_scheme" where
  "get_dead_nodes now s = dead_nodes_loop now (dict_keys (last_heartbeat s)) s"

definition force_state ::
  "'a callback list \<Rightarrow> string \<Rightarrow> node_state \<Rightarrow> ('a tracker_scheme, unit) py" where
  "force_state cbs nid new s =
     (let old = tracker_state nid s;
          s1 = (if new = DEAD then mark_dead nid s
                else s\<lparr>states := dict_set nid new (states s),
                       explicit_dead := explicit_dead s - {nid}\<rparr>)
      in if old \<noteq> new then notify cbs nid old new s1 else (Inr (), s1))"

subsection \<open>What the registry keeps\<close>

text \<open>
  A predicate that does not depend on the tracker's tables, and that every callback keeps, is
  kept by every operation of the registry.
\<close>

locale tracker_frame =
  fixes P :: "'a tracker_scheme \<Rightarrow> bool"
  assumes P_beats: "P s \<Longrightarrow> P (s\<lparr>last_heartbeat := b\<rparr>)"
    and P_states: "P s \<Longrightarrow> P (s\<lparr>states := sts\<rparr>)"
    and P_dead: "P s \<Longrightarrow> P (s\<lparr>explicit_dead := ed\<rparr>)"
begin

lemma evaluate_P: "P s \<Longrightarrow> P (snd (evaluate now nid s))"
  by (simp add: evaluate_def P_states)

lemma notify_P:
  assumes "\<And>cb s. cb \<in> set cbs \<Longrightarrow> P s \<Longrightarrow> P (snd (cb nid old new s))" and "P s"
  shows "P (snd (notify cbs nid old new s))"
  unfolding notify_def by (rule siter_keeps_on) (auto intro: assms)

lemma registry_heartbeat_P:
  assumes "\<And>cb old s. cb \<in> set cbs \<Longrightarrow> P s \<Longrightarrow> P (snd (cb nid old HEALTHY s))" and "P s"
  shows "P (snd (registry_heartbeat cbs now nid s))"
proof -
  have "P (tracker_heartbeat now nid s)"
    using P_dead [OF P_states [OF P_beats [OF assms(2)]]] by (simp add: tracker_heartbeat_def)
  moreover have "P (snd (notify cbs nid old HEALTHY s))" if "P s" for old s
    using that by (intro notify_P assms(1))
  ultimately show ?thesis
    by (auto simp: registry_heartbeat_def Let_def intro!: sbind_keeps [where P = P])
qed

lemma evaluate_all_P:
  assumes "\<And>cb nid old new s. cb \<in> set cbs \<Longrightarrow> P s \<Longrightarrow> P (snd (cb nid old new s))"
  shows "P s \<Longrightarrow> P (snd (evaluate_all cbs now s))"
proof -
  have told: "P (snd (notify cbs nid old new s))" if "P s" for nid old new s
    using that by (intro notify_P assms)
  have one: "P (snd (evaluate_one cbs now nid s))" if "P s" for nid s
    using evaluate_P [OF that, of now nid] told
    by (auto simp: evaluate_one_def Let_def intro!: sbind_keeps [where P = P] split: prod.split)
  have "P s \<Longrightarrow> P (snd (evaluate_loop cbs now nids res s))" for nids res
    by (induction nids arbitrary: res s) (auto intro!: sbind_keeps [where P = P] one)
  then show "P s \<Longrightarrow> P (snd (evaluate_all cbs now s))"
    by (simp add: evaluate_all_def)
qed

lemma force_state_P:
  assumes "\<And>cb old s. cb \<in> set cbs \<Longrightarrow> P s \<Longrightarrow> P (snd (cb nid old new s))" and "P s"
  shows "P (snd (force_state cbs nid new s))"
proof -
  have "P (mark_dead nid s)" "P (s\<lparr>states := sts, explicit_dead := ed\<rparr>)" for sts ed
    using P_dead [OF P_states [OF assms(2)]] by (simp_all add: mark_dead_def)
  moreover have "P (snd (notify cbs nid old new s))" if "P s" for old s
    using that by (intro notify_P assms(1))
  ultimately show ?thesis
    by (simp add: force_state_def Let_def)
qed

end

subsection \<open>Facts about single operations\<close>

lemmas tracker_defs =
  tracker_register_def tracker_heartbeat_def evaluate_def tracker_state_def mark_dead_def
  mark_preempted_def

definition config_ok :: "'a tracker_scheme \<Rightarrow> bool" where
  "config_ok s \<longleftrightarrow> 0 < interval_seconds s
     \<and> 0 < suspected_threshold s \<and> suspected_threshold s \<le> dead_threshold s"

lemma missed_ge_iff:
  assumes "0 < interval_seconds s" and "dict_get (last_heartbeat s) nid = Some t"
  shows "k \<le> missed_count now nid s \<longleftrightarrow> interval_seconds s * of_int k \<le> now - t"
  using assms by (simp add: missed_count_def le_floor_iff pos_le_divide_eq mult.commute)

lemma evaluate_frame [simp]:
  "last_heartbeat (snd (evaluate now nid s)) = last_heartbeat s"
  "explicit_dead (snd (evaluate now nid s)) = explicit_dead s"
  "interval_seconds (snd (evaluate now nid s)) = interval_seconds s"
  "suspected_threshold (snd (evaluate now nid s)) = suspected_threshold s"
  "dead_threshold (snd (evaluate now nid s)) = dead_threshold s"
  "tracker.more (snd (evaluate now nid s)) = tracker.more s"
  by (simp_all add: evaluate_def)

lemma evaluate_state_other:
  "nid' \<noteq> nid \<Longrightarrow> tracker_state nid' (snd (evaluate now nid s)) = tracker_state nid' s"
  by (simp add: evaluate_def tracker_state_def)

text \<open>The verdict of an evaluation depends on the heartbeats and the explicit deaths only.\<close>

lemma evaluate_fst_cong:
  assumes "last_heartbeat s = last_heartbeat s'" and "explicit_dead s = explicit_dead s'"
    and "interval_seconds s = interval_seconds s'"
    and "suspected_threshold s = suspected_threshold s'" and "dead_threshold s = dead_threshold s'"
  shows "fst (evaluate now nid s) = fst (evaluate now nid s')"
  using assms by (simp add: evaluate_def health_of_def missed_count_def Let_def split: option.split)

lemma evaluate_fst_evaluate [simp]:
  "fst (evaluate now nid' (snd (evaluate now' nid s))) = fst (evaluate now nid' s)"
  by (rule evaluate_fst_cong) simp_all

lemma evaluate_records:
  "dict_get (last_heartbeat s) nid \<noteq> None \<Longrightarrow>
     tracker_state nid (snd (evaluate now nid s)) = fst (evaluate now nid s)"
  by (auto simp: evaluate_def tracker_state_def)

subsection \<open>Properties\<close>

text \<open>
  C21: the classification and its deadlines: a registered node not marked dead is healthy
  while less than \<^verbatim>\<open>time_to_suspected\<close> has passed since its last heartbeat, dead from
  \<^verbatim>\<open>time_to_dead\<close> on, and suspected in between; and the tracker stores that verdict.
\<close>

theorem evaluate_deadlines:
  assumes "config_ok s" and "dict_get (last_heartbeat s) nid = Some t" and "nid \<notin> explicit_dead s"
  shows "fst (evaluate now nid s) =
      (if time_to_dead s \<le> now - t then DEAD
       else if time_to_suspected s \<le> now - t then SUSPECTED
       else HEALTHY)
    \<and> tracker_state nid (snd (evaluate now nid s)) = fst (evaluate now nid s)"
  using assms missed_ge_iff [of s nid t _ now] evaluate_records [of s nid now]
  by (simp add: evaluate_def health_of_def config_ok_def time_to_dead_def time_to_suspected_def)

text \<open>How bad a state is, for the states an evaluation returns.\<close>

fun badness :: "node_state \<Rightarrow> nat" where
  "badness HEALTHY = 0"
| "badness SUSPECTED = 1"
| "badness _ = 2"

text \<open>
  Without a heartbeat a node's health never improves as time passes; a node marked dead
  evaluates to dead at every time, and one heartbeat makes it healthy again.
\<close>

lemma health_only_degrades:
  assumes "config_ok s" and "now \<le> now'"
  shows "badness (fst (evaluate now nid s)) \<le> badness (fst (evaluate now' nid s))
    \<and> (nid \<in> explicit_dead s \<longrightarrow> fst (evaluate now nid s) = DEAD)
    \<and> fst (evaluate now nid (tracker_heartbeat now nid s)) = HEALTHY"
proof -
  have mono: "missed_count now nid s \<le> missed_count now' nid s"
  proof (cases "dict_get (last_heartbeat s) nid")
    case None
    then show ?thesis by (simp add: missed_count_def)
  next
    case (Some t)
    have "(now - t) / interval_seconds s \<le> (now' - t) / interval_seconds s"
      using assms by (intro divide_right_mono) (auto simp: config_ok_def)
    with Some show ?thesis by (simp add: missed_count_def floor_mono)
  qed
  have "badness (fst (evaluate now nid s)) \<le> badness (fst (evaluate now' nid s))"
    using mono by (simp add: evaluate_def health_of_def Let_def)
  moreover have "fst (evaluate now nid (tracker_heartbeat now nid s)) = HEALTHY"
    using assms(1)
    by (simp add: evaluate_def tracker_heartbeat_def health_of_def missed_count_def config_ok_def)
  ultimately show ?thesis
    by (simp add: evaluate_def)
qed

subsection \<open>One pass over all nodes\<close>

text \<open>
  A callback that keeps the tracker's own fields and only records what it was told, as the log
  of state changes of the simulator without a job manager does.
\<close>

type_synonym change = "string \<times> node_state \<times> node_state"

definition logged :: "string \<Rightarrow> node_state \<Rightarrow> node_state \<Rightarrow> change list tracker_scheme
    \<Rightarrow> change list tracker_scheme" where
  "logged nid old new s = s\<lparr>tracker.more := tracker.more s @ [(nid, old, new)]\<rparr>"

definition log_change :: "change list callback" where
  "log_change nid old new = smodify (logged nid old new)"

lemma notify_log [simp]: "notify [log_change] nid old new s = (Inr (), logged nid old new s)"
  by (simp add: notify_def log_change_def sbind_def)

lemma logged_frame [simp]:
  "last_heartbeat (logged nid old new s) = last_heartbeat s"
  "states (logged nid old new s) = states s"
  "explicit_dead (logged nid old new s) = explicit_dead s"
  "interval_seconds (logged nid old new s) = interval_seconds s"
  "suspected_threshold (logged nid old new s) = suspected_threshold s"
  "dead_threshold (logged nid old new s) = dead_threshold s"
  "tracker.more (logged nid old new s) = tracker.more s @ [(nid, old, new)]"
  by (simp_all add: logged_def)

lemma logged_state [simp]: "tracker_state nid' (logged nid old new s) = tracker_state nid' s"
  by (simp add: tracker_state_def)

lemma logged_evaluate [simp]:
  "fst (evaluate now nid' (logged nid old new s)) = fst (evaluate now nid' s)"
  by (rule evaluate_fst_cong) simp_all

lemma evaluate_one_log:
  "evaluate_one [log_change] now nid s =
     (Inr (fst (evaluate now nid s)),
      if tracker_state nid s \<noteq> fst (evaluate now nid s)
      then logged nid (tracker_state nid s) (fst (evaluate now nid s)) (snd (evaluate now nid s))
      else snd (evaluate now nid s))"
  by (cases "evaluate now nid s") (simp add: evaluate_one_def Let_def sbind_def)

text \<open>The state after one node, with the log as the callback.\<close>

abbreviation after_one where
  "after_one now nid s \<equiv> snd (evaluate_one [log_change] now nid s)"

abbreviation after_loop where
  "after_loop now nids res s \<equiv> snd (evaluate_loop [log_change] now nids res s)"

lemma after_one_frame [simp]:
  "last_heartbeat (after_one now nid s) = last_heartbeat s"
  "fst (evaluate now nid' (after_one now nid s)) = fst (evaluate now nid' s)"
  "nid' \<noteq> nid \<Longrightarrow> tracker_state nid' (after_one now nid s) = tracker_state nid' s"
  "dict_get (last_heartbeat s) nid \<noteq> None \<Longrightarrow>
     tracker_state nid (after_one now nid s) = fst (evaluate now nid s)"
  "tracker.more (after_one now nid s) = tracker.more s @
     (if tracker_state nid s \<noteq> fst (evaluate now nid s)
      then [(nid, tracker_state nid s, fst (evaluate now nid s))] else [])"
  by (simp_all add: evaluate_one_log evaluate_state_other evaluate_records)

lemma evaluate_loop_Cons:
  "evaluate_loop [log_change] now (nid # nids) res s =
     evaluate_loop [log_change] now nids (dict_set nid (fst (evaluate now nid s)) res)
       (after_one now nid s)"
proof -
  have "evaluate_one [log_change] now nid s = (Inr (fst (evaluate now nid s)), after_one now nid s)"
    by (simp add: evaluate_one_log)
  then show ?thesis
    by (simp only: evaluate_loop.simps sbind_Inr)
qed

lemma after_loop_frame [simp]:
  "last_heartbeat (after_loop now nids res s) = last_heartbeat s"
  "fst (evaluate now n (after_loop now nids res s)) = fst (evaluate now n s)"
  by (induction nids arbitrary: res s) (simp_all only: evaluate_loop_Cons evaluate_loop.simps(1)
      after_one_frame snd_conv sret_apply)

lemma after_loop_other:
  "n \<notin> set nids \<Longrightarrow> tracker_state n (after_loop now nids res s) = tracker_state n s"
  by (induction nids arbitrary: res s) (simp_all add: evaluate_loop_Cons del: evaluate_loop.simps(2))

lemma after_loop_state:
  "\<lbrakk>n \<in> set nids; distinct nids; dict_get (last_heartbeat s) n \<noteq> None\<rbrakk> \<Longrightarrow>
     tracker_state n (after_loop now nids res s) = fst (evaluate now n s)"
proof (induction nids arbitrary: res s)
  case (Cons nid nids)
  then show ?case
    by (cases "n = nid")
      (simp_all add: evaluate_loop_Cons after_loop_other del: evaluate_loop.simps(2))
qed simp

lemma evaluate_loop_log_results:
  "\<exists>d. fst (evaluate_loop [log_change] now nids res s) = Inr d
    \<and> (\<forall>n. dict_get d n = (if n \<in> set nids then Some (fst (evaluate now n s)) else dict_get res n))"
proof (induction nids arbitrary: res s)
  case (Cons nid nids)
  show ?case
    using Cons.IH [of "dict_set nid (fst (evaluate now nid s)) res" "after_one now nid s"]
    by (auto simp: evaluate_loop_Cons simp del: evaluate_loop.simps(2))
qed simp

lemma evaluate_loop_log_more:
  "distinct nids \<Longrightarrow>
     tracker.more (after_loop now nids res s) = tracker.more s @
       map (\<lambda>n. (n, tracker_state n s, fst (evaluate now n s)))
         (filter (\<lambda>n. tracker_state n s \<noteq> fst (evaluate now n s)) nids)"
proof (induction nids arbitrary: res s)
  case (Cons nid nids)
  let ?s1 = "after_one now nid s"
  have other: "tracker_state n ?s1 = tracker_state n s" if "n \<in> set nids" for n
    using Cons.prems that by (intro after_one_frame(3)) auto
  have "map (\<lambda>n. (n, tracker_state n ?s1, fst (evaluate now n s)))
      (filter (\<lambda>n. tracker_state n ?s1 \<noteq> fst (evaluate now n s)) nids)
    = map (\<lambda>n. (n, tracker_state n s, fst (evaluate now n s)))
      (filter (\<lambda>n. tracker_state n s \<noteq> fst (evaluate now n s)) nids)"
    using other by (intro map_cong filter_cong) auto
  with Cons show ?case
    by (simp add: evaluate_loop_Cons del: evaluate_loop.simps(2))
qed simp


text \<open>
  A lost death: once \<^verbatim>\<open>NodeHealthRegistry.get_state\<close> has looked at a node, the pass at that
  time does not notify its change any more, whatever the change was, because the look has
  already stored the verdict.
\<close>

lemma get_state_hides_change:
  assumes "dict_get (last_heartbeat s) nid \<noteq> None"
  shows "evaluate_one cbs now nid (snd (registry_state now nid s)) =
    (Inr (fst (evaluate now nid s)), snd (evaluate now nid s))"
  using assms
  by (auto simp: evaluate_one_def registry_state_def evaluate_def tracker_state_def Let_def
      health_of_def missed_count_def)

subsection \<open>Concrete inputs\<close>

text \<open>A tracker polled every five seconds whose node \<^verbatim>\<open>a\<close> last reported at time 100.\<close>

definition sample_tracker :: "change list tracker_scheme" where
  "sample_tracker =
     tracker_register 100 ''a'' (tracker.extend (new_tracker 5) [])"

lemma sample_tracker_ok:
  "config_ok sample_tracker" "dict_get (last_heartbeat sample_tracker) ''a'' = Some 100"
  "''a'' \<notin> explicit_dead sample_tracker" "dict_ok (last_heartbeat sample_tracker)"
  by (simp_all add: sample_tracker_def tracker_register_def new_tracker_def tracker.defs
      config_ok_def dict_ok_def)

lemma evaluate_deadlines_witness:
  "fst (evaluate 116 ''a'' sample_tracker) = SUSPECTED \<and> fst (evaluate 125 ''a'' sample_tracker) = DEAD"
  using evaluate_deadlines [OF sample_tracker_ok(1-3), of 116]
    evaluate_deadlines [OF sample_tracker_ok(1-3), of 125]
  by (simp add: sample_tracker_def tracker_register_def new_tracker_def tracker.defs
      time_to_dead_def time_to_suspected_def)

lemma health_only_degrades_witness:
  "badness (fst (evaluate 116 ''a'' sample_tracker)) \<le> badness (fst (evaluate 125 ''a'' sample_tracker))"
  using health_only_degrades [OF sample_tracker_ok(1), of 116 125 "''a''"] by simp


lemma get_state_hides_change_witness:
  "fst (evaluate 125 ''a'' sample_tracker) = DEAD
   \<and> tracker.more (snd (evaluate_one [log_change] 125 ''a'' sample_tracker)) = [(''a'', HEALTHY, DEAD)]
   \<and> tracker.more (snd (evaluate_one [log_change] 125 ''a''
       (snd (registry_state 125 ''a'' sample_tracker)))) = []"
proof -
  have "dict_get (last_heartbeat sample_tracker) ''a'' \<noteq> None"
    by (simp add: sample_tracker_ok)
  from get_state_hides_change [OF this, of "[log_change]" 125] show ?thesis
    by (simp add: sample_tracker_def tracker_register_def new_tracker_def tracker.defs evaluate_one_log
        evaluate_def health_of_def missed_count_def tracker_state_def logged_def
        dict_get_default_def registry_state_def)
qed

end
