(* ===== verification/Simulation.thy ===== *)
theory Simulation
  imports Heartbeat WorkStealing
begin

section \<open>The simulated cluster (mesh/sim)\<close>

text \<open>
  \<^verbatim>\<open>SimAgent\<close>, \<^verbatim>\<open>SimClock\<close>, \<^verbatim>\<open>SimCluster\<close> and \<^verbatim>\<open>ChaosController\<close>, without a job manager: a machine
  that advances in ticks.  Its record extends the tracker's.  A scheduled closure is one of the
  actions the chaos controller builds, or the submission of a task.  The placement method is an
  argument, as the pools read the hour of the day.
\<close>

subsection \<open>Agents (mesh/sim/agent.py)\<close>

record sim_agent =
  sa_node_id :: string
  sa_cpu_cores :: int
  sa_ram_gb :: real
  sa_gpu_count :: int
  sa_vram_gb :: real
  sa_cuda_version :: "string option"
  sa_network_gbps :: real
  sa_battery_pct :: "real option"
  sa_preemptible :: bool
  sa_reliability :: real
  sa_latency_score :: real
  sa_pool :: resource_pool
  sa_location :: string
  sa_hostname :: string
  sa_alive :: bool
  sa_user_active :: bool
  sa_cpu_utilization :: real
  sa_assigned :: "string list"
  sa_partitioned :: bool

definition new_sim_agent :: "string \<Rightarrow> sim_agent" where
  "new_sim_agent nid =
     \<lparr>sa_node_id = nid, sa_cpu_cores = 8, sa_ram_gb = 16, sa_gpu_count = 0, sa_vram_gb = 0,
      sa_cuda_version = None, sa_network_gbps = 1, sa_battery_pct = None, sa_preemptible = False,
      sa_reliability = 8 / 10, sa_latency_score = 9 / 10, sa_pool = POOL_CPU,
      sa_location = ''default'', sa_hostname = nid, sa_alive = True, sa_user_active = False,
      sa_cpu_utilization = 0, sa_assigned = [], sa_partitioned = False\<rparr>"

definition to_node :: "node_state \<Rightarrow> sim_agent \<Rightarrow> node" where
  "to_node st a =
     \<lparr>node_id = sa_node_id a, hostname = sa_hostname a,
      resources =
        \<lparr>cpu_cores_total = sa_cpu_cores a,
         cpu_cores_free =
           (if sa_alive a then max 0 (of_int (sa_cpu_cores a) * (1 - sa_cpu_utilization a)) else 0),
         ram_gb_total = sa_ram_gb a,
         ram_gb_free = (if sa_alive a then sa_ram_gb a * 7 / 10 else 0),
         gpu_count = sa_gpu_count a,
         vram_gb_free = (if sa_alive a then sa_vram_gb a else 0),
         cuda_version = sa_cuda_version a, network_gbps = sa_network_gbps a,
         battery_pct = sa_battery_pct a, cpu_utilization = sa_cpu_utilization a,
         user_active = sa_user_active a\<rparr>,
      node_state = (if sa_alive a then st else DEAD), reliability_score = sa_reliability a,
      latency_score = sa_latency_score a, node_pool = sa_pool a, preemptible = sa_preemptible a,
      location = sa_location a, tags = []\<rparr>"

definition kill :: "sim_agent \<Rightarrow> sim_agent" where
  "kill a = a\<lparr>sa_alive := False\<rparr>"

definition preempt_agent :: "real \<Rightarrow> sim_agent \<Rightarrow> sim_agent" where
  "preempt_agent spike a = a\<lparr>sa_user_active := True, sa_cpu_utilization := spike\<rparr>"

definition drain_battery :: "real \<Rightarrow> sim_agent \<Rightarrow> sim_agent" where
  "drain_battery to_pct a =
     (if sa_battery_pct a = None then a else a\<lparr>sa_battery_pct := Some to_pct\<rparr>)"

subsection \<open>State (mesh/sim/cluster.py)\<close>

datatype sim_action =
    KillNode string
  | PreemptNode string real
  | DrainBattery string real
  | Isolate string string
  | Heal
  | SubmitTask task_spec

record sim = tracker +
  sim_agents :: "sim_agent list"
  sim_time :: real
  tick_interval :: real
  sim_tasks :: "task_spec dict"
  sim_events :: "(real \<times> sim_action) list"
  sim_checkpoints :: "checkpoint dict"
  sim_changes :: "(real \<times> string \<times> node_state \<times> node_state) list"

type_synonym 'a sim_step = "(sim, 'a) py"

definition new_sim :: "sim_agent list \<Rightarrow> real \<Rightarrow> sim" where
  "new_sim agents start =
     fold (\<lambda>a. tracker_register start (sa_node_id a)) agents
       (tracker.extend (new_tracker 2)
          \<lparr>sim_agents = agents, sim_time = start, tick_interval = 1, sim_tasks = [],
           sim_events = [], sim_checkpoints = [], sim_changes = []\<rparr>)"

text \<open>\<^verbatim>\<open>f"NODE-{i:03d}"\<close> and the agents of \<^verbatim>\<open>SimCluster.create\<close>.\<close>

definition digit :: "nat \<Rightarrow> char" where
  "digit n = char_of (48 + n)"

definition node_name :: "nat \<Rightarrow> string" where
  "node_name i = ''NODE-'' @ [digit (i div 100 mod 10), digit (i div 10 mod 10), digit (i mod 10)]"

definition created_agent :: "nat \<Rightarrow> sim_agent" where
  "created_agent i =
     (new_sim_agent (node_name i))
       \<lparr>sa_cpu_cores := 8 + int (i mod 4) * 4, sa_ram_gb := 16 + of_nat (i mod 3) * 16,
        sa_preemptible := (i mod 3 = 0),
        sa_battery_pct := (if i mod 3 = 0 then Some 80 else None),
        sa_reliability := (if i mod 3 = 0 then 6 / 10 else 9 / 10)\<rparr>"

definition create_sim :: "nat \<Rightarrow> real \<Rightarrow> sim" where
  "create_sim n start = new_sim (map created_agent [0..<n]) start"

definition map_agents :: "(sim_agent \<Rightarrow> bool) \<Rightarrow> (sim_agent \<Rightarrow> sim_agent) \<Rightarrow> sim \<Rightarrow> sim" where
  "map_agents p f s = s\<lparr>sim_agents := map (\<lambda>a. if p a then f a else a) (sim_agents s)\<rparr>"

subsection \<open>Live nodes, submission and death\<close>

fun sim_live :: "sim_agent list \<Rightarrow> sim \<Rightarrow> node list \<times> sim" where
  "sim_live [] s = ([], s)"
| "sim_live (a # as) s =
     (if \<not> sa_alive a then sim_live as s
      else
        case registry_state (sim_time s) (sa_node_id a) s of (st, s1) \<Rightarrow>
          case sim_live as s1 of (ns, s2) \<Rightarrow> (to_node st a # ns, s2))"

definition sim_live_nodes :: "sim \<Rightarrow> node list \<times> sim" where
  "sim_live_nodes s = sim_live (sim_agents s) s"

definition sim_submit ::
  "(task_spec \<Rightarrow> node list \<Rightarrow> placement option result) \<Rightarrow> task_spec \<Rightarrow> string option sim_step" where
  "sim_submit pf t s =
     (let s1 = s\<lparr>sim_tasks := dict_set (task_id t) t (sim_tasks s)\<rparr>
      in case sim_live_nodes s1 of (ns, s2) \<Rightarrow>
           case pf t ns of
             Inl e \<Rightarrow> (Inl e, s2)
           | Inr (Some p) \<Rightarrow>
               (Inr (Some (pl_node_id p)),
                map_agents (\<lambda>a. sa_node_id a = pl_node_id p)
                  (\<lambda>a. a\<lparr>sa_assigned := sa_assigned a @ [task_id t]\<rparr>)
                  (s2\<lparr>sim_tasks := dict_set (task_id t)
                        (t\<lparr>assigned_node := Some (pl_node_id p), task_state := T_RUNNING\<rparr>)
                        (sim_tasks s2)\<rparr>))
           | Inr None \<Rightarrow>
               (Inr None, s2\<lparr>sim_tasks := dict_set (task_id t) (t\<lparr>task_state := T_PENDING\<rparr>)
                               (sim_tasks s2)\<rparr>))"

text \<open>
  The work stealer of the simulated cluster has a checkpoint manager of its own, which nobody
  saves to.
\<close>

definition sim_handle_death ::
  "(task_spec \<Rightarrow> node list \<Rightarrow> placement option result) \<Rightarrow> string \<Rightarrow> unit sim_step" where
  "sim_handle_death pf nid s =
     (let s1 = map_agents (\<lambda>a. sa_node_id a = nid) kill s;
          orphaned = find_orphaned_tasks (dict_values (sim_tasks s1)) {nid}
      in if orphaned = [] then (Inr (), s1)
         else
           case sim_live_nodes s1 of (ns, s2) \<Rightarrow>
             case steal pf [] orphaned ns of
               Inl e \<Rightarrow> (Inl e, s2)
             | Inr rs \<Rightarrow>
                 (Inr (), s2\<lparr>sim_tasks := fold (\<lambda>(t, _). dict_set (task_id t) t) rs (sim_tasks s2)\<rparr>))"

definition sim_on_change ::
  "(task_spec \<Rightarrow> node list \<Rightarrow> placement option result) \<Rightarrow> string \<Rightarrow> node_state \<Rightarrow> node_state
     \<Rightarrow> unit sim_step" where
  "sim_on_change pf nid old new s =
     (let s1 = s\<lparr>sim_changes := sim_changes s @ [(sim_time s, nid, old, new)]\<rparr>
      in if new = DEAD then sim_handle_death pf nid s1 else (Inr (), s1))"

subsection \<open>Events (mesh/sim/chaos.py)\<close>

text \<open>\<^verbatim>\<open>schedule_event\<close> appends and sorts by time; the sort is stable.\<close>

definition schedule_event :: "real \<Rightarrow> sim_action \<Rightarrow> sim \<Rightarrow> sim" where
  "schedule_event time a s = s\<lparr>sim_events := sort_key fst (sim_events s @ [(time, a)])\<rparr>"

definition kill_node :: "string \<Rightarrow> real \<Rightarrow> sim \<Rightarrow> sim" where
  "kill_node nid time = schedule_event time (KillNode nid)"

definition preempt_node :: "string \<Rightarrow> real \<Rightarrow> real \<Rightarrow> sim \<Rightarrow> sim" where
  "preempt_node nid time spike = schedule_event time (PreemptNode nid spike)"

definition battery_drain :: "string \<Rightarrow> real \<Rightarrow> real \<Rightarrow> sim \<Rightarrow> sim" where
  "battery_drain nid time to_pct = schedule_event time (DrainBattery nid to_pct)"

definition partition_sites :: "string \<Rightarrow> string \<Rightarrow> real \<Rightarrow> real \<Rightarrow> sim \<Rightarrow> sim" where
  "partition_sites a b time duration s =
     schedule_event (time + duration) Heal (schedule_event time (Isolate a b) s)"

fun perform ::
  "(task_spec \<Rightarrow> node list \<Rightarrow> placement option result) \<Rightarrow> sim_action \<Rightarrow> unit sim_step" where
  "perform pf (KillNode nid) =
     sbind (smodify (map_agents (\<lambda>a. sa_node_id a = nid) kill)) (\<lambda>_.
       force_state [sim_on_change pf] nid DEAD)"
| "perform pf (PreemptNode nid spike) =
     smodify (map_agents (\<lambda>a. sa_node_id a = nid) (preempt_agent spike))"
| "perform pf (DrainBattery nid to_pct) =
     smodify (map_agents (\<lambda>a. sa_node_id a = nid) (drain_battery to_pct))"
| "perform pf (Isolate x y) =
     smodify (map_agents (\<lambda>a. sa_location a \<in> {x, y}) (\<lambda>a. a\<lparr>sa_partitioned := True\<rparr>))"
| "perform pf Heal = smodify (map_agents (\<lambda>_. True) (\<lambda>a. a\<lparr>sa_partitioned := False\<rparr>))"
| "perform pf (SubmitTask t) = sbind (sim_submit pf t) (\<lambda>_. sret ())"

subsection \<open>Ticks\<close>

text \<open>The events that are due are taken from the front one by one.\<close>

definition run_due :: "(task_spec \<Rightarrow> node list \<Rightarrow> placement option result) \<Rightarrow> unit sim_step" where
  "run_due pf s =
     siter (\<lambda>(time, a). sbind (smodify (\<lambda>s. s\<lparr>sim_events := tl (sim_events s)\<rparr>)) (\<lambda>_. perform pf a))
       (takeWhile (\<lambda>(time, a). time \<le> sim_time s) (sim_events s)) s"

definition advance_task :: "real \<Rightarrow> task_spec \<Rightarrow> task_spec" where
  "advance_task dt t =
     (if task_state t = T_RUNNING
      then t\<lparr>task_progress := min (total_work t) (task_progress t + dt)\<rparr> else t)"

definition complete_task :: "task_spec \<Rightarrow> task_spec" where
  "complete_task t =
     (if task_state t = T_RUNNING \<and> total_work t \<le> task_progress t
      then t\<lparr>task_state := T_COMPLETED\<rparr> else t)"

definition save_running :: "real \<Rightarrow> task_spec list \<Rightarrow> checkpoint dict \<Rightarrow> checkpoint dict" where
  "save_running now ts cps =
     fold (\<lambda>t cps. if task_state t = T_RUNNING \<and> task_checkpoint t
                    then snd (save_checkpoint t None now cps) else cps) ts cps"

definition map_tasks :: "(task_spec \<Rightarrow> task_spec) \<Rightarrow> task_spec dict \<Rightarrow> task_spec dict" where
  "map_tasks f d = map (\<lambda>(tid, t). (tid, f t)) d"

definition work_tasks :: "real \<Rightarrow> sim \<Rightarrow> sim" where
  "work_tasks now s =
     (let moved = map_tasks (advance_task (tick_interval s)) (sim_tasks s)
      in s\<lparr>sim_tasks := map_tasks complete_task moved,
           sim_checkpoints := save_running now (dict_values moved) (sim_checkpoints s)\<rparr>)"

definition tick :: "(task_spec \<Rightarrow> node list \<Rightarrow> placement option result) \<Rightarrow> unit sim_step" where
  "tick pf s =
     sbind (run_due pf) (\<lambda>_.
     sbind (\<lambda>s. siter (\<lambda>a. sbind (registry_heartbeat [sim_on_change pf] (sim_time s) (sa_node_id a))
                     (\<lambda>_. sret ())) (filter sa_alive (sim_agents s)) s) (\<lambda>_.
     sbind (\<lambda>s. evaluate_all [sim_on_change pf] (sim_time s) s) (\<lambda>_.
       smodify (work_tasks (sim_time s))))) s"

text \<open>\<^verbatim>\<open>run(until)\<close> with fuel; \<open>None\<close> is that the fuel did not suffice.\<close>

fun sim_run ::
  "nat \<Rightarrow> (task_spec \<Rightarrow> node list \<Rightarrow> placement option result) \<Rightarrow> real \<Rightarrow> sim \<Rightarrow> (unit result \<times> sim) option" where
  "sim_run 0 pf until s = None"
| "sim_run (Suc n) pf until s =
     (if sim_time s < until
      then
        case tick pf s of
          (Inl e, s1) \<Rightarrow> Some (Inl e, s1)
        | (Inr _, s1) \<Rightarrow> sim_run n pf until (s1\<lparr>sim_time := sim_time s1 + tick_interval s1\<rparr>)
      else Some (Inr (), s))"

subsection \<open>What a tick keeps\<close>

text \<open>
  A predicate that does not depend on the tracker, the agents, the log of changes and the
  events, and that the handling of a death and the allowed submissions keep.
\<close>

locale sim_frame = tracker_frame P for P :: "sim \<Rightarrow> bool" +
  fixes pf :: "task_spec \<Rightarrow> node list \<Rightarrow> placement option result"
    and allowed :: "task_spec \<Rightarrow> bool"
  assumes P_agents: "P s \<Longrightarrow> P (s\<lparr>sim_agents := as\<rparr>)"
    and P_changes: "P s \<Longrightarrow> P (s\<lparr>sim_changes := ch\<rparr>)"
    and P_events: "P s \<Longrightarrow> P (s\<lparr>sim_events := tl (sim_events s)\<rparr>)"
    and P_death: "P s \<Longrightarrow> P (snd (sim_handle_death pf nid s))"
    and P_submit: "P s \<Longrightarrow> allowed t \<Longrightarrow> P (snd (sim_submit pf t s))"
    and P_work: "P s \<Longrightarrow> P (work_tasks now s)"
begin

lemma on_change_P: "P s \<Longrightarrow> P (snd (sim_on_change pf nid old new s))"
  by (simp add: sim_on_change_def Let_def P_changes P_death)

lemma map_agents_P: "P s \<Longrightarrow> P (map_agents p f s)"
  by (simp add: map_agents_def P_agents)

lemma perform_P:
  assumes "P s" and "\<And>t. a = SubmitTask t \<Longrightarrow> allowed t"
  shows "P (snd (perform pf a s))"
proof (cases a)
  case (KillNode nid)
  have dead: "P (snd (force_state [sim_on_change pf] nid DEAD s))" if "P s" for s
    using that by (intro force_state_P) (simp_all add: on_change_P)
  show ?thesis
    unfolding KillNode perform.simps
    by (rule sbind_keeps [where P = P, OF assms(1)]) (simp_all add: map_agents_P dead)
next
  case (SubmitTask t)
  show ?thesis
    unfolding SubmitTask perform.simps
    by (rule sbind_keeps [where P = P, OF assms(1)]) (simp_all add: P_submit assms(2) SubmitTask)
qed (use assms in \<open>simp_all add: map_agents_P\<close>)

lemma tick_P:
  assumes "P s" and "\<And>time t. (time, SubmitTask t) \<in> set (sim_events s) \<Longrightarrow> allowed t"
  shows "P (snd (tick pf s))"
proof -
  have due: "P (snd (run_due pf s))"
    unfolding run_due_def
  proof (rule siter_keeps_on [where P = P, OF assms(1)])
    fix x s'
    assume x: "x \<in> set (takeWhile (\<lambda>(time, a). time \<le> sim_time s) (sim_events s))" and s': "P s'"
    obtain time a where "x = (time, a)" by fastforce
    with x have a: "x = (time, a)" "(time, a) \<in> set (sim_events s)"
      using set_takeWhileD by fastforce+
    show "P (snd ((case x of (time, a) \<Rightarrow>
        sbind (smodify (\<lambda>s. s\<lparr>sim_events := tl (sim_events s)\<rparr>)) (\<lambda>_. perform pf a)) s'))"
      unfolding a(1) prod.case
      by (rule sbind_keeps [where P = P, OF s']) (use a(2) assms(2) in \<open>auto simp: P_events intro: perform_P\<close>)
  qed
  have beats: "P (snd (siter (\<lambda>a. sbind (registry_heartbeat [sim_on_change pf] now (sa_node_id a))
      (\<lambda>_. sret ())) as s))" if "P s" for as now s
    using that
    by (intro siter_keeps_on [where P = P] sbind_keeps [where P = P] registry_heartbeat_P)
      (simp_all add: on_change_P)
  have passes: "P (snd (evaluate_all [sim_on_change pf] now s))" if "P s" for now s
    using that by (intro evaluate_all_P) (simp_all add: on_change_P)
  obtain r s1 where r: "run_due pf s = (r, s1)" by fastforce
  have "P (snd (sbind (\<lambda>s. siter (\<lambda>a. sbind (registry_heartbeat [sim_on_change pf] (sim_time s) (sa_node_id a))
                     (\<lambda>_. sret ())) (filter sa_alive (sim_agents s)) s) (\<lambda>_.
     sbind (\<lambda>s. evaluate_all [sim_on_change pf] (sim_time s) s) (\<lambda>_.
       smodify (work_tasks (sim_time s)))) s1))"
    using due r by (intro sbind_keeps [where P = P] beats passes) (simp_all add: P_work)
  then show ?thesis
    using due r by (cases r) (simp_all add: tick_def sbind_Inl sbind_Inr)
qed

end

subsection \<open>A run ends\<close>

lemma sim_live_states: "\<exists>sts. snd (sim_live as s) = s\<lparr>states := sts\<rparr>"
proof (induction as arbitrary: s)
  case Nil
  have "s = s\<lparr>states := states s\<rparr>" by simp
  then show ?case by (metis sim_live.simps(1) snd_conv)
next
  case (Cons a as)
  obtain st s1 where ev: "evaluate (sim_time s) (sa_node_id a) s = (st, s1)" by fastforce
  then have "\<exists>sts. s1 = s\<lparr>states := sts\<rparr>"
    by (auto simp: evaluate_def split: if_splits intro: exI [of _ "states s"])
  then show ?case
    using Cons.IH [of s] Cons.IH [of s1] ev
    by (auto simp: registry_state_def split: prod.split)
qed

lemma sim_live_nodesE:
  obtains ns sts where "sim_live_nodes s = (ns, s\<lparr>states := sts\<rparr>)"
  using sim_live_states [of "sim_agents s" s] that unfolding sim_live_nodes_def by (metis prod.collapse)

interpretation clocked: sim_frame "\<lambda>s. sim_time s = now \<and> tick_interval s = dt" pf "\<lambda>_. True"
  for now dt pf
proof unfold_locales
  fix s :: sim and nid t
  assume s: "sim_time s = now \<and> tick_interval s = dt"
  obtain ns sts where live: "sim_live_nodes (map_agents (\<lambda>a. sa_node_id a = nid) kill s)
      = (ns, (map_agents (\<lambda>a. sa_node_id a = nid) kill s)\<lparr>states := sts\<rparr>)"
    by (rule sim_live_nodesE)
  show "sim_time (snd (sim_handle_death pf nid s)) = now \<and> tick_interval (snd (sim_handle_death pf nid s)) = dt"
    using s live by (simp add: sim_handle_death_def map_agents_def Let_def split: sum.split)
  obtain ns' sts' where "sim_live_nodes (s\<lparr>sim_tasks := dict_set (task_id t) t (sim_tasks s)\<rparr>)
      = (ns', s\<lparr>sim_tasks := dict_set (task_id t) t (sim_tasks s), states := sts'\<rparr>)"
    by (rule sim_live_nodesE [of "s\<lparr>sim_tasks := dict_set (task_id t) t (sim_tasks s)\<rparr>"]) simp
  then show "sim_time (snd (sim_submit pf t s)) = now \<and> tick_interval (snd (sim_submit pf t s)) = dt"
    using s by (simp add: sim_submit_def map_agents_def Let_def split: sum.split option.split)
qed (simp_all add: work_tasks_def Let_def)

text \<open>
  A run of the simulator ends: with a positive tick one more step than the ticks that fit between
  the clock and the end of the run is enough fuel, and a run that raises nothing ends at or
  after the end.
\<close>

lemma sim_run_terminates:
  assumes "0 < tick_interval s"
  shows "\<exists>res s'. sim_run (Suc (nat \<lceil>(until - sim_time s) / tick_interval s\<rceil>)) pf until s = Some (res, s')
    \<and> (res = Inr () \<longrightarrow> until \<le> sim_time s')"
proof -
  have "\<exists>res s'. sim_run (Suc n) pf until s = Some (res, s') \<and> (res = Inr () \<longrightarrow> until \<le> sim_time s')"
    if "until - sim_time s \<le> of_nat n * tick_interval s" for n
    using that assms
  proof (induction n arbitrary: s)
    case 0
    then show ?case by simp
  next
    case (Suc n)
    obtain r s1 where t: "tick pf s = (r, s1)" by fastforce
    have s1: "sim_time s1 = sim_time s" "tick_interval s1 = tick_interval s"
      using clocked.tick_P [of s "sim_time s" "tick_interval s" pf] t by simp_all
    let ?s2 = "s1\<lparr>sim_time := sim_time s1 + tick_interval s1\<rparr>"
    have "until - sim_time ?s2 \<le> of_nat n * tick_interval ?s2" "0 < tick_interval ?s2"
      using Suc.prems by (simp_all add: s1 algebra_simps)
    from Suc.IH [OF this] show ?case
      using t by (cases r) (auto simp del: sim_run.simps simp: sim_run.simps(2) [of "Suc n"])
  qed
  moreover have "until - sim_time s \<le> of_nat (nat \<lceil>(until - sim_time s) / tick_interval s\<rceil>) * tick_interval s"
    using assms by (simp add: pos_divide_le_eq [symmetric] real_nat_ceiling_ge)
  ultimately show ?thesis by blast
qed

subsection \<open>A pending task is never placed\<close>

text \<open>The table of tasks lists each task under its identifier.\<close>

definition tasks_keyed :: "task_spec dict \<Rightarrow> bool" where
  "tasks_keyed d \<longleftrightarrow> dict_ok d \<and> (\<forall>(tid, t) \<in> set d. task_id t = tid)"

definition submits_other :: "string \<Rightarrow> (real \<times> sim_action) list \<Rightarrow> bool" where
  "submits_other tid evs \<longleftrightarrow> (\<forall>(time, a) \<in> set evs. \<forall>t. a = SubmitTask t \<longrightarrow> task_id t \<noteq> tid)"

definition waits :: "task_spec \<Rightarrow> sim \<Rightarrow> bool" where
  "waits t s \<longleftrightarrow> task_state t = T_PENDING \<and> tasks_keyed (sim_tasks s) \<and> dict_get (sim_tasks s) (task_id t) = Some t
     \<and> submits_other (task_id t) (sim_events s)"

lemma submits_other_tl: "submits_other tid evs \<Longrightarrow> submits_other tid (tl evs)"
  by (cases evs) (auto simp: submits_other_def)

lemma tasks_keyed_set:
  "tasks_keyed d \<Longrightarrow> task_id t = tid \<Longrightarrow> tasks_keyed (dict_set tid t d)"
proof -
  assume "tasks_keyed d" and "task_id t = tid"
  moreover have "set (dict_set tid t d) \<subseteq> insert (tid, t) (set d)"
    by (induction d) auto
  ultimately show ?thesis by (auto simp: tasks_keyed_def)
qed

lemma tasks_keyed_fold:
  assumes "tasks_keyed d" and "\<forall>(t, x) \<in> set rs. task_id t \<noteq> tid"
  shows "tasks_keyed (fold (\<lambda>(t, _). dict_set (task_id t) t) rs d)
    \<and> dict_get (fold (\<lambda>(t, _). dict_set (task_id t) t) rs d) tid = dict_get d tid"
  using assms
  by (induction rs arbitrary: d) (auto simp: tasks_keyed_set)

lemma steal_loop_ids:
  "steal_loop pf cps healthy ts used = Inr rs \<Longrightarrow> map (\<lambda>(t, x). task_id t) rs = map task_id ts"
  by (induction ts arbitrary: used rs) (auto simp: Let_def ebind_eq_Inr split: option.splits)

lemma map_tasks_waits:
  assumes "tasks_keyed d" and "dict_get d tid = Some t" and "\<And>t. task_id (f t) = task_id t" and "f t = t"
  shows "tasks_keyed (map_tasks f d) \<and> dict_get (map_tasks f d) tid = Some t"
proof -
  have "dict_get (map_tasks f d) tid = map_option f (dict_get d tid)"
    by (induction d) (auto simp: map_tasks_def)
  moreover have "dict_keys (map_tasks f d) = dict_keys d"
    by (auto simp: map_tasks_def)
  moreover have "\<forall>(tid, t) \<in> set (map_tasks f d). task_id t = tid"
    using assms(1,3) by (auto simp: tasks_keyed_def map_tasks_def)
  ultimately show ?thesis
    using assms by (simp add: tasks_keyed_def dict_ok_def)
qed

interpretation waiting: sim_frame "\<lambda>s. waits t s" pf "\<lambda>u. task_id u \<noteq> task_id t" for t pf
proof unfold_locales
  fix s :: sim and nid
  assume w: "waits t s"
  let ?s1 = "map_agents (\<lambda>a. sa_node_id a = nid) kill s"
  obtain ns sts where live: "sim_live_nodes ?s1 = (ns, ?s1\<lparr>states := sts\<rparr>)"
    by (rule sim_live_nodesE)
  have other: "task_id u \<noteq> task_id t" if "u \<in> set (find_orphaned_tasks (dict_values (sim_tasks s)) {nid})" for u
  proof
    assume id: "task_id u = task_id t"
    obtain k where "(k, u) \<in> set (sim_tasks s)" "task_state u \<noteq> T_PENDING"
      using \<open>u \<in> _\<close> by (auto simp: find_orphaned_tasks_def is_orphan_def orphan_states_def)
    moreover have "k = task_id u" "dict_get (sim_tasks s) k = Some u"
      using w \<open>(k, u) \<in> _\<close> by (auto simp: waits_def tasks_keyed_def dict_ok_def)
    ultimately show False
      using w id by (simp add: waits_def)
  qed
  have "\<forall>(u, x) \<in> set rs. task_id u \<noteq> task_id t"
    if "steal pf [] (find_orphaned_tasks (dict_values (sim_tasks s)) {nid}) ns = Inr rs" for rs
  proof -
    have "(\<lambda>(u, x). task_id u) ` set rs
        = task_id ` set (find_orphaned_tasks (dict_values (sim_tasks s)) {nid})"
      using steal_loop_ids [OF that [unfolded steal_def]] by (metis list.set_map)
    then show ?thesis using other by force
  qed
  then show "waits t (snd (sim_handle_death pf nid s))"
    using w live tasks_keyed_fold [of "sim_tasks s" _ "task_id t"]
    by (simp add: sim_handle_death_def map_agents_def waits_def Let_def split: sum.split) blast
next
  fix s :: sim and u :: task_spec
  assume w: "waits t s" "task_id u \<noteq> task_id t"
  let ?s1 = "s\<lparr>sim_tasks := dict_set (task_id u) u (sim_tasks s)\<rparr>"
  obtain ns sts where "sim_live_nodes ?s1 = (ns, ?s1\<lparr>states := sts\<rparr>)"
    by (rule sim_live_nodesE)
  then show "waits t (snd (sim_submit pf u s))"
    using w by (simp add: sim_submit_def map_agents_def waits_def tasks_keyed_set Let_def
        split: sum.split option.split)
next
  fix s :: sim and now
  assume w: "waits t s"
  let ?d = "map_tasks (advance_task (tick_interval s)) (sim_tasks s)"
  have "tasks_keyed ?d \<and> dict_get ?d (task_id t) = Some t"
    using w by (intro map_tasks_waits) (simp_all add: waits_def advance_task_def)
  then have "tasks_keyed (map_tasks complete_task ?d)
      \<and> dict_get (map_tasks complete_task ?d) (task_id t) = Some t"
    using w by (intro map_tasks_waits) (simp_all add: waits_def complete_task_def)
  then show "waits t (work_tasks now s)"
    using w by (simp add: waits_def work_tasks_def Let_def)
qed (simp_all add: waits_def submits_other_tl)

text \<open>
  A pending task is never placed: no tick, death, recovery or submission of another task changes
  a task of the simulator that is pending, however long the simulation runs.
\<close>

lemma pending_is_never_placed:
  assumes "task_state t = T_PENDING" and "tasks_keyed (sim_tasks s)"
    and "dict_get (sim_tasks s) (task_id t) = Some t" and "submits_other (task_id t) (sim_events s)"
    and "sim_run n pf until s = Some (res, s')"
  shows "dict_get (sim_tasks s') (task_id t) = Some t"
proof -
  have "waits t s \<Longrightarrow> sim_run n pf until s = Some (res, s') \<Longrightarrow> waits t s'" for n s
  proof (induction n arbitrary: s)
    case (Suc n)
    obtain r s1 where tick: "tick pf s = (r, s1)" by fastforce
    have "task_id u \<noteq> task_id t" if "(time, SubmitTask u) \<in> set (sim_events s)" for time u
      using Suc.prems(1) that by (fastforce simp: waits_def submits_other_def)
    then have s1: "waits t s1"
      using waiting.tick_P [OF Suc.prems(1)] tick by (metis snd_conv)
    then have "waits t (s1\<lparr>sim_time := sim_time s1 + tick_interval s1\<rparr>)"
      by (simp add: waits_def)
    then show ?case
      using Suc.IH Suc.prems s1 tick by (cases r) (auto split: if_splits)
  qed simp
  then show ?thesis
    using assms by (auto simp: waits_def)
qed

text \<open>Three agents, and a task that asks for more cores than any of them has.\<close>

definition big_task :: task_spec where
  "big_task = sample_task ''t'' 100"

definition stuck_sim :: sim where
  "stuck_sim = snd (sim_submit (place default_engine 12) big_task (create_sim 3 0))"

lemma stuck_sim_facts:
  "dict_get (sim_tasks stuck_sim) ''t'' = Some big_task \<and> sim_events stuck_sim = []
   \<and> dict_keys (sim_tasks stuck_sim) = [''t''] \<and> sim_run 3 (place default_engine 12) 2 stuck_sim \<noteq> None"
  by code_simp

lemma pending_is_never_placed_witness:
  "\<exists>res s'. sim_run 3 (place default_engine 12) 2 stuck_sim = Some (res, s')
     \<and> dict_get (sim_tasks s') ''t'' = Some big_task"
proof -
  obtain res s' where run: "sim_run 3 (place default_engine 12) 2 stuck_sim = Some (res, s')"
    using stuck_sim_facts by auto
  have big: "task_state big_task = T_PENDING" "task_id big_task = ''t''"
    by (simp_all add: big_task_def sample_defs)
  have "tasks_keyed (sim_tasks stuck_sim)"
    using stuck_sim_facts big(2) by (auto simp: tasks_keyed_def dict_ok_def map_eq_Cons_conv)
  then show ?thesis
    using pending_is_never_placed [OF big(1) _ _ _ run] stuck_sim_facts run
    by (auto simp: big(2) submits_other_def)
qed

lemma sim_run_terminates_witness:
  "\<exists>res s'. sim_run (Suc (nat \<lceil>(2 - sim_time stuck_sim) / tick_interval stuck_sim\<rceil>))
     (place default_engine 12) 2 stuck_sim = Some (res, s')"
proof -
  have "0 < tick_interval stuck_sim"
    by code_simp
  from sim_run_terminates [OF this] show ?thesis by blast
qed

end
