(* ===== verification/Cluster.thy ===== *)
theory Cluster
  imports Heartbeat Checkpoints Placement
begin

section \<open>Cluster state of the driver (mesh/driver/cluster.py)\<close>

text \<open>
  \<^verbatim>\<open>DriverCluster\<close>: registered nodes with their remote agents, the tasks, and the health registry,
  whose tracker the record extends.  Task objects are shared between the cluster, the job
  manager and the running threads and are updated in place, so they live in a store
  (\<open>task_heap\<close>) and a table of tasks holds references.  A remote agent is its address; what its
  stubs answer is an argument of the operations that call them.  The placement method is an
  argument too, and is the engine's \<open>place\<close> in the properties.
\<close>

type_synonym ref = nat

record cluster = tracker +
  nodes :: "node dict"
  remote_agents :: "string dict"
  checkpoints :: "checkpoint dict"
  tasks :: "ref dict"
  task_heap :: "task_spec list"
  state_changes :: "(real \<times> string \<times> node_state \<times> node_state) list"

type_synonym place_method = "task_spec \<Rightarrow> node list \<Rightarrow> placement option result"

definition new_cluster :: "real \<Rightarrow> cluster" where
  "new_cluster interval = tracker.extend (new_tracker interval)
     \<lparr>nodes = [], remote_agents = [], checkpoints = [], tasks = [], task_heap = [],
      state_changes = []\<rparr>"

subsection \<open>Task objects\<close>

definition deref :: "'a cluster_scheme \<Rightarrow> ref \<Rightarrow> task_spec" where
  "deref s r = task_heap s ! r"

definition update_task :: "ref \<Rightarrow> (task_spec \<Rightarrow> task_spec) \<Rightarrow> 'a cluster_scheme \<Rightarrow> 'a cluster_scheme" where
  "update_task r f s = s\<lparr>task_heap := (task_heap s)[r := f (task_heap s ! r)]\<rparr>"

definition alloc_task :: "task_spec \<Rightarrow> 'a cluster_scheme \<Rightarrow> ref \<times> 'a cluster_scheme" where
  "alloc_task t s = (length (task_heap s), s\<lparr>task_heap := task_heap s @ [t]\<rparr>)"

subsection \<open>Nodes\<close>

definition register_node :: "real \<Rightarrow> node \<Rightarrow> string option \<Rightarrow> 'a cluster_scheme \<Rightarrow> 'a cluster_scheme" where
  "register_node now n remote s =
     (let s1 = s\<lparr>nodes := dict_set (node_id n) n (nodes s)\<rparr>;
          s2 = tracker_register now (node_id n) s1
      in case remote of
           None \<Rightarrow> s2
         | Some addr \<Rightarrow> s2\<lparr>remote_agents := dict_set (node_id n) addr (remote_agents s2)\<rparr>)"

definition update_node_resources ::
  "string \<Rightarrow> node_resources \<Rightarrow> string \<Rightarrow> 'a cluster_scheme \<Rightarrow> 'a cluster_scheme" where
  "update_node_resources nid res metrics s =
     (case dict_get (nodes s) nid of
        None \<Rightarrow> s
      | Some n \<Rightarrow>
          let tg = (if metrics \<noteq> [] then dict_set ''host_metrics'' metrics (tags n) else tags n)
          in s\<lparr>nodes := dict_set nid (n\<lparr>resources := res, tags := tg\<rparr>) (nodes s)\<rparr>)"

definition update_node_state :: "string \<Rightarrow> node_state \<Rightarrow> 'a cluster_scheme \<Rightarrow> 'a cluster_scheme" where
  "update_node_state nid st s =
     (case dict_get (nodes s) nid of
        None \<Rightarrow> s
      | Some n \<Rightarrow> s\<lparr>nodes := dict_set nid (n\<lparr>node_state := st\<rparr>) (nodes s)\<rparr>)"

definition get_node :: "string \<Rightarrow> 'a cluster_scheme \<Rightarrow> node option" where
  "get_node nid s = dict_get (nodes s) nid"

definition is_remote :: "string \<Rightarrow> 'a cluster_scheme \<Rightarrow> bool" where
  "is_remote nid s = (dict_get (remote_agents s) nid \<noteq> None)"

definition get_remote :: "string \<Rightarrow> 'a cluster_scheme \<Rightarrow> string option" where
  "get_remote nid s = dict_get (remote_agents s) nid"

definition remove_node :: "string \<Rightarrow> 'a cluster_scheme \<Rightarrow> 'a cluster_scheme" where
  "remove_node nid s =
     mark_dead nid (s\<lparr>nodes := dict_pop nid (nodes s),
                      remote_agents := dict_pop nid (remote_agents s)\<rparr>)"

subsection \<open>Health\<close>

text \<open>
  The callback of the registry: it records the change with the time and hands a death to the
  attached job manager, if there is one.
\<close>

definition on_state_change ::
  "(string \<Rightarrow> ('a cluster_scheme, unit) py) option \<Rightarrow> real \<Rightarrow> string \<Rightarrow> node_state \<Rightarrow> node_state
     \<Rightarrow> ('a cluster_scheme, unit) py" where
  "on_state_change death now nid old new s =
     (let s1 = s\<lparr>state_changes := state_changes s @ [(now, nid, old, new)]\<rparr>
      in case death of
           Some handle \<Rightarrow> if new = DEAD then handle nid s1 else (Inr (), s1)
         | None \<Rightarrow> (Inr (), s1))"

definition record_heartbeat ::
  "(string \<Rightarrow> ('a cluster_scheme, unit) py) option \<Rightarrow> real \<Rightarrow> string \<Rightarrow> ('a cluster_scheme, node_state) py" where
  "record_heartbeat death now nid = registry_heartbeat [on_state_change death now] now nid"

definition evaluate_health ::
  "(string \<Rightarrow> ('a cluster_scheme, unit) py) option \<Rightarrow> real \<Rightarrow> ('a cluster_scheme, node_state dict) py" where
  "evaluate_health death now = evaluate_all [on_state_change death now] now"

text \<open>
  \<^verbatim>\<open>live_nodes\<close> asks the registry for every node's state, which evaluates it and stores the
  verdict, and drops the dead ones.
\<close>

fun live_loop :: "real \<Rightarrow> node dict \<Rightarrow> 'a cluster_scheme \<Rightarrow> node list \<times> 'a cluster_scheme" where
  "live_loop now [] s = ([], s)"
| "live_loop now ((nid, n) # rest) s =
     (case registry_state now nid s of (st, s1) \<Rightarrow>
        case live_loop now rest s1 of (ns, s2) \<Rightarrow> (n\<lparr>node_state := st\<rparr> # ns, s2))"

definition live_nodes :: "real \<Rightarrow> 'a cluster_scheme \<Rightarrow> node list \<times> 'a cluster_scheme" where
  "live_nodes now s =
     (case live_loop now (nodes s) s of (ns, s1) \<Rightarrow>
        (filter (\<lambda>n. node_state n \<noteq> DEAD) ns, s1))"

definition aggregate_cpu_utilization_pct :: "node list \<Rightarrow> real \<Rightarrow> int \<Rightarrow> real" where
  "aggregate_cpu_utilization_pct ns extra_util extra_cores =
     (let weighted = (\<Sum>n \<leftarrow> ns. cpu_utilization (resources n) * of_int (cpu_cores_total (resources n)));
          cores = (\<Sum>n \<leftarrow> ns. cpu_cores_total (resources n));
          weighted' = (if 0 < extra_cores then weighted + extra_util * of_int extra_cores else weighted);
          cores' = (if 0 < extra_cores then cores + extra_cores else cores)
      in if cores' = 0 then 0 else py_round 1 (weighted' / of_int cores' * 100))"

subsection \<open>Submission\<close>

text \<open>The object \<open>r\<close> is entered under its identifier before it is placed.\<close>

definition cluster_submit :: "place_method \<Rightarrow> real \<Rightarrow> ref \<Rightarrow> ('a cluster_scheme, string option) py" where
  "cluster_submit pf now r s =
     (let s1 = s\<lparr>tasks := dict_set (task_id (deref s r)) r (tasks s)\<rparr>
      in case live_nodes now s1 of (ns, s2) \<Rightarrow>
           case pf (deref s2 r) ns of
             Inl e \<Rightarrow> (Inl e, s2)
           | Inr (Some p) \<Rightarrow>
               (Inr (Some (pl_node_id p)),
                update_task r (\<lambda>t. t\<lparr>assigned_node := Some (pl_node_id p), task_state := T_RUNNING\<rparr>) s2)
           | Inr None \<Rightarrow> (Inr None, update_task r (\<lambda>t. t\<lparr>task_state := T_PENDING\<rparr>) s2))"

definition count_tasks :: "task_state \<Rightarrow> 'a cluster_scheme \<Rightarrow> int" where
  "count_tasks st s =
     int (length (filter (\<lambda>r. task_state (deref s r) = st) (dict_values (tasks s))))"

definition count_nodes :: "node_state \<Rightarrow> 'a cluster_scheme \<Rightarrow> int" where
  "count_nodes st s = int (length (filter (\<lambda>n. node_state n = st) (dict_values (nodes s))))"

definition cluster_stats :: "real \<Rightarrow> 'a cluster_scheme \<Rightarrow> pyval dict \<times> 'a cluster_scheme" where
  "cluster_stats now s =
     (case live_nodes now s of (live, s1) \<Rightarrow>
        ([(''total_nodes'', PInt (int (length (nodes s1)))),
          (''healthy_nodes'', PInt (count_nodes HEALTHY s1)),
          (''suspected_nodes'', PInt (count_nodes SUSPECTED s1)),
          (''dead_nodes'', PInt (count_nodes DEAD s1)),
          (''total_cpu_cores'', PInt (\<Sum>n \<leftarrow> live. cpu_cores_total (resources n))),
          (''free_cpu_cores'', PFloat (\<Sum>n \<leftarrow> live. cpu_cores_free (resources n))),
          (''total_ram_gb'', PFloat (\<Sum>n \<leftarrow> live. ram_gb_total (resources n))),
          (''free_ram_gb'', PFloat (\<Sum>n \<leftarrow> live. ram_gb_free (resources n))),
          (''total_gpus'', PInt (\<Sum>n \<leftarrow> live. gpu_count (resources n))),
          (''tasks_running'', PInt (count_tasks T_RUNNING s1)),
          (''tasks_completed'', PInt (count_tasks T_COMPLETED s1)),
          (''active_tasks'', PInt (count_tasks T_RUNNING s1 + count_tasks T_PENDING s1)),
          (''active_jobs'', PInt 0)], s1))"

subsection \<open>Facts\<close>

lemma evaluate_cluster [simp]:
  "cluster.more (snd (evaluate now nid s)) = cluster.more s"
  "nodes (snd (evaluate now nid s)) = nodes s"
  "remote_agents (snd (evaluate now nid s)) = remote_agents s"
  "checkpoints (snd (evaluate now nid s)) = checkpoints s"
  "tasks (snd (evaluate now nid s)) = tasks s"
  "task_heap (snd (evaluate now nid s)) = task_heap s"
  "state_changes (snd (evaluate now nid s)) = state_changes s"
  by (simp_all add: evaluate_def)

lemma live_loop_Cons:
  "live_loop now ((nid, n) # rest) s =
     (n\<lparr>node_state := fst (evaluate now nid s)\<rparr> # fst (live_loop now rest (snd (evaluate now nid s))),
      snd (live_loop now rest (snd (evaluate now nid s))))"
  by (simp add: registry_state_def case_prod_beta)

lemma dict_induct [case_names Nil Cons]:
  "P [] \<Longrightarrow> (\<And>k v d. P d \<Longrightarrow> P ((k, v) # d)) \<Longrightarrow> P d"
  by (induction d) auto

lemma live_loop_frame [simp]:
  "cluster.more (snd (live_loop now ns s)) = cluster.more s"
  "nodes (snd (live_loop now ns s)) = nodes s"
  "remote_agents (snd (live_loop now ns s)) = remote_agents s"
  "checkpoints (snd (live_loop now ns s)) = checkpoints s"
  "tasks (snd (live_loop now ns s)) = tasks s"
  "task_heap (snd (live_loop now ns s)) = task_heap s"
  "state_changes (snd (live_loop now ns s)) = state_changes s"
  by (induction ns arbitrary: s rule: dict_induct)
    (simp_all only: live_loop_Cons live_loop.simps(1) snd_conv evaluate_cluster)

lemma live_loop_nodes:
  "fst (live_loop now ns s) = map (\<lambda>(nid, n). n\<lparr>node_state := fst (evaluate now nid s)\<rparr>) ns"
proof (induction ns arbitrary: s)
  case (Cons x ns)
  obtain nid n where x: "x = (nid, n)" by fastforce
  show ?case
    by (simp add: x live_loop_Cons Cons.IH del: live_loop.simps(2))
qed simp

lemma live_nodes_eq:
  "live_nodes now s =
     (filter (\<lambda>n. node_state n \<noteq> DEAD)
        (map (\<lambda>(nid, n). n\<lparr>node_state := fst (evaluate now nid s)\<rparr>) (nodes s)),
      snd (live_loop now (nodes s) s))"
  by (simp add: live_nodes_def live_loop_nodes [symmetric] case_prod_beta)

lemma live_nodes_frame [simp]:
  "cluster.more (snd (live_nodes now s)) = cluster.more s"
  "nodes (snd (live_nodes now s)) = nodes s"
  "remote_agents (snd (live_nodes now s)) = remote_agents s"
  "checkpoints (snd (live_nodes now s)) = checkpoints s"
  "tasks (snd (live_nodes now s)) = tasks s"
  "task_heap (snd (live_nodes now s)) = task_heap s"
  by (simp_all add: live_nodes_eq)

end
