(* ===== verification/JobManager.thy ===== *)
theory JobManager
  imports Cluster WorkStealing Replication Speculation StateStore Rebalancing
begin

section \<open>Job manager (mesh/driver/job_manager.py)\<close>

text \<open>
  \<^verbatim>\<open>JobManager\<close> over a \<^verbatim>\<open>DriverCluster\<close>: submission, dispatch to remote agents and local threads,
  completion and failure, cancellation, preemption, node death, speculation, rebalancing and
  resumption from the durable store.  Its record extends the cluster's.  Jobs are objects in a
  store too (\<open>job_heap\<close>): a running task keeps the job object it was started for.

  The environment of an operation gives the clock reading, the placement method, what the
  remote agents answer, the identifiers that are drawn, the text of an exception, and what the
  other threads do to the state while an operation sleeps.  The calls that are made to remote
  agents and the threads that are started are kept in two logs.
\<close>

record running_task =
  run_spec :: ref
  run_job :: ref
  run_remote :: bool

record assignment =
  as_task_id :: string
  as_job_id :: string
  as_task_name :: string
  as_cpu_cores :: real
  as_ram_gb :: real
  as_gpu_count :: int
  as_checkpoint :: bool
  as_checkpoint_interval :: real
  as_total_work :: real
  as_resume_progress :: real
  as_resume_state :: "pyval dict"

datatype rpc =
    AssignTask string assignment
  | PauseTask string string
  | CancelTask string string

datatype rpc_reply = Ack bool string | RpcError string

record job_manager = cluster +
  jobs :: "ref dict"
  job_heap :: "job list"
  job_tasks :: "ref list dict"
  idempotency :: "string dict"
  running :: "running_task dict"
  interrupts :: "bool dict"
  speculator :: speculation
  registry :: "string dict"
  state_store :: "sqlite_store option"
  leadership_check :: "bool option"
  rpc_log :: "rpc list"
  thread_log :: "ref list"

record jm_env =
  e_now :: real
  e_place :: place_method
  e_reply :: "rpc \<Rightarrow> rpc_reply"
  e_others :: "job_manager \<Rightarrow> job_manager"
  e_message :: "py_error \<Rightarrow> string"

type_synonym jm = "(job_manager, unit) py"

definition new_manager :: "real \<Rightarrow> sqlite_store option \<Rightarrow> bool option \<Rightarrow> job_manager" where
  "new_manager interval store leader = cluster.extend (new_cluster interval)
     \<lparr>jobs = [], job_heap = [], job_tasks = [], idempotency = [], running = [], interrupts = [],
      speculator = new_speculation, registry = [], state_store = store, leadership_check = leader,
      rpc_log = [], thread_log = []\<rparr>"

subsection \<open>Objects\<close>

definition job_at :: "job_manager \<Rightarrow> ref \<Rightarrow> job" where
  "job_at s r = job_heap s ! r"

definition update_job :: "ref \<Rightarrow> (job \<Rightarrow> job) \<Rightarrow> job_manager \<Rightarrow> job_manager" where
  "update_job r f s = s\<lparr>job_heap := (job_heap s)[r := f (job_heap s ! r)]\<rparr>"

definition alloc_job :: "job \<Rightarrow> job_manager \<Rightarrow> ref \<times> job_manager" where
  "alloc_job j s = (length (job_heap s), s\<lparr>job_heap := job_heap s @ [j]\<rparr>)"

definition specs_of :: "string \<Rightarrow> job_manager \<Rightarrow> ref list" where
  "specs_of jid s = dict_get_default (job_tasks s) jid []"

text \<open>The first job whose task list has a task of this identifier.\<close>

fun job_listing :: "job_manager \<Rightarrow> ref list dict \<Rightarrow> string \<Rightarrow> string option" where
  "job_listing s [] tid = None"
| "job_listing s ((jid, refs) # rest) tid =
     (if tid \<in> set (map (\<lambda>r. task_id (deref s r)) refs) then Some jid
      else job_listing s rest tid)"

definition find_job_for_task :: "job_manager \<Rightarrow> ref \<Rightarrow> ref option" where
  "find_job_for_task s r =
     (case task_job_id (deref s r) of
        Some (c # cs) \<Rightarrow> dict_get (jobs s) (c # cs)
      | _ \<Rightarrow>
          (case job_listing s (job_tasks s) (task_id (deref s r)) of
             None \<Rightarrow> None
           | Some jid \<Rightarrow> dict_get (jobs s) jid))"

subsection \<open>Persistence\<close>

definition can_write :: "job_manager \<Rightarrow> bool" where
  "can_write s = (case leadership_check s of None \<Rightarrow> True | Some leader \<Rightarrow> leader)"

definition write_store :: "(sqlite_store \<Rightarrow> sqlite_store) \<Rightarrow> job_manager \<Rightarrow> job_manager" where
  "write_store f s =
     (case state_store s of
        None \<Rightarrow> s
      | Some st \<Rightarrow> if can_write s then s\<lparr>state_store := Some (f st)\<rparr> else s)"

definition persist_job :: "ref \<Rightarrow> jm" where
  "persist_job jr = smodify (\<lambda>s. write_store (sql_save_job (job_at s jr)) s)"

definition persist_task :: "ref \<Rightarrow> jm" where
  "persist_task r = smodify (\<lambda>s.
     write_store (\<lambda>st.
       let st1 = sql_save_task (deref s r) st
       in case load_checkpoint (checkpoints s) (task_id (deref s r)) of
            None \<Rightarrow> st1
          | Some cp \<Rightarrow> sql_save_checkpoint cp st1) s)"

subsection \<open>Calls to agents\<close>

definition interrupt_local :: "string \<Rightarrow> job_manager \<Rightarrow> job_manager" where
  "interrupt_local tid s =
     (case dict_get (interrupts s) tid of
        None \<Rightarrow> s
      | Some _ \<Rightarrow> s\<lparr>interrupts := dict_set tid True (interrupts s)\<rparr>)"

definition call_agent :: "jm_env \<Rightarrow> rpc \<Rightarrow> (job_manager, rpc_reply) py" where
  "call_agent env c s = (Inr (e_reply env c), s\<lparr>rpc_log := rpc_log s @ [c]\<rparr>)"

text \<open>A pause or a cancellation goes to the agent of the assigned node or to the local executor.\<close>

definition signal_task :: "(string \<Rightarrow> string \<Rightarrow> rpc) \<Rightarrow> jm_env \<Rightarrow> ref \<Rightarrow> jm" where
  "signal_task mk env r s =
     (let t = deref s r in
      case assigned_node t of
        Some (c # cs) \<Rightarrow>
          if is_remote (c # cs) s
          then sbind (call_agent env (mk (c # cs) (task_id t))) (\<lambda>reply.
                 case reply of
                   Ack ok msg \<Rightarrow> sret ()
                 | RpcError msg \<Rightarrow> slift (Inl (RuntimeError msg))) s
          else (Inr (), interrupt_local (task_id t) s)
      | _ \<Rightarrow> (Inr (), interrupt_local (task_id t) s))"

definition pause_task :: "jm_env \<Rightarrow> ref \<Rightarrow> jm" where
  "pause_task = signal_task PauseTask"

definition cancel_task :: "jm_env \<Rightarrow> ref \<Rightarrow> jm" where
  "cancel_task = signal_task CancelTask"

definition pop_running :: "string \<Rightarrow> job_manager \<Rightarrow> job_manager" where
  "pop_running tid s = s\<lparr>running := dict_pop tid (running s)\<rparr>"

subsection \<open>Completion and failure\<close>

text \<open>The other replicas that are still active, as references.\<close>

definition active_others :: "job_manager \<Rightarrow> string \<Rightarrow> ref list \<Rightarrow> ref list" where
  "active_others s tid refs =
     filter (\<lambda>r. task_id (deref s r) \<noteq> tid \<and> task_state (deref s r) \<in> active_states) refs"

definition on_task_complete :: "jm_env \<Rightarrow> ref \<Rightarrow> ref \<Rightarrow> pyval \<Rightarrow> jm" where
  "on_task_complete env r jr res =
     sbind (\<lambda>s. (Inr (task_id (deref s r)), pop_running (task_id (deref s r)) s)) (\<lambda>tid.
     sbind (smodify (\<lambda>s. s\<lparr>speculator := clear tid (speculator s)\<rparr>)) (\<lambda>_.
     sbind (\<lambda>s. case duplicate_id tid (speculator s) of
              None \<Rightarrow> (Inr (), s)
            | Some dup \<Rightarrow>
                (case dict_get (tasks s) dup of
                   None \<Rightarrow> (Inl KeyError, s)
                 | Some d \<Rightarrow> cancel_task env d s)) (\<lambda>_.
     sbind (\<lambda>s. let specs = specs_of (job_id (job_at s jr)) s in
              if 1 < length specs
              then sbind (smodify (update_job jr
                            (\<lambda>j. fst (on_replica_complete j (deref s r) (map (deref s) specs)))))
                     (\<lambda>_. siter (\<lambda>other. sbind (cancel_task env other) (\<lambda>_.
                              smodify (update_task other (\<lambda>t. t\<lparr>task_state := T_FAILED\<rparr>))))
                            (active_others s tid specs)) s
              else smodify (update_job jr (\<lambda>j. j\<lparr>job_state := J_COMPLETED\<rparr>)) s) (\<lambda>_.
     sbind (smodify (update_job jr (\<lambda>j. j\<lparr>job_result := res\<rparr>))) (\<lambda>_.
     sbind (persist_task r) (\<lambda>_. persist_job jr))))))"

text \<open>When the last replica of a replicated job fails, the method returns before it persists.\<close>

definition on_task_failed :: "ref \<Rightarrow> ref \<Rightarrow> string \<Rightarrow> jm" where
  "on_task_failed r jr err =
     sbind (\<lambda>s. (Inr (task_id (deref s r)), pop_running (task_id (deref s r)) s)) (\<lambda>tid.
     sbind (smodify (\<lambda>s. s\<lparr>speculator := clear tid (speculator s)\<rparr>)) (\<lambda>_.
     \<lambda>s. let specs = specs_of (job_id (job_at s jr)) s in
         if 1 < length specs
         then
           (case on_replica_failure (job_at s jr) (deref s r) (map (deref s) specs) of
              (go_on, j') \<Rightarrow>
                let s1 = update_job jr (\<lambda>_. j') s
                in if \<not> go_on then (Inr (), s1)
                   else sbind (persist_task r) (\<lambda>_. persist_job jr) s1)
         else
           sbind (persist_task r) (\<lambda>_. persist_job jr)
             (update_job jr (\<lambda>j. j\<lparr>job_state := J_FAILED, job_error := Some err\<rparr>) s)))"

subsection \<open>Dispatch\<close>

definition assignment_for :: "job_manager \<Rightarrow> ref \<Rightarrow> assignment" where
  "assignment_for s r =
     (let t = deref s r; cp = load_checkpoint (checkpoints s) (task_id t) in
      \<lparr>as_task_id = task_id t,
       as_job_id = (case task_job_id t of None \<Rightarrow> [] | Some j \<Rightarrow> j),
       as_task_name = task_name t,
       as_cpu_cores = cpu_cores_req (task_requirements t),
       as_ram_gb = ram_gb_req (task_requirements t),
       as_gpu_count = gpu_count_req (task_requirements t),
       as_checkpoint = task_checkpoint t,
       as_checkpoint_interval = checkpoint_interval t,
       as_total_work = total_work t,
       as_resume_progress = (case cp of None \<Rightarrow> task_progress t | Some c \<Rightarrow> cp_progress c),
       as_resume_state = (case cp of None \<Rightarrow> state_data t | Some c \<Rightarrow> cp_state_data c)\<rparr>)"

definition dispatch_remote :: "jm_env \<Rightarrow> ref \<Rightarrow> ref \<Rightarrow> jm" where
  "dispatch_remote env r jr s =
     (let t = deref s r; tid = task_id t in
      case assigned_node t of
        None \<Rightarrow> (Inr (), s)
      | Some nid \<Rightarrow>
          if get_remote nid s = None then (Inr (), s)
          else if dict_get (running s) tid \<noteq> None then (Inr (), s)
          else
            sbind (call_agent env (AssignTask nid (assignment_for s r))) (\<lambda>reply.
              let fail = (\<lambda>msg.
                    sbind (smodify (update_task r (\<lambda>t. t\<lparr>task_state := T_FAILED\<rparr>))) (\<lambda>_.
                    sbind (on_task_failed r jr msg) (\<lambda>_.
                      smodify (pop_running tid))))
              in case reply of
                   Ack ok msg \<Rightarrow> if ok then sret () else fail msg
                 | RpcError msg \<Rightarrow> fail msg)
              (s\<lparr>running := dict_set tid \<lparr>run_spec = r, run_job = jr, run_remote = True\<rparr> (running s)\<rparr>))"

definition start_local_execution :: "ref \<Rightarrow> ref \<Rightarrow> job_manager \<Rightarrow> job_manager" where
  "start_local_execution r jr s =
     (let t = deref s r in
      if task_fn t = None then s
      else if dict_get (running s) (task_id t) \<noteq> None then s
      else s\<lparr>running := dict_set (task_id t) \<lparr>run_spec = r, run_job = jr, run_remote = False\<rparr> (running s),
             thread_log := thread_log s @ [r]\<rparr>)"

definition dispatch :: "jm_env \<Rightarrow> ref \<Rightarrow> ref \<Rightarrow> jm" where
  "dispatch env r jr =
     sbind (smodify (\<lambda>s. s\<lparr>speculator := record_start (e_now env) (task_id (deref s r)) (speculator s)\<rparr>))
       (\<lambda>_ s. let remote = (case assigned_node (deref s r) of
                              Some (c # cs) \<Rightarrow> is_remote (c # cs) s
                            | _ \<Rightarrow> False)
              in if remote then dispatch_remote env r jr s
                 else if task_fn (deref s r) \<noteq> None then (Inr (), start_local_execution r jr s)
                 else (Inr (), s))"

end
