(* ===== verification/Sdk.thy ===== *)
theory Sdk
  imports Samples
begin

section \<open>The task decorator and its units (mesh/sdk)\<close>

text \<open>
  Parsing of sizes, bandwidths and pool names (\<^verbatim>\<open>units.py\<close>) and the task object the decorator
  builds (\<^verbatim>\<open>decorator.py\<close>).  The regular expressions are read as the functions they denote on
  ASCII text: a longest run of digits and dots, white space, and letters up to the end.
\<close>

subsection \<open>Text\<close>

definition is_upper :: "char \<Rightarrow> bool" where
  "is_upper c \<longleftrightarrow> of_char c \<ge> (65::nat) \<and> of_char c \<le> (90::nat)"

definition is_lower :: "char \<Rightarrow> bool" where
  "is_lower c \<longleftrightarrow> of_char c \<ge> (97::nat) \<and> of_char c \<le> (122::nat)"

definition is_letter :: "char \<Rightarrow> bool" where
  "is_letter c \<longleftrightarrow> is_upper c \<or> is_lower c"

definition upper :: "string \<Rightarrow> string" where
  "upper s = map (\<lambda>c. if is_lower c then char_of (of_char c - (32::nat)) else c) s"

definition lower :: "string \<Rightarrow> string" where
  "lower s = map (\<lambda>c. if is_upper c then char_of (of_char c + (32::nat)) else c) s"

text \<open>\<open>s.replace(p, "")\<close> for a non-empty \<open>p\<close>.\<close>

fun remove_all :: "string \<Rightarrow> string \<Rightarrow> string" where
  "remove_all p [] = []"
| "remove_all p (c # s) =
     (if take (length p) (c # s) = p then remove_all p (drop (length p - 1) s)
      else c # remove_all p s)"

definition num_char :: "char \<Rightarrow> bool" where
  "num_char c \<longleftrightarrow> is_digit c \<or> c = CHR ''.''"

text \<open>The groups of \<^verbatim>\<open>^([\d.]+)\s*(unit*)$\<close>, where \<open>ok\<close> says what a unit is made of.\<close>

definition split_quantity :: "(char \<Rightarrow> bool) \<Rightarrow> string \<Rightarrow> (string \<times> string) option" where
  "split_quantity ok s =
     (let num = takeWhile num_char s;
          unit = dropWhile is_space (dropWhile num_char s)
      in if num = [] \<or> \<not> list_all ok unit then None else Some (num, unit))"

subsection \<open>Units (mesh/sdk/units.py)\<close>

text \<open>A number, or a text to parse.\<close>

datatype quantity = Number real | Text string

definition unit_factors :: "(string \<times> real) list" where
  "unit_factors =
     [(''B'', 1 / 1024 ^ 3), (''KB'', 1 / 1024 ^ 2), (''MB'', 1 / 1024), (''GB'', 1), (''TB'', 1024),
      (''K'', 1 / 1000), (''M'', 1), (''G'', 1000), (''T'', 1000000)]"

fun parse_bytes :: "quantity \<Rightarrow> real result" where
  "parse_bytes (Number x) = Inr x"
| "parse_bytes (Text v) =
     (case split_quantity is_letter (strip v) of
        None \<Rightarrow> Inl ValueError
      | Some (num, unit) \<Rightarrow>
          if unit = [] then Inl ValueError
          else
            (case dict_get unit_factors (upper unit) of
               None \<Rightarrow> Inl ValueError
             | Some k \<Rightarrow> ebind (py_float num) (\<lambda>x. Inr (x * k))))"

definition bandwidth_unit :: "string \<Rightarrow> string" where
  "bandwidth_unit unit =
     remove_all ''S'' (remove_all ''BIT'' (remove_all ''BPS''
       (upper (if unit = [] then ''Gbps'' else unit))))"

fun parse_bandwidth :: "quantity \<Rightarrow> real result" where
  "parse_bandwidth (Number x) = Inr x"
| "parse_bandwidth (Text v) =
     (case split_quantity (\<lambda>c. is_letter c \<or> c = CHR ''/'') (strip v) of
        None \<Rightarrow> Inl ValueError
      | Some (num, unit) \<Rightarrow>
          ebind (py_float num) (\<lambda>x.
            let u = bandwidth_unit unit in
            if u \<in> {''G'', ''GB'', []} then Inr x
            else if u \<in> {''M'', ''MB''} then Inr (x / 1000)
            else if u \<in> {''K'', ''KB''} then Inr (x / 1000000)
            else if u \<in> {''T'', ''TB''} then Inr (x * 1000)
            else Inl ValueError))"

datatype pool_arg = NoPool | Pool resource_pool | PoolName string

definition pool_value :: "string \<Rightarrow> resource_pool result" where
  "pool_value v =
     (if v = ''cpu'' then Inr POOL_CPU
      else if v = ''memory'' then Inr POOL_MEMORY
      else if v = ''gpu'' then Inr POOL_GPU
      else if v = ''night'' then Inr POOL_NIGHT
      else Inl ValueError)"

fun parse_pool :: "pool_arg \<Rightarrow> resource_pool option result" where
  "parse_pool NoPool = Inr None"
| "parse_pool (Pool p) = Inr (Some p)"
| "parse_pool (PoolName v) = ebind (pool_value (lower v)) (\<lambda>p. Inr (Some p))"

subsection \<open>MeshTask and the decorator (mesh/sdk/decorator.py)\<close>

record mesh_task =
  mt_fn :: string
  mt_name :: string
  mt_requirements :: requirements
  mt_pool :: "resource_pool option"
  mt_replicas :: int
  mt_checkpoint :: bool
  mt_checkpoint_interval :: real
  mt_preemption_ok :: bool
  mt_total_work :: real

definition to_spec :: "mesh_task \<Rightarrow> string \<Rightarrow> string option \<Rightarrow> int \<Rightarrow> task_spec" where
  "to_spec m tid jid idx =
     (new_task_spec (mt_name m) tid)
       \<lparr>task_requirements := mt_requirements m, task_pool := mt_pool m, replicas := mt_replicas m,
        task_checkpoint := mt_checkpoint m, checkpoint_interval := mt_checkpoint_interval m,
        preemption_ok := mt_preemption_ok m, total_work := mt_total_work m, task_job_id := jid,
        replica_index := idx, task_fn := Some (mt_fn m)\<rparr>"

text \<open>The keyword arguments of the decorator.\<close>

record task_args =
  arg_cpu :: real
  arg_ram :: quantity
  arg_gpu :: int
  arg_vram :: quantity
  arg_cuda :: "string option"
  arg_network :: quantity
  arg_pool :: pool_arg
  arg_replicas :: int
  arg_checkpoint :: bool
  arg_checkpoint_interval :: real
  arg_preemption_ok :: bool
  arg_total_work :: real
  arg_name :: "string option"

definition task_decorator :: "task_args \<Rightarrow> string \<Rightarrow> string \<Rightarrow> mesh_task result" where
  "task_decorator a fn fn_name =
     ebind (parse_bytes (arg_ram a)) (\<lambda>ram.
     ebind (parse_bytes (arg_vram a)) (\<lambda>vram.
     ebind (parse_bandwidth (arg_network a)) (\<lambda>net.
     ebind (parse_pool (arg_pool a)) (\<lambda>pool.
       Inr \<lparr>mt_fn = fn,
            mt_name = (case arg_name a of Some (c # cs) \<Rightarrow> c # cs | _ \<Rightarrow> fn_name),
            mt_requirements = default_requirements
              \<lparr>cpu_cores_req := arg_cpu a, ram_gb_req := ram, gpu_count_req := arg_gpu a,
               vram_gb_req := vram, cuda_version_req := arg_cuda a, network_gbps_req := net\<rparr>,
            mt_pool = pool, mt_replicas = arg_replicas a, mt_checkpoint = arg_checkpoint a,
            mt_checkpoint_interval = arg_checkpoint_interval a,
            mt_preemption_ok = arg_preemption_ok a, mt_total_work = arg_total_work a\<rparr>))))"

subsection \<open>What a size means\<close>

lemma num_char_not_space: "num_char c \<Longrightarrow> \<not> is_space c"
  by (auto simp: num_char_def is_digit_def is_space_def)

lemma letter_not_num: "is_letter c \<Longrightarrow> \<not> num_char c \<and> \<not> is_space c"
  by (auto simp: is_letter_def is_upper_def is_lower_def num_char_def is_digit_def is_space_def)

lemma space_not_num: "is_space c \<Longrightarrow> \<not> num_char c"
  using num_char_not_space by blast

lemma strip_ends:
  assumes "s \<noteq> []" and "\<not> is_space (hd s)" and "\<not> is_space (last s)"
  shows "strip s = s"
proof -
  have "dropWhile is_space s = s"
    using assms(1,2) by (cases s) auto
  moreover have "dropWhile is_space (rev s) = rev s"
    using assms(1,3) by (metis dropWhile_eq_self_iff hd_rev)
  ultimately show ?thesis by (simp add: strip_def)
qed

lemma split_at_change:
  assumes "list_all P xs" and "ys \<noteq> []" and "\<not> P (hd ys)"
  shows "takeWhile P (xs @ ys) = xs" and "dropWhile P (xs @ ys) = ys"
  using assms by (induction xs) (cases ys; simp)+

lemma split_quantity_parts:
  assumes "num \<noteq> []" and "list_all num_char num" and "list_all is_space gap"
    and "unit \<noteq> []" and "list_all is_letter unit"
  shows "split_quantity is_letter (strip (num @ gap @ unit)) = Some (num, unit)"
proof -
  let ?s = "num @ gap @ unit"
  have "num_char (hd num)" "is_letter (last unit)" "is_letter (hd unit)"
    using assms by (simp_all add: list_all_iff)
  then have "strip ?s = ?s"
    using assms(1,4) num_char_not_space letter_not_num by (intro strip_ends) auto
  moreover have rest: "gap @ unit \<noteq> []" "\<not> num_char (hd (gap @ unit))"
    using assms(3,4) \<open>is_letter (hd unit)\<close> letter_not_num space_not_num
    by (auto simp: hd_append list_all_iff)
  have "takeWhile num_char ?s = num" "dropWhile num_char ?s = gap @ unit"
    using split_at_change [OF assms(2) rest] by simp_all
  moreover have "dropWhile is_space (gap @ unit) = unit"
    using split_at_change(2) [OF assms(3,4)] \<open>is_letter (hd unit)\<close> letter_not_num by blast
  ultimately show ?thesis
    using assms(1,5) by (simp add: split_quantity_def)
qed

text \<open>
  A size text of a number, any white space and letters means the number times the factor of
  the unit, the case of the letters aside; a unit that is not known raises.
\<close>

lemma parse_bytes_meaning:
  assumes "num \<noteq> []" and "list_all num_char num" and "list_all is_space gap"
    and "unit \<noteq> []" and "list_all is_letter unit"
  shows "parse_bytes (Text (num @ gap @ unit)) =
    (case dict_get unit_factors (upper unit) of
       None \<Rightarrow> Inl ValueError
     | Some k \<Rightarrow> ebind (py_float num) (\<lambda>x. Inr (x * k)))"
  using split_quantity_parts [OF assms] assms(4) by simp

lemma parse_bytes_meaning_witness:
  "parse_bytes (Text ''1.5 gb'') = Inr (3 / 2) \<and> parse_bytes (Text ''512 MB'') = Inr (1 / 2)"
proof -
  have n: "py_float ''1.5'' = Inr (3 / 2)" "py_float ''512'' = Inr 512"
    "upper ''gb'' = ''GB''" "upper ''MB'' = ''MB''"
    by code_simp+
  have c: "list_all num_char ''1.5''" "list_all num_char ''512''" "list_all is_space '' ''"
    "list_all is_letter ''gb''" "list_all is_letter ''MB''"
    by code_simp+
  show ?thesis
    using parse_bytes_meaning [OF _ c(1,3) _ c(4)] parse_bytes_meaning [OF _ c(2,3) _ c(5)]
    by (simp add: n unit_factors_def)
qed

end
