(* ===== verification/Executor.thy ===== *)
theory Executor
  imports Checkpoints "HOL-Library.Sublist"
begin

section \<open>Task execution (mesh/execution/executor.py)\<close>

text \<open>
  \<^verbatim>\<open>TaskContext\<close> and \<^verbatim>\<open>TaskExecutor\<close>.  The body of a user task is a program over the context:
  what it calls on the context, what it reads from it, and how it ends.  Other threads act
  through the environment: \<open>clock k\<close> is the \<open>k\<close>-th reading of the clock and \<open>is_set k\<close> what the
  \<open>k\<close>-th look at the interrupt event sees.

  Saving a checkpoint stores the context's own state dictionary, not a copy, unless it is
  empty (\<^verbatim>\<open>state_data or {}\<close>).  The flag \<open>ctx_shared\<close> records that the stored checkpoint of the
  task is this object, so that updating the state also updates the checkpoint.
\<close>

datatype body =
    Return pyval
  | Raise py_error
  | SetProgress real "pyval dict" body
  | SaveCheckpoint "pyval dict" body
  | ReadState "pyval dict \<Rightarrow> body"
  | ReadProgress "real \<Rightarrow> body"

datatype outcome = Returned pyval | Interrupted | Raised py_error

record task_ctx =
  ctx_spec :: task_spec
  ctx_checkpoints :: "checkpoint dict"
  ctx_total_work :: real
  ctx_progress :: real
  ctx_state :: "pyval dict"
  last_checkpoint_at :: real
  ctx_shared :: bool
  clock_reads :: nat
  event_looks :: nat

definition dict_update :: "'v dict \<Rightarrow> 'v dict \<Rightarrow> 'v dict" where
  "dict_update d new = fold (\<lambda>(k, v). dict_set k v) new d"

definition new_ctx :: "task_spec \<Rightarrow> checkpoint dict \<Rightarrow> task_ctx" where
  "new_ctx spec cps =
     \<lparr>ctx_spec = spec, ctx_checkpoints = cps, ctx_total_work = total_work spec, ctx_progress = 0,
      ctx_state = [], last_checkpoint_at = 0, ctx_shared = False, clock_reads = 0, event_looks = 0\<rparr>"

definition restore_from_checkpoint :: "task_ctx \<Rightarrow> bool \<times> task_ctx" where
  "restore_from_checkpoint c =
     (case load_checkpoint (ctx_checkpoints c) (task_id (ctx_spec c)) of
        None \<Rightarrow> (False, c)
      | Some cp \<Rightarrow>
          (True, c\<lparr>ctx_progress := cp_progress cp, ctx_state := cp_state_data cp,
                   ctx_spec := (ctx_spec c)\<lparr>task_progress := cp_progress cp,
                                            state_data := cp_state_data cp\<rparr>,
                   ctx_shared := False\<rparr>))"

text \<open>\<^verbatim>\<open>self._state.update(state)\<close>, seen through the checkpoint too when that is the same object.\<close>

definition update_state :: "pyval dict \<Rightarrow> task_ctx \<Rightarrow> task_ctx" where
  "update_state st c =
     (if st = [] then c
      else
        let new = dict_update (ctx_state c) st; tid = task_id (ctx_spec c)
        in c\<lparr>ctx_state := new,
             ctx_spec := (ctx_spec c)\<lparr>state_data := new\<rparr>,
             ctx_checkpoints :=
               (if ctx_shared c
                then AList.map_entry tid (\<lambda>cp. cp\<lparr>cp_state_data := new\<rparr>) (ctx_checkpoints c)
                else ctx_checkpoints c)\<rparr>)"

definition checkpoint_now :: "(nat \<Rightarrow> real) \<Rightarrow> pyval dict \<Rightarrow> task_ctx \<Rightarrow> task_ctx" where
  "checkpoint_now clock st c =
     (let c1 = update_state st c;
          spec = (ctx_spec c1)\<lparr>task_progress := ctx_progress c1\<rparr>;
          k = clock_reads c1
      in c1\<lparr>ctx_spec := spec,
            ctx_checkpoints :=
              snd (save_checkpoint spec (Some (ctx_state c1)) (clock k) (ctx_checkpoints c1)),
            ctx_shared := (ctx_state c1 \<noteq> []),
            last_checkpoint_at := clock (k + 1),
            clock_reads := k + 2\<rparr>)"

text \<open>The first component tells that \<^verbatim>\<open>TaskInterrupted\<close> was raised.\<close>

definition check_interrupt ::
  "(nat \<Rightarrow> real) \<Rightarrow> (nat \<Rightarrow> bool) \<Rightarrow> task_ctx \<Rightarrow> bool \<times> task_ctx" where
  "check_interrupt clock is_set c =
     (let c1 = c\<lparr>event_looks := event_looks c + 1\<rparr>
      in if is_set (event_looks c) then (True, checkpoint_now clock [] c1) else (False, c1))"

definition set_progress ::
  "(nat \<Rightarrow> real) \<Rightarrow> (nat \<Rightarrow> bool) \<Rightarrow> real \<Rightarrow> pyval dict \<Rightarrow> task_ctx \<Rightarrow> bool \<times> task_ctx" where
  "set_progress clock is_set v st c =
     (case check_interrupt clock is_set c of (stop, c1) \<Rightarrow>
        if stop then (True, c1)
        else
          let p = min v (ctx_total_work c1);
              c2 = c1\<lparr>ctx_progress := p, ctx_spec := (ctx_spec c1)\<lparr>task_progress := p\<rparr>\<rparr>;
              c3 = update_state st c2
          in if task_checkpoint (ctx_spec c3)
             then
               let k = clock_reads c3; c4 = c3\<lparr>clock_reads := k + 1\<rparr>
               in if checkpoint_interval (ctx_spec c4) \<le> clock k - last_checkpoint_at c4
                  then (False, checkpoint_now clock [] c4)
                  else (False, c4)
             else (False, c3))"

primrec run_body ::
  "(nat \<Rightarrow> real) \<Rightarrow> (nat \<Rightarrow> bool) \<Rightarrow> body \<Rightarrow> task_ctx \<Rightarrow> outcome \<times> task_ctx" where
  "run_body clock is_set (Return v) = (\<lambda>c. (Returned v, c))"
| "run_body clock is_set (Raise e) = (\<lambda>c. (Raised e, c))"
| "run_body clock is_set (SetProgress v st b) =
     (\<lambda>c. case set_progress clock is_set v st c of (stop, c1) \<Rightarrow>
        if stop then (Interrupted, c1) else run_body clock is_set b c1)"
| "run_body clock is_set (SaveCheckpoint st b) =
     (\<lambda>c. run_body clock is_set b (checkpoint_now clock st c))"
| "run_body clock is_set (ReadState k) =
     (\<lambda>c. (\<lambda>x. run_body clock is_set (k x)) (ctx_state c) c)"
| "run_body clock is_set (ReadProgress k) =
     (\<lambda>c. (\<lambda>x. run_body clock is_set (k x)) (ctx_progress c) c)"

subsection \<open>TaskExecutor\<close>

text \<open>
  A callable: the parameters \<^verbatim>\<open>inspect.signature\<close> shows (name and the text of the annotation, if
  there is one; \<open>None\<close> where it raises), the body it runs with a context, and what it does
  when it is called without one.
\<close>

record task_callable =
  fn_params :: "(string \<times> string option) list option"
  fn_body :: body
  fn_plain :: "pyval result"

definition accepts_context :: "task_callable \<Rightarrow> bool" where
  "accepts_context fn =
     (case fn_params fn of
        None \<Rightarrow> False
      | Some [] \<Rightarrow> False
      | Some ((name, ann) # _) \<Rightarrow>
          name \<in> {''ctx'', ''context''}
          \<or> (case ann of None \<Rightarrow> False | Some a \<Rightarrow> sublist ''TaskContext'' a))"

text \<open>The executor keeps the checkpoints and, per running task, whether its event is set.\<close>

record task_executor =
  exec_checkpoints :: "checkpoint dict"
  exec_interrupts :: "bool dict"

definition interrupt :: "string \<Rightarrow> task_executor \<Rightarrow> task_executor" where
  "interrupt tid x =
     (case dict_get (exec_interrupts x) tid of
        None \<Rightarrow> x
      | Some _ \<Rightarrow> x\<lparr>exec_interrupts := dict_set tid True (exec_interrupts x)\<rparr>)"

definition clear_interrupt :: "string \<Rightarrow> task_executor \<Rightarrow> task_executor" where
  "clear_interrupt tid x =
     (case dict_get (exec_interrupts x) tid of
        None \<Rightarrow> x
      | Some _ \<Rightarrow> x\<lparr>exec_interrupts := dict_set tid False (exec_interrupts x)\<rparr>)"

text \<open>
  \<^verbatim>\<open>execute\<close>: what the call gives its caller (an interrupted task returns \<^verbatim>\<open>None\<close> and an exception
  of the body leaves the call), the task object afterwards, and the executor.  The event is
  registered before the body and removed in the \<^verbatim>\<open>finally\<close> clause on every way out.
\<close>

definition run_callable ::
  "(nat \<Rightarrow> real) \<Rightarrow> (nat \<Rightarrow> bool) \<Rightarrow> task_callable \<Rightarrow> task_ctx \<Rightarrow> outcome \<times> task_ctx" where
  "run_callable clock is_set fn c =
     (if accepts_context fn then run_body clock is_set (fn_body fn) c
      else (case fn_plain fn of Inl e \<Rightarrow> (Raised e, c) | Inr v \<Rightarrow> (Returned v, c)))"

definition finish_spec :: "task_spec \<Rightarrow> task_spec" where
  "finish_spec spec =
     (if task_progress spec < total_work spec then spec\<lparr>task_progress := total_work spec\<rparr> else spec)
       \<lparr>task_state := T_COMPLETED\<rparr>"

definition start_ctx :: "task_spec \<Rightarrow> task_executor \<Rightarrow> task_ctx" where
  "start_ctx spec x = snd (restore_from_checkpoint (new_ctx spec (exec_checkpoints x)))"

definition execute ::
  "(nat \<Rightarrow> real) \<Rightarrow> (nat \<Rightarrow> bool) \<Rightarrow> task_callable \<Rightarrow> task_spec \<Rightarrow> task_executor
     \<Rightarrow> pyval result \<times> task_spec \<times> task_executor" where
  "execute clock is_set fn spec x =
     (let x1 = x\<lparr>exec_interrupts := dict_set (task_id spec) False (exec_interrupts x)\<rparr>
      in case run_callable clock is_set fn (start_ctx spec x) of (out, c) \<Rightarrow>
           let x2 = x1\<lparr>exec_checkpoints := ctx_checkpoints c,
                       exec_interrupts := dict_pop (task_id spec) (exec_interrupts x1)\<rparr>
           in case out of
                Returned v \<Rightarrow> (Inr v, finish_spec (ctx_spec c), x2)
              | Interrupted \<Rightarrow> (Inr PNone, ctx_spec c, x2)
              | Raised e \<Rightarrow> (Inl e, ctx_spec c, x2))"

subsection \<open>Invariant of a context\<close>

text \<open>
  The context, the task object and the stored checkpoint agree: the progress never exceeds the
  work, and a shared checkpoint holds the current state.
\<close>

definition ctx_ok :: "string \<Rightarrow> task_ctx \<Rightarrow> bool" where
  "ctx_ok tid c \<longleftrightarrow>
     task_id (ctx_spec c) = tid
     \<and> total_work (ctx_spec c) = ctx_total_work c
     \<and> ctx_progress c \<le> ctx_total_work c
     \<and> task_progress (ctx_spec c) \<le> ctx_total_work c
     \<and> (ctx_shared c \<longrightarrow>
          (\<exists>cp. dict_get (ctx_checkpoints c) tid = Some cp \<and> cp_state_data cp = ctx_state c))
     \<and> (\<forall>cp. dict_get (ctx_checkpoints c) tid = Some cp \<longrightarrow> cp_progress cp \<le> ctx_total_work c)"

lemma map_of_map_entry' [simp]:
  "dict_get (AList.map_entry k f d) k' = (if k' = k then map_option f (dict_get d k) else dict_get d k')"
  by (induction d) auto

lemma update_state_frame [simp]:
  "task_id (ctx_spec (update_state st c)) = task_id (ctx_spec c)"
  "task_state (ctx_spec (update_state st c)) = task_state (ctx_spec c)"
  "total_work (ctx_spec (update_state st c)) = total_work (ctx_spec c)"
  "task_progress (ctx_spec (update_state st c)) = task_progress (ctx_spec c)"
  "ctx_total_work (update_state st c) = ctx_total_work c"
  "ctx_progress (update_state st c) = ctx_progress c"
  "ctx_shared (update_state st c) = ctx_shared c"
  "tid' \<noteq> task_id (ctx_spec c) \<Longrightarrow>
     dict_get (ctx_checkpoints (update_state st c)) tid' = dict_get (ctx_checkpoints c) tid'"
  by (simp_all add: update_state_def Let_def)

lemma update_state_ok: "ctx_ok tid c \<Longrightarrow> ctx_ok tid (update_state st c)"
  by (auto simp: ctx_ok_def update_state_def Let_def)

text \<open>What a checkpoint leaves: the store, the task object and the context agree.\<close>

definition checkpointed :: "string \<Rightarrow> task_ctx \<Rightarrow> bool" where
  "checkpointed tid c \<longleftrightarrow>
     task_progress (ctx_spec c) = ctx_progress c
     \<and> (\<exists>cp. dict_get (ctx_checkpoints c) tid = Some cp \<and> cp_task_id cp = tid
           \<and> cp_progress cp = ctx_progress c \<and> cp_state_data cp = ctx_state c)"

lemma checkpoint_now_ok:
  assumes "ctx_ok tid c"
  shows "ctx_ok tid (checkpoint_now clock st c)" and "checkpointed tid (checkpoint_now clock st c)"
    and "task_state (ctx_spec (checkpoint_now clock st c)) = task_state (ctx_spec c)"
    and "ctx_total_work (checkpoint_now clock st c) = ctx_total_work c"
  using update_state_ok [OF assms, of st]
  by (auto simp: checkpoint_now_def Let_def save_checkpoint_def ctx_ok_def checkpointed_def)

lemma set_progress_ok:
  assumes "ctx_ok tid c" and "set_progress clock is_set v st c = (stop, c')"
  shows "ctx_ok tid c' \<and> (stop \<longrightarrow> checkpointed tid c')
    \<and> task_state (ctx_spec c') = task_state (ctx_spec c)
    \<and> ctx_total_work c' = ctx_total_work c"
proof -
  let ?c1 = "c\<lparr>event_looks := event_looks c + 1\<rparr>"
  have ok1: "ctx_ok tid ?c1"
    using assms(1) by (simp add: ctx_ok_def)
  show ?thesis
  proof (cases "is_set (event_looks c)")
    case True
    then have "stop" "c' = checkpoint_now clock [] ?c1"
      using assms(2) by (auto simp: set_progress_def check_interrupt_def Let_def)
    then show ?thesis
      using checkpoint_now_ok [OF ok1, of clock "[]"] by simp
  next
    case False
    let ?p = "min v (ctx_total_work c)"
    let ?c2 = "?c1\<lparr>ctx_progress := ?p, ctx_spec := (ctx_spec c)\<lparr>task_progress := ?p\<rparr>\<rparr>"
    let ?c3 = "update_state st ?c2"
    let ?c4 = "?c3\<lparr>clock_reads := clock_reads ?c3 + 1\<rparr>"
    have "ctx_ok tid ?c2"
      using ok1 by (simp add: ctx_ok_def)
    then have ok3: "ctx_ok tid ?c3"
      by (rule update_state_ok)
    then have ok4: "ctx_ok tid ?c4"
      by (simp add: ctx_ok_def)
    have "\<not> stop \<and> (c' = ?c3 \<or> c' = ?c4 \<or> c' = checkpoint_now clock [] ?c4)"
      using assms(2) False
      by (auto simp: set_progress_def check_interrupt_def Let_def split: if_splits)
    then show ?thesis
      using ok3 ok4 checkpoint_now_ok [OF ok4, of clock "[]"] by auto
  qed
qed

lemma run_body_ok:
  "ctx_ok tid c \<Longrightarrow> run_body clock is_set b c = (out, c') \<Longrightarrow>
     ctx_ok tid c' \<and> (out = Interrupted \<longrightarrow> checkpointed tid c')
     \<and> task_state (ctx_spec c') = task_state (ctx_spec c)
     \<and> ctx_total_work c' = ctx_total_work c"
proof (induction b arbitrary: c)
  case (SetProgress v st b)
  obtain stop c1 where sp: "set_progress clock is_set v st c = (stop, c1)"
    by fastforce
  note step = set_progress_ok [OF SetProgress.prems(1) sp]
  show ?case
  proof (cases stop)
    case True
    then show ?thesis using step SetProgress.prems(2) by (simp add: sp)
  next
    case False
    then have "run_body clock is_set b c1 = (out, c')"
      using SetProgress.prems(2) by (simp add: sp)
    from SetProgress.IH [OF _ this] step show ?thesis by simp
  qed
next
  case (SaveCheckpoint st b)
  note step = checkpoint_now_ok [OF SaveCheckpoint.prems(1), of clock st]
  have "run_body clock is_set b (checkpoint_now clock st c) = (out, c')"
    using SaveCheckpoint.prems(2) by simp
  from SaveCheckpoint.IH [OF step(1) this] step show ?case by simp
qed auto

subsection \<open>Properties\<close>

text \<open>Checkpoints of a task never claim more than its work.\<close>

definition spec_fits :: "task_spec \<Rightarrow> task_executor \<Rightarrow> bool" where
  "spec_fits spec x \<longleftrightarrow>
     0 \<le> total_work spec \<and> task_progress spec \<le> total_work spec
     \<and> (\<forall>cp. dict_get (exec_checkpoints x) (task_id spec) = Some cp \<longrightarrow>
          cp_progress cp \<le> total_work spec)"

lemma start_ctx_ok:
  assumes "spec_fits spec x"
  shows "ctx_ok (task_id spec) (start_ctx spec x)"
    and "task_state (ctx_spec (start_ctx spec x)) = task_state spec"
    and "ctx_total_work (start_ctx spec x) = total_work spec"
  using assms
  by (auto simp: start_ctx_def restore_from_checkpoint_def new_ctx_def load_checkpoint_def
      ctx_ok_def spec_fits_def split: option.splits)

lemma run_callable_ok:
  assumes "spec_fits spec x" and "run_callable clock is_set fn (start_ctx spec x) = (out, c)"
  shows "ctx_ok (task_id spec) c \<and> (out = Interrupted \<longrightarrow> checkpointed (task_id spec) c)
    \<and> task_state (ctx_spec c) = task_state spec \<and> ctx_total_work c = total_work spec"
proof (cases "accepts_context fn")
  case True
  then have "run_body clock is_set (fn_body fn) (start_ctx spec x) = (out, c)"
    using assms(2) by (simp add: run_callable_def)
  from run_body_ok [OF start_ctx_ok(1) [OF assms(1)] this] show ?thesis
    using start_ctx_ok [OF assms(1)] by simp
next
  case False
  then show ?thesis
    using assms(2) start_ctx_ok [OF assms(1)]
    by (auto simp: run_callable_def split: sum.splits)
qed

text \<open>
  How a task ends: when the body returns, the task is completed with all its work done and
  the call gives the body's value; when the body raises, the state is not touched; in every
  case the progress stays within the work and the interrupt event is unregistered.
\<close>

lemma execute_outcome:
  assumes "spec_fits spec x"
  shows "case execute clock is_set fn spec x of (res, spec', x') \<Rightarrow>
    case fst (run_callable clock is_set fn (start_ctx spec x)) of
      Returned v \<Rightarrow> res = Inr v \<and> task_state spec' = T_COMPLETED
        \<and> task_progress spec' = total_work spec
    | Interrupted \<Rightarrow> res = Inr PNone \<and> task_state spec' = task_state spec
        \<and> task_progress spec' \<le> total_work spec
    | Raised e \<Rightarrow> res = Inl e \<and> task_state spec' = task_state spec
        \<and> task_progress spec' \<le> total_work spec"
proof -
  obtain out c where run: "run_callable clock is_set fn (start_ctx spec x) = (out, c)"
    by fastforce
  note ok = run_callable_ok [OF assms run]
  show ?thesis
    using ok run
    by (cases out) (auto simp: execute_def Let_def finish_spec_def ctx_ok_def)
qed

text \<open>
  C33: interruption loses nothing: when an interrupted task is executed again, on whichever task
  object carries its identifier, the new context starts with exactly the progress and the
  user state the old one had when it stopped.
\<close>

theorem interrupted_resumes:
  assumes "spec_fits spec x"
    and "run_callable clock is_set fn (start_ctx spec x) = (Interrupted, c)"
    and "task_id spec2 = task_id spec"
  shows "ctx_progress (start_ctx spec2 (snd (snd (execute clock is_set fn spec x)))) = ctx_progress c
    \<and> ctx_state (start_ctx spec2 (snd (snd (execute clock is_set fn spec x)))) = ctx_state c
    \<and> dict_get (exec_interrupts (snd (snd (execute clock is_set fn spec x)))) (task_id spec) = None"
proof -
  have "checkpointed (task_id spec) c"
    using run_callable_ok [OF assms(1,2)] by simp
  moreover have "exec_checkpoints (snd (snd (execute clock is_set fn spec x))) = ctx_checkpoints c"
    "dict_get (exec_interrupts (snd (snd (execute clock is_set fn spec x)))) (task_id spec) = None"
    by (simp_all add: execute_def assms(2) Let_def)
  ultimately show ?thesis
    using assms(3)
    by (auto simp: checkpointed_def start_ctx_def new_ctx_def restore_from_checkpoint_def
        load_checkpoint_def)
qed

text \<open>
  A checkpoint shares the task's state: after a checkpoint with some user state, progress
  that is reported with more state and not checkpointed changes the state of the stored
  checkpoint but not its progress, so a restore combines old progress with newer state.
\<close>

lemma checkpoint_shares_state:
  assumes "ctx_ok tid c" and "ctx_state (update_state st c) \<noteq> []"
    and "\<not> task_checkpoint (ctx_spec c)" and "st' \<noteq> []" and "\<not> is_set (event_looks c)"
  shows "\<exists>cp. dict_get (ctx_checkpoints
        (snd (set_progress clock is_set v st' (checkpoint_now clock st c)))) tid = Some cp
    \<and> cp_progress cp = ctx_progress c
    \<and> cp_state_data cp = dict_update (ctx_state (update_state st c)) st'"
proof -
  let ?c1 = "checkpoint_now clock st c"
  have looks: "event_looks ?c1 = event_looks c" "\<not> task_checkpoint (ctx_spec ?c1)"
      "ctx_shared ?c1" "task_id (ctx_spec ?c1) = tid" "ctx_state ?c1 = ctx_state (update_state st c)"
    using assms by (simp_all add: checkpoint_now_def Let_def update_state_def ctx_ok_def)
  obtain cp where cp: "dict_get (ctx_checkpoints ?c1) tid = Some cp" "cp_progress cp = ctx_progress ?c1"
    using checkpoint_now_ok(2) [OF assms(1), of clock st] by (auto simp: checkpointed_def)
  have "ctx_progress ?c1 = ctx_progress c"
    by (simp add: checkpoint_now_def Let_def)
  with looks cp assms(4,5) show ?thesis
    by (simp add: set_progress_def check_interrupt_def update_state_def Let_def)
qed

subsection \<open>Concrete inputs\<close>

text \<open>A task of ten units that reports progress four times and is interrupted at the third report.\<close>

definition sample_spec :: task_spec where
  "sample_spec = (new_task_spec ''train'' ''t'')\<lparr>total_work := 10\<rparr>"

definition sample_callable :: task_callable where
  "sample_callable =
     \<lparr>fn_params = Some [(''ctx'', None)],
      fn_body = SetProgress 3 [(''epoch'', PInt 1)] (SetProgress 6 [(''epoch'', PInt 2)]
                  (SetProgress 9 [(''epoch'', PInt 3)] (Return PNone))),
      fn_plain = Inl TypeError\<rparr>"

definition empty_executor :: task_executor where
  "empty_executor = \<lparr>exec_checkpoints = [], exec_interrupts = []\<rparr>"

lemma sample_spec_fits: "spec_fits sample_spec empty_executor"
  by (simp add: spec_fits_def sample_spec_def new_task_spec_def empty_executor_def)

lemma execute_outcome_witness:
  "execute (\<lambda>k. 0) (\<lambda>k. False) sample_callable sample_spec empty_executor =
     (Inr PNone, sample_spec\<lparr>task_progress := 10, state_data := [(''epoch'', PInt 3)],
        task_state := T_COMPLETED\<rparr>, empty_executor)
   \<and> task_progress (fst (snd (execute (\<lambda>k. 0) (\<lambda>k. False) sample_callable sample_spec empty_executor))) = 10"
proof -
  have run: "execute (\<lambda>k. 0) (\<lambda>k. False) sample_callable sample_spec empty_executor =
     (Inr PNone, sample_spec\<lparr>task_progress := 10, state_data := [(''epoch'', PInt 3)],
        task_state := T_COMPLETED\<rparr>, empty_executor)"
    "fst (run_callable (\<lambda>k. 0) (\<lambda>k. False) sample_callable (start_ctx sample_spec empty_executor)) = Returned PNone"
    "total_work sample_spec = 10"
    by code_simp+
  show ?thesis
    using execute_outcome [OF sample_spec_fits, of "\<lambda>k. 0" "\<lambda>k. False" sample_callable]
    by (simp add: run)
qed

lemma interrupted_resumes_witness:
  "\<exists>c. run_callable (\<lambda>k. 0) (\<lambda>k. k = 2) sample_callable (start_ctx sample_spec empty_executor)
         = (Interrupted, c)
     \<and> ctx_progress (start_ctx sample_spec
         (snd (snd (execute (\<lambda>k. 0) (\<lambda>k. k = 2) sample_callable sample_spec empty_executor)))) = 6"
proof -
  obtain out c where run: "run_callable (\<lambda>k. 0) (\<lambda>k. k = 2) sample_callable
      (start_ctx sample_spec empty_executor) = (out, c)"
    by fastforce
  have "fst (run_callable (\<lambda>k. 0) (\<lambda>k. k = 2) sample_callable (start_ctx sample_spec empty_executor)) = Interrupted"
    "ctx_progress (snd (run_callable (\<lambda>k. 0) (\<lambda>k. k = 2) sample_callable (start_ctx sample_spec empty_executor))) = 6"
    by code_simp+
  with run have out: "out = Interrupted" "ctx_progress c = 6"
    by simp_all
  from interrupted_resumes [OF sample_spec_fits run [unfolded out(1)] refl] run out
  show ?thesis by simp
qed

lemma checkpoint_shares_state_witness:
  "\<exists>cp. dict_get (ctx_checkpoints (snd (set_progress (\<lambda>k. 0) (\<lambda>k. False) 5 [(''epoch'', PInt 2)]
       (checkpoint_now (\<lambda>k. 0) [(''epoch'', PInt 1)] (new_ctx sample_spec []))))) ''t'' = Some cp
     \<and> cp_progress cp = 0 \<and> cp_state_data cp = [(''epoch'', PInt 2)]"
proof -
  have "ctx_ok ''t'' (new_ctx sample_spec [])" "\<not> task_checkpoint (ctx_spec (new_ctx sample_spec []))"
    "ctx_state (update_state [(''epoch'', PInt 1)] (new_ctx sample_spec [])) = [(''epoch'', PInt 1)]"
    "ctx_progress (new_ctx sample_spec []) = 0"
    by (simp_all add: ctx_ok_def new_ctx_def sample_spec_def new_task_spec_def update_state_def Let_def
        dict_update_def)
  then show ?thesis
    using checkpoint_shares_state [of "''t''" "new_ctx sample_spec []" "[(''epoch'', PInt 1)]"
        "[(''epoch'', PInt 2)]" "\<lambda>k. False" "\<lambda>k. 0" 5]
    by (simp add: dict_update_def)
qed

end
