(* ===== verification/JobOps.thy ===== *)
theory JobOps
  imports JobManager Sdk Executor
begin

section \<open>Operations of the job manager (mesh/driver/job_manager.py)\<close>

text \<open>
  The operations that use dispatch: submission and waiting, cancellation, the thread of a local
  task, reassignment after a preemption or a death, speculation, rebalancing, and resumption
  from the store.  Work stealing and the assignment of replicas update the task objects in
  place, one after the other, so they are loops over references here; the theory \<open>JobGaps\<close> relates
  the first to the function of the work stealer.
\<close>

subsection \<open>Reassignment\<close>

fun steal_refs ::
  "place_method \<Rightarrow> node list \<Rightarrow> ref list \<Rightarrow> string set \<Rightarrow> (job_manager, (ref \<times> string option) list) py" where
  "steal_refs pf healthy [] used = sret []"
| "steal_refs pf healthy (r # rs) used = (\<lambda>s.
     let t1 = (restore (checkpoints s) (deref s r))\<lparr>task_state := T_MIGRATING\<rparr>;
         s1 = update_task r (\<lambda>_. t1) s;
         candidates = filter (\<lambda>n. node_id n \<notin> used \<or> length healthy = 1) healthy
     in case pf t1 candidates of
          Inl e \<Rightarrow> (Inl e, s1)
        | Inr (Some p) \<Rightarrow>
            sbind (steal_refs pf healthy rs (insert (pl_node_id p) used))
              (\<lambda>rest. sret ((r, Some (pl_node_id p)) # rest))
              (update_task r (\<lambda>t. t\<lparr>assigned_node := Some (pl_node_id p), task_state := T_RUNNING\<rparr>) s1)
        | Inr None \<Rightarrow>
            sbind (steal_refs pf healthy rs used)
              (\<lambda>rest. sret ((r, None) # rest))
              (update_task r (\<lambda>t. t\<lparr>task_state := T_PENDING, assigned_node := None\<rparr>) s1))"

definition redispatch :: "jm_env \<Rightarrow> (ref \<times> string option) list \<Rightarrow> jm" where
  "redispatch env stolen =
     siter (\<lambda>(r, new_node) s.
       if new_node = None then (Inr (), s)
       else
         case find_job_for_task s r of
           None \<Rightarrow> (Inr (), s)
         | Some jr \<Rightarrow> if is_terminal (job_at s jr) then (Inr (), s) else dispatch env r jr s) stolen"

definition orphan_refs :: "string \<Rightarrow> job_manager \<Rightarrow> ref list" where
  "orphan_refs nid s = filter (\<lambda>r. is_orphan {nid} (deref s r)) (dict_values (tasks s))"

text \<open>A preemption leaves the preempted node out of the live nodes, a death does not.\<close>

definition reassign :: "jm_env \<Rightarrow> string \<Rightarrow> bool \<Rightarrow> jm" where
  "reassign env nid preempted s =
     (let orphaned = orphan_refs nid s in
      if orphaned = [] then (Inr (), s)
      else
        case live_nodes (e_now env) s of (ns, s1) \<Rightarrow>
          let available = (if preempted then filter (\<lambda>n. node_id n \<noteq> nid) ns else ns)
          in sbind (steal_refs (e_place env) (filter (\<lambda>n. node_state n = HEALTHY) available) orphaned {})
               (redispatch env) s1)"

text \<open>Pause what runs on a node; the result is the identifiers of these tasks.\<close>

definition pause_on :: "jm_env \<Rightarrow> string \<Rightarrow> (job_manager, string list) py" where
  "pause_on env nid s =
     (let rs = filter (\<lambda>r. assigned_node (deref s r) = Some nid) (map run_spec (dict_values (running s)))
      in sbind (siter (pause_task env) rs) (\<lambda>_. sret (map (\<lambda>r. task_id (deref s r)) rs)) s)"

text \<open>The wait for the paused tasks to leave the table of running ones: other threads act.\<close>

definition wait_others :: "jm_env \<Rightarrow> string list \<Rightarrow> jm" where
  "wait_others env ids = (if ids = [] then sret () else smodify (e_others env))"

definition handle_preemption :: "jm_env \<Rightarrow> string \<Rightarrow> jm" where
  "handle_preemption env nid =
     sbind (pause_on env nid) (\<lambda>ids.
     sbind (wait_others env ids) (\<lambda>_.
       reassign env nid True))"

text \<open>
  Forcing the state of the node to dead notifies the cluster's callback when the node was not
  dead before, and the callback calls \<^verbatim>\<open>handle_node_death\<close> again.  The inner call finds the node
  dead and notifies nobody, so a depth of two is all there is, as the theory \<open>JobGaps\<close> proves.
\<close>

fun node_death :: "nat \<Rightarrow> jm_env \<Rightarrow> string \<Rightarrow> jm" where
  "node_death 0 env nid = sret ()"
| "node_death (Suc n) env nid =
     sbind (smodify (\<lambda>s. (update_node_state nid DEAD s)
              \<lparr>remote_agents := dict_pop nid (remote_agents s)\<rparr>)) (\<lambda>_.
     sbind (force_state [on_state_change (Some (node_death n env)) (e_now env)] nid DEAD) (\<lambda>_.
     sbind (pause_on env nid) (\<lambda>ids.
     sbind (wait_others env ids) (\<lambda>_.
       reassign env nid False))))"

definition handle_node_death :: "jm_env \<Rightarrow> string \<Rightarrow> jm" where
  "handle_node_death env nid = node_death 2 env nid"

subsection \<open>Submission\<close>

fun assign_refs ::
  "place_method \<Rightarrow> node list \<Rightarrow> ref list \<Rightarrow> string set \<Rightarrow> (job_manager, (ref \<times> string option) list) py" where
  "assign_refs pf ns [] used = sret []"
| "assign_refs pf ns (r # rs) used = (\<lambda>s.
     let free = filter (\<lambda>n. node_id n \<notin> used) ns;
         available = (if free = [] then ns else free)
     in case pf (deref s r) available of
          Inl e \<Rightarrow> (Inl e, s)
        | Inr (Some p) \<Rightarrow>
            sbind (assign_refs pf ns rs (insert (pl_node_id p) used))
              (\<lambda>rest. sret ((r, Some (pl_node_id p)) # rest))
              (update_task r (\<lambda>t. t\<lparr>assigned_node := Some (pl_node_id p), task_state := T_RUNNING\<rparr>) s)
        | Inr None \<Rightarrow>
            sbind (assign_refs pf ns rs used) (\<lambda>rest. sret ((r, None) # rest))
              (update_task r (\<lambda>t. t\<lparr>task_state := T_PENDING\<rparr>) s))"

fun submit_refs :: "jm_env \<Rightarrow> ref list \<Rightarrow> (job_manager, (ref \<times> string option) list) py" where
  "submit_refs env [] = sret []"
| "submit_refs env (r # rs) =
     sbind (cluster_submit (e_place env) (e_now env) r) (\<lambda>nid.
     sbind (submit_refs env rs) (\<lambda>rest. sret ((r, nid) # rest)))"

text \<open>New task objects, entered in the table of tasks and of the job.\<close>

definition enter_specs :: "string \<Rightarrow> task_spec list \<Rightarrow> (job_manager, ref list) py" where
  "enter_specs jid specs s =
     (let refs = [length (task_heap s) ..< length (task_heap s) + length specs]
      in (Inr refs,
          s\<lparr>task_heap := task_heap s @ specs,
            job_tasks := dict_set jid refs (job_tasks s),
            tasks := fold (\<lambda>(r, t). dict_set (task_id t) r) (zip refs specs) (tasks s)\<rparr>))"

definition known_job :: "string option \<Rightarrow> job_manager \<Rightarrow> string option" where
  "known_job idem s =
     (case idem of Some (c # cs) \<Rightarrow> dict_get (idempotency s) (c # cs) | _ \<Rightarrow> None)"

definition create_job :: "string \<Rightarrow> string \<Rightarrow> string option \<Rightarrow> (job_manager, ref) py" where
  "create_job jid name idem s =
     (case alloc_job (new_job jid name idem) s of (jr, s1) \<Rightarrow>
        let s2 = s1\<lparr>jobs := dict_set jid jr (jobs s1)\<rparr>
        in (Inr jr,
            case idem of
              Some (c # cs) \<Rightarrow> s2\<lparr>idempotency := dict_set (c # cs) jid (idempotency s2)\<rparr>
            | _ \<Rightarrow> s2))"

text \<open>
  \<^verbatim>\<open>submit\<close> up to the point where it returns a handle or starts to wait; it gives the identifier of
  the job.  The drawn identifiers are \<open>jid\<close>, \<open>tid\<close> and, for replicas, \<open>uuids\<close>.  A key that is
  known gives the job it names; otherwise a new job is created, placed and dispatched
  (\<open>start_job\<close>).
\<close>

definition start_job ::
  "jm_env \<Rightarrow> mesh_task \<Rightarrow> string \<Rightarrow> string \<Rightarrow> string list \<Rightarrow> ref \<Rightarrow> (job_manager, string) py" where
  "start_job env m jid tid uuids jr =
     (let base = to_spec m tid (Some jid) 0;
          specs = (if 1 < mt_replicas m then create_replica_specs base jid uuids else [base])
      in
        sbind (smodify (update_job jr (\<lambda>j. j\<lparr>task_ids := map task_id specs\<rparr>))) (\<lambda>_.
        sbind (enter_specs jid specs) (\<lambda>refs.
        sbind (\<lambda>s. case live_nodes (e_now env) s of (ns, s1) \<Rightarrow> (Inr ns, s1)) (\<lambda>ns.
        sbind (if 1 < mt_replicas m then assign_refs (e_place env) ns refs {}
               else submit_refs env refs) (\<lambda>placements.
        sbind (smodify (update_job jr (\<lambda>j. j\<lparr>job_state := J_RUNNING\<rparr>))) (\<lambda>_.
        sbind (persist_job jr) (\<lambda>_.
        sbind (siter (\<lambda>(r, nid).
                 sbind (persist_task r) (\<lambda>_.
                   case nid of Some (c # cs) \<Rightarrow> dispatch env r jr | _ \<Rightarrow> sret ())) placements) (\<lambda>_.
          sret jid))))))))"

definition submit_job ::
  "jm_env \<Rightarrow> mesh_task \<Rightarrow> string option \<Rightarrow> string \<Rightarrow> string \<Rightarrow> string list \<Rightarrow> (job_manager, string) py" where
  "submit_job env m idem jid tid uuids =
     sbind (smodify (\<lambda>s. s\<lparr>registry := dict_set (mt_name m) (mt_fn m) (registry s)\<rparr>)) (\<lambda>_ s.
       case known_job idem s of
         Some old \<Rightarrow> if dict_get (jobs s) old = None then (Inl KeyError, s) else (Inr old, s)
       | None \<Rightarrow> sbind (create_job jid (mt_name m) idem) (start_job env m jid tid uuids) s)"

text \<open>
  \<^verbatim>\<open>submit_remote_by_name\<close> and \<^verbatim>\<open>submit_notebook_cell\<close>, up to the wait: a task of the agents'
  registry, without a local callable.
\<close>

definition submit_remote_by_name ::
  "jm_env \<Rightarrow> string \<Rightarrow> real \<Rightarrow> bool \<Rightarrow> string \<Rightarrow> string \<Rightarrow> (job_manager, string) py" where
  "submit_remote_by_name env name work cp jid tid =
     sbind (create_job jid name None) (\<lambda>jr.
     sbind (enter_specs jid [(new_task_spec name tid)
              \<lparr>task_checkpoint := cp, total_work := work, task_job_id := Some jid\<rparr>]) (\<lambda>refs.
     sbind (cluster_submit (e_place env) (e_now env) (hd refs)) (\<lambda>nid.
     sbind (smodify (update_job jr (\<lambda>j. j\<lparr>job_state := J_RUNNING, task_ids := [tid]\<rparr>))) (\<lambda>_.
     sbind (case nid of Some (c # cs) \<Rightarrow> dispatch_remote env (hd refs) jr | _ \<Rightarrow> sret ()) (\<lambda>_.
       sret jid)))))"

definition submit_notebook_cell ::
  "jm_env \<Rightarrow> string \<Rightarrow> string \<Rightarrow> string \<Rightarrow> string \<Rightarrow> (job_manager, string) py" where
  "submit_notebook_cell env code language jid tid =
     sbind (create_job jid (''notebook-'' @ language) None) (\<lambda>jr.
     sbind (enter_specs jid [(new_task_spec ''notebook.exec'' tid)
              \<lparr>task_requirements := default_requirements\<lparr>ram_gb_req := 1 / 2\<rparr>,
               state_data := [(''code'', PStr code), (''language'', PStr language)],
               task_job_id := Some jid\<rparr>]) (\<lambda>refs.
     sbind (persist_job jr) (\<lambda>_.
     sbind (persist_task (hd refs)) (\<lambda>_.
     sbind (cluster_submit (e_place env) (e_now env) (hd refs)) (\<lambda>nid.
       case nid of
         Some (c # cs) \<Rightarrow>
           sbind (smodify (update_job jr (\<lambda>j. j\<lparr>job_state := J_RUNNING, task_ids := [tid]\<rparr>))) (\<lambda>_.
           sbind (dispatch_remote env (hd refs) jr) (\<lambda>_. sret jid))
       | _ \<Rightarrow>
           slift (Inl (RuntimeError
             ''No healthy workers available - start mesh-agent on a machine'')))))))"

subsection \<open>Waiting and cancelling\<close>

text \<open>
  \<^verbatim>\<open>wait_for_job\<close> polls: \<open>obs\<close> is what each poll sees, the job (if there is one) and the clock; the
  result is \<open>None\<close> while every poll seen finds the job unfinished.
\<close>

definition job_outcome :: "job \<Rightarrow> pyval result" where
  "job_outcome j =
     (if job_state j = J_FAILED
      then Inl (RuntimeError (case job_error j of Some (c # cs) \<Rightarrow> c # cs | _ \<Rightarrow> ''Job failed''))
      else if job_state j = J_CANCELLED then Inl (RuntimeError ''Job was cancelled'')
      else Inr (job_result j))"

fun wait_for_job :: "real option \<Rightarrow> (job option \<times> real) list \<Rightarrow> pyval result option" where
  "wait_for_job deadline [] = None"
| "wait_for_job deadline ((j, now) # obs) =
     (case j of
        None \<Rightarrow> Some (Inl KeyError)
      | Some job \<Rightarrow>
          if is_terminal job then Some (job_outcome job)
          else if (case deadline of None \<Rightarrow> False | Some d \<Rightarrow> d \<noteq> 0 \<and> d < now)
          then Some (Inl TimeoutError)
          else wait_for_job deadline obs)"

definition cancel_job :: "jm_env \<Rightarrow> string \<Rightarrow> jm" where
  "cancel_job env jid s =
     (case dict_get (jobs s) jid of
        None \<Rightarrow> (Inr (), s)
      | Some jr \<Rightarrow>
          sbind (siter (\<lambda>r. sbind (cancel_task env r) (\<lambda>_.
                   smodify (update_task r (\<lambda>t. t\<lparr>task_state := T_FAILED\<rparr>)))) (specs_of jid s)) (\<lambda>_.
            smodify (update_job jr (\<lambda>j. j\<lparr>job_state := J_CANCELLED\<rparr>))) s)"

subsection \<open>The thread of a local task\<close>

text \<open>
  The thread runs as one step here; what other threads do meanwhile it sees through \<open>is_set\<close>.
  Whatever happens the task leaves the table of running ones.
\<close>

definition run_local ::
  "jm_env \<Rightarrow> (nat \<Rightarrow> real) \<Rightarrow> (nat \<Rightarrow> bool) \<Rightarrow> task_callable \<Rightarrow> ref \<Rightarrow> ref \<Rightarrow> jm" where
  "run_local env clock is_set fn r jr s =
     (let tid = task_id (deref s r);
          x = clear_interrupt tid \<lparr>exec_checkpoints = checkpoints s, exec_interrupts = interrupts s\<rparr>
      in case execute clock is_set fn (deref s r) x of (res, spec', x') \<Rightarrow>
           let s1 = update_task r (\<lambda>_. spec')
                      (s\<lparr>checkpoints := exec_checkpoints x', interrupts := exec_interrupts x'\<rparr>);
               after = (case res of
                          Inl e \<Rightarrow> (Inl e, s1)
                        | Inr v \<Rightarrow>
                            if task_state spec' = T_COMPLETED then on_task_complete env r jr v s1
                            else (Inr (), s1))
           in case after of
                (Inr _, s2) \<Rightarrow> (Inr (), pop_running tid s2)
              | (Inl e, s2) \<Rightarrow>
                  (case on_task_failed r jr (e_message env e)
                          (update_task r (\<lambda>t. t\<lparr>task_state := T_FAILED\<rparr>) s2) of
                     (_, s3) \<Rightarrow> (Inr (), pop_running tid s3)))"

subsection \<open>Speculation and rebalancing\<close>

text \<open>\<open>uuid r\<close> is the identifier drawn for the duplicate of \<open>r\<close>.\<close>

fun speculate :: "jm_env \<Rightarrow> (ref \<Rightarrow> string) \<Rightarrow> ref list \<Rightarrow> (job_manager, int) py" where
  "speculate env uuid [] = sret 0"
| "speculate env uuid (r # rs) = (\<lambda>s.
     case find_job_for_task s r of
       None \<Rightarrow> speculate env uuid rs s
     | Some jr \<Rightarrow>
         if is_terminal (job_at s jr) then speculate env uuid rs s
         else
           let spec = deref s r;
               dup = spec\<lparr>task_id := uuid r, replica_index := replica_index spec + 100,
                          task_state := T_PENDING, assigned_node := None\<rparr>
           in case alloc_task dup s of (d, s1) \<Rightarrow>
                sbind (cluster_submit (e_place env) (e_now env) d) (\<lambda>nid.
                  case nid of
                    Some (c # cs) \<Rightarrow>
                      sbind (smodify (\<lambda>s. s\<lparr>speculator :=
                               mark_speculative (task_id spec) (uuid r) (speculator s)\<rparr>)) (\<lambda>_.
                      sbind (dispatch env d jr) (\<lambda>_.
                      sbind (persist_task d) (\<lambda>_.
                      sbind (speculate env uuid rs) (\<lambda>n. sret (n + 1)))))
                  | _ \<Rightarrow> speculate env uuid rs)
                  (s1\<lparr>tasks := dict_set (uuid r) d (tasks s1)\<rparr>))"

definition check_speculation :: "jm_env \<Rightarrow> (ref \<Rightarrow> string) \<Rightarrow> (job_manager, int) py" where
  "check_speculation env uuid s =
     (let stragglers = find_stragglers (e_now env) (speculator s) (map (deref s) (dict_values (tasks s)))
      in speculate env uuid (filter (\<lambda>r. deref s r \<in> set stragglers) (dict_values (tasks s))) s)"

definition run_rebalance :: "jm_env \<Rightarrow> (job_manager, int) py" where
  "run_rebalance env s =
     (case live_nodes (e_now env) s of (ns, s1) \<Rightarrow>
        let actions = analyze (30 / 100) ns (map (deref s1) (dict_values (tasks s1)))
        in sbind (siter (\<lambda>a s.
               case dict_get (tasks s) (ra_task_id a) of
                 None \<Rightarrow> (Inr (), s)
               | Some r \<Rightarrow>
                   sbind (pause_task env r) (\<lambda>_.
                   sbind (smodify (update_task r
                            (\<lambda>t. t\<lparr>assigned_node := Some (to_node a), task_state := T_MIGRATING\<rparr>))) (\<lambda>_ s.
                     case find_job_for_task s r of
                       None \<Rightarrow> (Inr (), s)
                     | Some jr \<Rightarrow> sbind (dispatch env r jr) (\<lambda>_. persist_task r) s)) s) actions)
             (\<lambda>_. sret (int (length actions))) s1)"

subsection \<open>Resumption\<close>

definition restore_job :: "job \<Rightarrow> job_manager \<Rightarrow> job_manager" where
  "restore_job j s =
     (case alloc_job j s of (jr, s1) \<Rightarrow>
        let s2 = s1\<lparr>jobs := dict_set (job_id j) jr (jobs s1)\<rparr>
        in case idempotency_key j of
             Some (c # cs) \<Rightarrow> s2\<lparr>idempotency := dict_set (c # cs) (job_id j) (idempotency s2)\<rparr>
           | _ \<Rightarrow> s2)"

text \<open>The task with its callable from the registry, entered in the table of tasks.\<close>

definition restore_task :: "task_spec \<Rightarrow> job_manager \<Rightarrow> ref \<times> job_manager" where
  "restore_task t s =
     (case alloc_task (t\<lparr>task_fn := dict_get (registry s) (task_name t)\<rparr>) s of (r, s1) \<Rightarrow>
        (r, s1\<lparr>tasks := dict_set (task_id t) r (tasks s1)\<rparr>))"

fun restore_tasks :: "task_spec list \<Rightarrow> ref list dict \<Rightarrow> job_manager \<Rightarrow> ref list dict \<times> job_manager" where
  "restore_tasks [] d s = (d, s)"
| "restore_tasks (t # ts) d s =
     (case restore_task t s of (r, s1) \<Rightarrow>
        restore_tasks ts
          (case task_job_id t of
             Some (c # cs) \<Rightarrow> dict_set (c # cs) (dict_get_default d (c # cs) [] @ [r]) d
           | _ \<Rightarrow> d) s1)"

text \<open>The second read of the store makes new task objects; only these are dispatched.\<close>

definition resume_running :: "jm_env \<Rightarrow> sqlite_store \<Rightarrow> task_spec \<Rightarrow> jm" where
  "resume_running env st t =
     (if task_state t \<noteq> T_RUNNING then sret ()
      else
        sbind (slift (sql_load_checkpoint (task_id t) st)) (\<lambda>cp.
        let t1 = (case cp of
                    None \<Rightarrow> t
                  | Some c \<Rightarrow> t\<lparr>task_progress := cp_progress c, state_data := cp_state_data c\<rparr>)
        in (\<lambda>s. case alloc_task t1 s of (r, s1) \<Rightarrow>
             (case find_job_for_task s1 r of
                None \<Rightarrow> (Inr (), s1)
              | Some jr \<Rightarrow> if is_terminal (job_at s1 jr) then (Inr (), s1) else dispatch env r jr s1))))"

definition resume_from_store :: "jm_env \<Rightarrow> sqlite_store \<Rightarrow> jm" where
  "resume_from_store env st =
     sbind (slift (sql_list_jobs st)) (\<lambda>js.
     sbind (smodify (fold restore_job js)) (\<lambda>_.
     sbind (slift (sql_list_tasks st)) (\<lambda>ts.
     sbind (smodify (\<lambda>s. case restore_tasks ts [] s of (d, s1) \<Rightarrow>
              s1\<lparr>job_tasks := fold (\<lambda>(jid, refs). dict_set jid refs) d (job_tasks s1)\<rparr>)) (\<lambda>_.
       siter (resume_running env st) ts))))"

end
