(* ===== verification/JobFrames.thy ===== *)
theory JobFrames
  imports JobOps
begin

section \<open>What the operations of the job manager keep\<close>

text \<open>
  A locale states that a predicate on the state is closed under the elementary updates, and its
  lemmas that every operation keeps it.  The predicate may speak of references that are at hand:
  \<open>P R J s\<close> is about the task objects \<open>R\<close> and the job objects \<open>J\<close> as well.  Objects that are read
  off a table, or are new, may be added, and what enters a table has to be at hand.  The locales
  that extend it add the tables, for the operations that create or restore objects.  All are
  interpreted with the properties.
\<close>

subsection \<open>Facts about references\<close>

lemma find_job_listed: "find_job_for_task s r = Some jr \<Longrightarrow> \<exists>k. dict_get (jobs s) k = Some jr"
  by (auto simp: find_job_for_task_def split: option.splits list.splits)

lemma replica_job_id [simp]:
  "job_id (fst (on_replica_complete j t ts)) = job_id j"
  "on_replica_failure j t ts = (go_on, j') \<Longrightarrow> job_id j' = job_id j"
  by (auto simp: on_replica_complete_def on_replica_failure_def split: if_splits)

lemma steal_refs_refs: "steal_refs pf healthy rs used s = (Inr ps, s') \<Longrightarrow> map fst ps = rs"
proof (induction rs arbitrary: s used ps)
  case (Cons r rs)
  then show ?case
    by (auto simp: Let_def split: sum.splits option.splits elim!: sbind_InrE)
qed simp

lemma assign_refs_refs: "assign_refs pf ns rs used s = (Inr ps, s') \<Longrightarrow> map fst ps = rs"
proof (induction rs arbitrary: s used ps)
  case (Cons r rs)
  then show ?case
    by (auto simp: Let_def split: sum.splits option.splits elim!: sbind_InrE)
qed simp

lemma submit_refs_refs: "submit_refs env rs s = (Inr ps, s') \<Longrightarrow> map fst ps = rs"
  by (induction rs arbitrary: s ps) (auto elim!: sbind_InrE)

lemma run_body_task_id:
  "task_id (ctx_spec (snd (run_body clock is_set b c))) = task_id (ctx_spec c)"
proof -
  have save: "task_id (ctx_spec (checkpoint_now clock st c)) = task_id (ctx_spec c)" for st c
    by (simp add: checkpoint_now_def Let_def)
  have "task_id (ctx_spec (snd (set_progress clock is_set v st c))) = task_id (ctx_spec c)" for v st c
    by (simp add: set_progress_def check_interrupt_def Let_def save)
  then show ?thesis
    by (induction b arbitrary: c) (simp_all add: save case_prod_beta)
qed

lemma execute_task_id:
  assumes "execute clock is_set fn spec x = (res, spec', x')"
  shows "task_id spec' = task_id spec"
proof -
  have "task_id (ctx_spec (start_ctx spec x)) = task_id spec"
    by (simp add: start_ctx_def restore_from_checkpoint_def new_ctx_def split: option.split)
  then have "task_id (ctx_spec (snd (run_callable clock is_set fn (start_ctx spec x)))) = task_id spec"
    using run_body_task_id by (auto simp: run_callable_def split: sum.split)
  then show ?thesis
    using assms by (auto simp: execute_def finish_spec_def Let_def split: prod.splits outcome.splits)
qed

definition refs_in :: "ref list dict \<Rightarrow> ref set" where
  "refs_in d = (\<Union>(jid, rs) \<in> set d. set rs)"

lemma refs_in_append:
  "refs_in (dict_set jid (dict_get_default d jid [] @ [r]) d) \<subseteq> insert r (refs_in d)"
proof -
  have "set (dict_get_default d jid []) \<subseteq> refs_in d"
  proof (cases "dict_get d jid")
    case (Some rs)
    then show ?thesis
      using map_of_SomeD [OF Some] by (force simp: dict_get_default_def refs_in_def)
  qed (simp add: dict_get_default_def)
  moreover have "set (dict_set jid v d) \<subseteq> insert (jid, v) (set d)" for v
    by (induction d) auto
  ultimately show ?thesis
    by (fastforce simp: refs_in_def)
qed

text \<open>A sequence keeps what its first part keeps, and its second part after what the first one gave.\<close>

lemma sbind_after:
  assumes "P (snd (m s))" and "\<And>x s1. m s = (Inr x, s1) \<Longrightarrow> P s1 \<Longrightarrow> P (snd (f x s1))"
  shows "P (snd (sbind m f s))"
proof (cases "m s")
  case (Pair r s1)
  with assms show ?thesis
    by (cases r) (simp_all add: sbind_def)
qed

subsection \<open>Predicates closed under the elementary updates\<close>

locale jm_frame =
  fixes P :: "ref set \<Rightarrow> ref set \<Rightarrow> job_manager \<Rightarrow> bool"
  assumes P_mono: "P R J s \<Longrightarrow> R' \<subseteq> R \<Longrightarrow> J' \<subseteq> J \<Longrightarrow> P R' J' s"
    and P_listed: "P R J s \<Longrightarrow> P (R \<union> set (dict_values (tasks s))) J s"
    and P_job_listed: "P R J s \<Longrightarrow> dict_get (jobs s) k = Some jr \<Longrightarrow> P R (insert jr J) s"
    and P_task: "P R J s \<Longrightarrow> task_id (f (deref s r)) = task_id (deref s r) \<Longrightarrow> P R J (update_task r f s)"
    and P_job: "P R J s \<Longrightarrow> job_id (g (job_at s jr)) = job_id (job_at s jr) \<Longrightarrow> P R J (update_job jr g s)"
    and P_pop: "P R J s \<Longrightarrow> P R J (s\<lparr>running := dict_pop k (running s)\<rparr>)"
    and P_run: "P R J s \<Longrightarrow> r \<in> R \<Longrightarrow> jr \<in> J \<Longrightarrow>
      P R J (s\<lparr>running := dict_set (task_id (deref s r))
                 \<lparr>run_spec = r, run_job = jr, run_remote = b\<rparr> (running s)\<rparr>)"
    and P_thread: "P R J s \<Longrightarrow> r \<in> R \<Longrightarrow> P R J (s\<lparr>thread_log := thread_log s @ [r]\<rparr>)"
    and P_rpc: "P R J s \<Longrightarrow> P R J (s\<lparr>rpc_log := l\<rparr>)"
    and P_spec: "P R J s \<Longrightarrow> P R J (s\<lparr>speculator := sp\<rparr>)"
    and P_interrupts: "P R J s \<Longrightarrow> P R J (s\<lparr>interrupts := i\<rparr>)"
    and P_store: "P R J s \<Longrightarrow> P R J (write_store h s)"
    and P_states: "P R J s \<Longrightarrow> P R J (s\<lparr>states := sts\<rparr>)"
begin

lemmas bind_P = sbind_keeps [where P = "P R J" for R J]

lemmas after_P = sbind_after [where P = "P R J" for R J]

lemmas iter_P = siter_keeps [where P = "P R J" for R J]

lemmas iter_on_P = siter_keeps_on [where P = "P R J" for R J]

lemma evaluate_P: "P R J s \<Longrightarrow> P R J (snd (evaluate now nid s))"
  by (simp add: evaluate_def P_states)

lemma live_loop_P: "P R J s \<Longrightarrow> P R J (snd (live_loop now ns s))"
proof (induction ns arbitrary: s rule: dict_induct)
  case (Cons k v d)
  then show ?case
    by (simp only: live_loop_Cons snd_conv) (blast intro: evaluate_P)
qed simp

lemma live_nodes_P: "P R J s \<Longrightarrow> P R J (snd (live_nodes now s))"
  by (simp add: live_nodes_eq live_loop_P)

lemma interrupt_local_P: "P R J s \<Longrightarrow> P R J (interrupt_local tid s)"
  by (simp add: interrupt_local_def P_interrupts split: option.split)

lemma call_agent_P: "P R J s \<Longrightarrow> P R J (snd (call_agent env c s))"
  by (simp add: call_agent_def P_rpc)

lemma signal_task_P: "P R J s \<Longrightarrow> P R J (snd (signal_task mk env r s))"
  unfolding signal_task_def Let_def
  by (auto split: option.split list.split rpc_reply.split
      intro!: interrupt_local_P bind_P call_agent_P)

lemma pause_cancel_P:
  "P R J s \<Longrightarrow> P R J (snd (pause_task env r s))" "P R J s \<Longrightarrow> P R J (snd (cancel_task env r s))"
  by (simp_all add: pause_task_def cancel_task_def signal_task_P)

lemma persist_P:
  "P R J s \<Longrightarrow> P R J (snd (persist_job jr s))" "P R J s \<Longrightarrow> P R J (snd (persist_task r s))"
  by (simp_all add: persist_job_def persist_task_def P_store)

lemma pop_running_P: "P R J s \<Longrightarrow> P R J (pop_running tid s)"
  by (simp add: pop_running_def P_pop)

lemma on_task_failed_P:
  assumes "P R J s"
  shows "P R J (snd (on_task_failed r jr err s))"
  unfolding on_task_failed_def
proof (rule bind_P [OF assms])
  show "P R J (snd (Inr (task_id (deref s r)), pop_running (task_id (deref s r)) s))" if "P R J s" for s
    using that by (simp add: pop_running_P)
next
  fix tid s
  assume "P R J s"
  then show "P R J (snd (sbind (smodify (\<lambda>s. s\<lparr>speculator := clear tid (speculator s)\<rparr>)) (\<lambda>_.
     \<lambda>s. let specs = specs_of (job_id (job_at s jr)) s in
         if 1 < length specs
         then
           (case on_replica_failure (job_at s jr) (deref s r) (map (deref s) specs) of
              (go_on, j') \<Rightarrow>
                let s1 = update_job jr (\<lambda>_. j') s
                in if \<not> go_on then (Inr (), s1)
                   else sbind (persist_task r) (\<lambda>_. persist_job jr) s1)
         else
           sbind (persist_task r) (\<lambda>_. persist_job jr)
             (update_job jr (\<lambda>j. j\<lparr>job_state := J_FAILED, job_error := Some err\<rparr>) s)) s))"
    by (rule bind_P)
      (auto simp: Let_def P_spec P_job split: prod.split intro!: bind_P persist_P)
qed

lemma dispatch_remote_P:
  assumes "P R J s" and "r \<in> R" and "jr \<in> J"
  shows "P R J (snd (dispatch_remote env r jr s))"
proof -
  have fail: "P R J (snd (sbind (smodify (update_task r (\<lambda>t. t\<lparr>task_state := T_FAILED\<rparr>))) (\<lambda>_.
                    sbind (on_task_failed r jr msg) (\<lambda>_.
                      smodify (pop_running tid))) s))" if "P R J s" for s msg tid
    using that by (rule bind_P)
      (auto simp: P_task pop_running_P intro!: bind_P on_task_failed_P)
  show ?thesis
    using assms unfolding dispatch_remote_def Let_def
    by (auto split: option.split rpc_reply.split
        intro!: bind_P call_agent_P P_run fail)
qed

lemma start_local_P:
  assumes "P R J s" and "r \<in> R" and "jr \<in> J"
  shows "P R J (start_local_execution r jr s)"
proof -
  have "P R J (s\<lparr>running := dict_set (task_id (deref s r))
      \<lparr>run_spec = r, run_job = jr, run_remote = False\<rparr> (running s), thread_log := thread_log s @ [r]\<rparr>)"
    using P_thread [OF P_run [OF assms, of False] assms(2)] by simp
  then show ?thesis
    using assms(1) by (simp add: start_local_execution_def Let_def)
qed

lemma dispatch_P: "P R J s \<Longrightarrow> r \<in> R \<Longrightarrow> jr \<in> J \<Longrightarrow> P R J (snd (dispatch env r jr s))"
  unfolding dispatch_def Let_def
  by (rule bind_P) (auto simp: P_spec dispatch_remote_P start_local_P)

text \<open>A job that is found for a task may be dispatched for.\<close>

lemma dispatch_found_P:
  assumes "P R J s" and "r \<in> R" and "find_job_for_task s r = Some jr"
  shows "P R J (snd (dispatch env r jr s))"
proof -
  obtain k where "dict_get (jobs s) k = Some jr"
    using find_job_listed [OF assms(3)] by blast
  then have "P R (insert jr J) s"
    using P_job_listed assms(1) by blast
  then show ?thesis
    using P_mono [OF dispatch_P] assms(2) by blast
qed

lemma on_task_complete_P:
  assumes "P R J s"
  shows "P R J (snd (on_task_complete env r jr res s))"
proof -
  have dup: "P R J (snd (case duplicate_id tid (speculator s) of
              None \<Rightarrow> (Inr (), s)
            | Some dup \<Rightarrow>
                (case dict_get (tasks s) dup of
                   None \<Rightarrow> (Inl KeyError, s)
                 | Some d \<Rightarrow> cancel_task env d s)))" if "P R J s" for s tid
    using that by (auto simp: pause_cancel_P split: option.split)
  have cancel: "P R J (snd (siter (\<lambda>other. sbind (cancel_task env other) (\<lambda>_.
                   smodify (update_task other (\<lambda>t. t\<lparr>task_state := T_FAILED\<rparr>)))) rs s))"
    if "P R J s" for s rs
    using that by (rule iter_P) (auto intro!: bind_P pause_cancel_P P_task)
  have finish: "P R J (snd (let specs = specs_of (job_id (job_at s jr)) s in
              if 1 < length specs
              then sbind (smodify (update_job jr
                            (\<lambda>j. fst (on_replica_complete j (deref s r) (map (deref s) specs)))))
                     (\<lambda>_. siter (\<lambda>other. sbind (cancel_task env other) (\<lambda>_.
                              smodify (update_task other (\<lambda>t. t\<lparr>task_state := T_FAILED\<rparr>))))
                            (active_others s tid specs)) s
              else smodify (update_job jr (\<lambda>j. j\<lparr>job_state := J_COMPLETED\<rparr>)) s))" if "P R J s" for s tid
  proof (cases "1 < length (specs_of (job_id (job_at s jr)) s)")
    case True
    then show ?thesis
      unfolding Let_def if_P [OF True]
      by (intro bind_P [OF that] cancel) (simp_all add: P_job)
  next
    case False
    then show ?thesis using that by (simp add: Let_def P_job)
  qed
  show ?thesis
    unfolding on_task_complete_def
    by (intro bind_P assms dup finish persist_P)
      (simp_all add: pop_running_P P_spec P_job)
qed

lemma steal_refs_P: "P R J s \<Longrightarrow> P R J (snd (steal_refs pf healthy rs used s))"
proof (induction rs arbitrary: s used)
  case (Cons r rs)
  let ?t = "(restore (checkpoints s) (deref s r))\<lparr>task_state := T_MIGRATING\<rparr>"
  have mig: "P R J (update_task r (\<lambda>_. ?t) s)"
    using Cons.prems by (rule P_task) simp
  have "P R J (update_task r (\<lambda>t. t\<lparr>task_state := st, assigned_node := n\<rparr>) (update_task r (\<lambda>_. ?t) s))"
    "P R J (update_task r (\<lambda>t. t\<lparr>assigned_node := n, task_state := st\<rparr>) (update_task r (\<lambda>_. ?t) s))" for st n
    by (rule P_task [OF mig], simp)+
  then show ?case
    using mig by (auto simp: Let_def split: sum.split option.split intro!: bind_P Cons.IH)
qed simp

lemma redispatch_P:
  assumes "P R J s" and "fst ` set stolen \<subseteq> R"
  shows "P R J (snd (redispatch env stolen s))"
proof -
  have in_R: "r \<in> R" if "(r, n) \<in> set stolen" for r n
    using assms(2) that by force
  show ?thesis
    unfolding redispatch_def using assms(1)
    by (rule iter_on_P) (auto split: option.split intro!: dispatch_found_P intro: in_R)
qed

lemma reassign_P:
  assumes "P R J s"
  shows "P R J (snd (reassign env nid p s))"
proof -
  let ?R = "R \<union> set (orphan_refs nid s)"
  have "P ?R J s"
    using P_listed [OF assms] by (rule P_mono) (auto simp: orphan_refs_def)
  moreover obtain ns s1 where live: "live_nodes (e_now env) s = (ns, s1)"
    by fastforce
  ultimately have s1: "P ?R J s1"
    by (metis live_nodes_P snd_conv)
  have "P ?R J (snd (sbind (steal_refs pf healthy (orphan_refs nid s) {}) (redispatch env) s1))" for pf healthy
  proof (rule after_P)
    fix ps s2
    assume "steal_refs pf healthy (orphan_refs nid s) {} s1 = (Inr ps, s2)" and "P ?R J s2"
    then show "P ?R J (snd (redispatch env ps s2))"
      using steal_refs_refs by (intro redispatch_P) (auto simp flip: list.set_map)
  qed (rule steal_refs_P [OF s1])
  then have "P R J (snd (sbind (steal_refs pf healthy (orphan_refs nid s) {}) (redispatch env) s1))"
    for pf healthy by (rule P_mono) auto
  then show ?thesis
    using assms by (simp add: reassign_def Let_def live)
qed

lemma pause_on_P: "P R J s \<Longrightarrow> P R J (snd (pause_on env nid s))"
  unfolding pause_on_def Let_def
  by (rule bind_P) (auto intro!: iter_P pause_cancel_P)

lemma assign_refs_P: "P R J s \<Longrightarrow> P R J (snd (assign_refs pf ns rs used s))"
proof (induction rs arbitrary: s used)
  case (Cons r rs)
  then show ?case
    by (auto simp: Let_def split: sum.split option.split intro!: bind_P Cons.IH P_task)
qed simp

end

context jm_frame
begin

lemma cancel_job_P: "P R J s \<Longrightarrow> P R J (snd (cancel_job env jid s))"
  unfolding cancel_job_def
  by (auto split: option.split intro!: bind_P iter_P pause_cancel_P P_task P_job)

lemma wait_others_P:
  "(\<And>s. P R J s \<Longrightarrow> P R J (e_others env s)) \<Longrightarrow> P R J s \<Longrightarrow> P R J (snd (wait_others env ids s))"
  by (simp add: wait_others_def)

lemma handle_preemption_P:
  assumes "\<And>s. P R J s \<Longrightarrow> P R J (e_others env s)" and "P R J s"
  shows "P R J (snd (handle_preemption env nid s))"
  unfolding handle_preemption_def
  by (intro bind_P assms pause_on_P wait_others_P reassign_P)

end

text \<open>New task objects, and the tables of tasks as well, for operations that create tasks.\<close>

locale jm_frame_tasks = jm_frame +
  assumes P_heap: "P R J s \<Longrightarrow>
      P (R \<union> {length (task_heap s) ..< length (task_heap s) + length ts}) J (s\<lparr>task_heap := task_heap s @ ts\<rparr>)"
    and P_tasks: "P R J s \<Longrightarrow> r \<in> R \<Longrightarrow>
      P R J (s\<lparr>tasks := dict_set (task_id (deref s r)) r (tasks s)\<rparr>)"
    and P_job_tasks: "P R J s \<Longrightarrow> set rs \<subseteq> R \<Longrightarrow> P R J (s\<lparr>job_tasks := dict_set jid rs (job_tasks s)\<rparr>)"
begin

lemma alloc_task_P:
  "P R J s \<Longrightarrow> P (insert (length (task_heap s)) R) J (s\<lparr>task_heap := task_heap s @ [t]\<rparr>)"
  using P_heap [of R J s "[t]"] by simp

text \<open>A new object entered under its identifier.\<close>

lemma new_task_P:
  assumes "P R J s" and "task_id t = k"
  shows "P (insert (length (task_heap s)) R) J
    (s\<lparr>task_heap := task_heap s @ [t], tasks := dict_set k (length (task_heap s)) (tasks s)\<rparr>)"
  using P_tasks [OF alloc_task_P [OF assms(1), of t], of "length (task_heap s)"] assms(2)
  by (simp add: deref_def)

lemma fold_tasks_P:
  assumes "P R J s" and "\<forall>(r, t) \<in> set xs. r \<in> R \<and> deref s r = t"
  shows "P R J (s\<lparr>tasks := fold (\<lambda>(r, t). dict_set (task_id t) r) xs (tasks s)\<rparr>)"
  using assms
proof (induction xs arbitrary: s)
  case (Cons x xs)
  obtain r t where x: "x = (r, t)"
    by fastforce
  let ?s = "s\<lparr>tasks := dict_set (task_id (deref s r)) r (tasks s)\<rparr>"
  have "P R J ?s"
    using Cons.prems x by (intro P_tasks) auto
  moreover have "deref ?s = deref s"
    by (rule ext) (simp add: deref_def)
  ultimately have "P R J (?s\<lparr>tasks := fold (\<lambda>(r, t). dict_set (task_id t) r) xs (tasks ?s)\<rparr>)"
    using Cons.prems(2) by (intro Cons.IH) auto
  then show ?case
    using Cons.prems(2) by (simp add: x)
qed simp

lemma fold_job_tasks_P:
  assumes "P R J s" and "\<forall>(jid, rs) \<in> set d. set rs \<subseteq> R"
  shows "P R J (s\<lparr>job_tasks := fold (\<lambda>(jid, rs). dict_set jid rs) d (job_tasks s)\<rparr>)"
  using assms
proof (induction d arbitrary: s)
  case (Cons x d)
  obtain jid rs where x: "x = (jid, rs)"
    by fastforce
  let ?s = "s\<lparr>job_tasks := dict_set jid rs (job_tasks s)\<rparr>"
  have "P R J ?s"
    using Cons.prems x by (intro P_job_tasks) auto
  from Cons.IH [OF this] Cons.prems(2) show ?case
    by (simp add: x)
qed simp

lemma cluster_submit_P:
  assumes "P R J s" and "r \<in> R"
  shows "P R J (snd (cluster_submit pf now r s))"
proof -
  let ?s1 = "s\<lparr>tasks := dict_set (task_id (deref s r)) r (tasks s)\<rparr>"
  obtain ns s2 where live: "live_nodes now ?s1 = (ns, s2)"
    by fastforce
  have "P R J s2"
    using live_nodes_P [OF P_tasks [OF assms], of now] live by (metis snd_conv)
  then show ?thesis
    unfolding cluster_submit_def Let_def live
    by (auto split: sum.split option.split intro: P_task)
qed

lemma submit_refs_P: "P R J s \<Longrightarrow> set rs \<subseteq> R \<Longrightarrow> P R J (snd (submit_refs env rs s))"
proof (induction rs arbitrary: s)
  case (Cons r rs)
  then show ?case
    unfolding submit_refs.simps by (intro bind_P cluster_submit_P Cons.IH) simp_all
qed simp

lemma enter_specs_P:
  assumes "P R J s"
  shows "P (R \<union> {length (task_heap s) ..< length (task_heap s) + length specs}) J (snd (enter_specs jid specs s))"
proof -
  let ?refs = "[length (task_heap s) ..< length (task_heap s) + length specs]"
  let ?R = "R \<union> set ?refs"
  let ?s = "s\<lparr>task_heap := task_heap s @ specs, job_tasks := dict_set jid ?refs (job_tasks s)\<rparr>"
  have "P ?R J ?s"
    using P_job_tasks [OF P_heap [OF assms, of specs], of ?refs jid] by simp
  moreover have "\<forall>(r, t) \<in> set (zip ?refs specs). r \<in> ?R \<and> deref ?s r = t"
    by (auto simp: set_zip deref_def nth_append)
  ultimately have "P ?R J (?s\<lparr>tasks := fold (\<lambda>(r, t). dict_set (task_id t) r) (zip ?refs specs) (tasks ?s)\<rparr>)"
    by (rule fold_tasks_P)
  then show ?thesis
    by (simp add: enter_specs_def Let_def)
qed

lemma live_call_P:
  "P R J s \<Longrightarrow> P R J (snd (case live_nodes now s of (ns, s1) \<Rightarrow> (Inr ns, s1)))"
  using live_nodes_P [of R J s now] by (simp add: case_prod_beta)

lemma dispatch_all_P:
  assumes "P R J s" and "fst ` set ps \<subseteq> R" and "jr \<in> J"
  shows "P R J (snd (siter (\<lambda>(r, nid). sbind (persist_task r) (\<lambda>_.
       case nid of Some (c # cs) \<Rightarrow> dispatch env r jr | _ \<Rightarrow> sret ())) ps s))"
proof -
  have in_R: "r \<in> R" if "(r, n) \<in> set ps" for r n
    using assms(2) that by force
  show ?thesis
    using assms(1)
    by (rule iter_on_P)
      (auto split: option.split list.split intro!: bind_P persist_P dispatch_P assms(3) intro: in_R)
qed

end

context jm_frame_tasks
begin

lemma start_job_P:
  assumes "P R J s" and jr: "jr \<in> J"
  shows "P R J (snd (start_job env m jid tid uuids jr s))"
  unfolding start_job_def Let_def
proof (rule bind_P [OF assms(1)], goal_cases)
  case (2 x s)
  note s = 2
  show ?case
  proof (rule after_P, goal_cases)
    case 1
    show ?case by (rule P_mono [OF enter_specs_P [OF s]]) auto
  next
    case (2 refs s1)
    then have refs: "P (R \<union> set refs) J s1"
      using enter_specs_P [OF s] by (auto simp: enter_specs_def Let_def)
    show ?case
    proof (rule P_mono [where R = "R \<union> set refs" and J = J], rule bind_P [OF refs], goal_cases)
      case (1 s2)
      then show ?case by (rule live_call_P)
    next
      case (2 ns s2)
      note s2 = 2
      show ?case
      proof (rule after_P, goal_cases)
        case 1
        show ?case using s2 by (auto intro: assign_refs_P submit_refs_P)
      next
        case (2 ps s3)
        then have "map fst ps = refs"
          using assign_refs_refs submit_refs_refs by (auto split: if_splits)
        then have "fst ` set ps \<subseteq> R \<union> set refs"
          by (auto simp flip: list.set_map)
        then show ?case
          using 2(2) jr by (intro bind_P persist_P dispatch_all_P) (simp_all add: P_job)
      qed
    qed auto
  qed
qed (simp add: P_job)

end

text \<open>New job objects and all tables of the cluster and the manager.\<close>

locale jm_frame_all = jm_frame_tasks +
  assumes P_job_heap: "P R J s \<Longrightarrow> P R (insert (length (job_heap s)) J) (s\<lparr>job_heap := job_heap s @ [j]\<rparr>)"
    and P_jobs: "P R J s \<Longrightarrow> jr \<in> J \<Longrightarrow> P R J (s\<lparr>jobs := dict_set (job_id (job_at s jr)) jr (jobs s)\<rparr>)"
    and P_idempotency: "P R J s \<Longrightarrow> dict_get (jobs s) jid \<noteq> None \<Longrightarrow>
      P R J (s\<lparr>idempotency := dict_set k jid (idempotency s)\<rparr>)"
    and P_registry: "P R J s \<Longrightarrow> P R J (s\<lparr>registry := rg\<rparr>)"
    and P_checkpoints: "P R J s \<Longrightarrow> P R J (s\<lparr>checkpoints := cps\<rparr>)"
    and P_nodes: "P R J s \<Longrightarrow> P R J (s\<lparr>nodes := ns\<rparr>)"
    and P_agents: "P R J s \<Longrightarrow> P R J (s\<lparr>remote_agents := ra\<rparr>)"
    and P_changes: "P R J s \<Longrightarrow> P R J (s\<lparr>state_changes := sc\<rparr>)"
    and P_dead: "P R J s \<Longrightarrow> P R J (s\<lparr>explicit_dead := ed\<rparr>)"
begin

lemma listed_P:
  assumes "P R J s" and "dict_get (tasks s) k = Some r"
  shows "P (insert r R) J s"
  by (rule P_mono [OF P_listed [OF assms(1)]]) (use assms(2) map_of_SomeD in \<open>force+\<close>)

lemma new_job_P:
  assumes "P R J s" and "job_id j = k"
  shows "P R (insert (length (job_heap s)) J)
    (s\<lparr>job_heap := job_heap s @ [j], jobs := dict_set k (length (job_heap s)) (jobs s)\<rparr>)"
  using P_jobs [OF P_job_heap [OF assms(1), of j], of "length (job_heap s)"] assms(2)
  by (simp add: job_at_def)

lemma create_job_P:
  assumes "P R J s"
  shows "P R (insert (length (job_heap s)) J) (snd (create_job jid name idem s))"
proof -
  have new: "P R (insert (length (job_heap s)) J) (s\<lparr>job_heap := job_heap s @ [new_job jid name idem],
      jobs := dict_set jid (length (job_heap s)) (jobs s)\<rparr>)"
    by (rule new_job_P [OF assms]) (simp add: new_job_def)
  then show ?thesis
    using P_idempotency [OF new, of jid]
    by (auto simp: create_job_def alloc_job_def Let_def split: option.split list.split)
qed

lemma create_job_ref: "create_job jid name idem s = (Inr jr, s1) \<Longrightarrow> jr = length (job_heap s)"
  by (auto simp: create_job_def alloc_job_def Let_def)

text \<open>What is done with the new job may use it.\<close>

lemma with_job_P:
  assumes "P R J s" and "\<And>jr s1. P R (insert jr J) s1 \<Longrightarrow> P R (insert jr J) (snd (f jr s1))"
  shows "P R J (snd (sbind (create_job jid name idem) f s))"
proof (rule after_P)
  show "P R J (snd (create_job jid name idem s))"
    by (rule P_mono [OF create_job_P [OF assms(1)]]) auto
next
  fix jr s1
  assume "create_job jid name idem s = (Inr jr, s1)"
  then have "P R (insert jr J) s1"
    using create_job_P [OF assms(1), of jid name idem] create_job_ref by fastforce
  from assms(2) [OF this] show "P R J (snd (f jr s1))"
    by (rule P_mono) auto
qed

lemma with_specs_P:
  assumes "P R J s" and "\<And>refs s1. P (R \<union> set refs) J s1 \<Longrightarrow> length refs = length specs \<Longrightarrow>
    P (R \<union> set refs) J (snd (f refs s1))"
  shows "P R J (snd (sbind (enter_specs jid specs) f s))"
proof (rule after_P)
  show "P R J (snd (enter_specs jid specs s))"
    by (rule P_mono [OF enter_specs_P [OF assms(1)]]) auto
next
  fix refs s1
  assume "enter_specs jid specs s = (Inr refs, s1)"
  then have "P (R \<union> set refs) J s1" "length refs = length specs"
    using enter_specs_P [OF assms(1), of specs jid] by (auto simp: enter_specs_def Let_def)
  from assms(2) [OF this] show "P R J (snd (f refs s1))"
    by (rule P_mono) auto
qed

lemma submit_job_P: "P R J s \<Longrightarrow> P R J (snd (submit_job env m idem jid tid uuids s))"
  unfolding submit_job_def
  by (rule bind_P) (auto simp: P_registry split: option.split intro!: with_job_P start_job_P)

lemma hd_new: "length refs = length [x] \<Longrightarrow> hd refs \<in> R \<union> set refs"
  by (cases refs) auto

lemma submit_remote_P: "P R J s \<Longrightarrow> P R J (snd (submit_remote_by_name env name work cp jid tid s))"
  unfolding submit_remote_by_name_def
  by (intro with_job_P with_specs_P bind_P cluster_submit_P hd_new)
    (auto simp: P_job split: option.split list.split intro!: dispatch_remote_P hd_new)

lemma submit_notebook_P: "P R J s \<Longrightarrow> P R J (snd (submit_notebook_cell env code lang jid tid s))"
  unfolding submit_notebook_cell_def
  by (intro with_job_P with_specs_P bind_P cluster_submit_P persist_P hd_new)
    (auto simp: P_job split: option.split list.split intro!: bind_P dispatch_remote_P hd_new)

lemma force_dead_P:
  assumes "\<And>s. P R J s \<Longrightarrow> P R J (snd (death nid s))" and "P R J s"
  shows "P R J (snd (force_state [on_state_change (Some death) now] nid DEAD s))"
proof -
  have "P R J (mark_dead nid s)"
    using assms(2) P_dead [OF P_states [OF assms(2)]] by (simp add: mark_dead_def)
  moreover have "P R J (snd (on_state_change (Some death) now nid old DEAD s))" if "P R J s" for s old
    using that assms(1) by (simp add: on_state_change_def Let_def P_changes)
  ultimately show ?thesis
    by (auto simp: force_state_def Let_def notify_def intro!: bind_P)
qed

lemma node_death_P:
  assumes "\<And>s. P R J s \<Longrightarrow> P R J (e_others env s)"
  shows "P R J s \<Longrightarrow> P R J (snd (node_death n env nid s))"
proof (induction n arbitrary: s)
  case (Suc n)
  have "P R J ((update_node_state nid DEAD s)\<lparr>remote_agents := d\<rparr>)" if "P R J s" for s d
    using that by (auto simp: update_node_state_def split: option.split intro: P_agents P_nodes)
  then show ?case
    unfolding node_death.simps
    by (intro bind_P Suc.prems force_dead_P Suc.IH pause_on_P wait_others_P assms reassign_P) simp_all
qed simp

lemma run_local_P:
  assumes "P R J s"
  shows "P R J (snd (run_local env clock is_set fn r jr s))"
proof -
  obtain res spec' x' where ex: "execute clock is_set fn (deref s r)
      (clear_interrupt (task_id (deref s r))
         \<lparr>exec_checkpoints = checkpoints s, exec_interrupts = interrupts s\<rparr>) = (res, spec', x')"
    by (metis surj_pair)
  let ?s0 = "s\<lparr>checkpoints := exec_checkpoints x', interrupts := exec_interrupts x'\<rparr>"
  let ?s1 = "update_task r (\<lambda>_. spec') ?s0"
  have "task_id spec' = task_id (deref ?s0 r)"
    using execute_task_id [OF ex] by (simp add: deref_def)
  then have s1: "P R J ?s1"
    using assms by (auto intro!: P_task P_interrupts P_checkpoints)
  have after: "P R J (snd (case res of
        Inl e \<Rightarrow> (Inl e, ?s1)
      | Inr v \<Rightarrow> if task_state spec' = T_COMPLETED then on_task_complete env r jr v ?s1
                 else (Inr (), ?s1)))"
    using s1 by (auto split: sum.split intro: on_task_complete_P)
  have failed: "P R J (snd (on_task_failed r jr m (update_task r (\<lambda>t. t\<lparr>task_state := T_FAILED\<rparr>) s2)))"
    if "P R J s2" for m s2
    using that by (intro on_task_failed_P P_task) simp_all
  show ?thesis
    using after failed unfolding run_local_def Let_def ex
    by (auto split: prod.splits sum.splits intro!: pop_running_P)
      (metis snd_conv)+
qed

lemma speculate_P: "P R J s \<Longrightarrow> P R J (snd (speculate env uuid rs s))"
proof (induction rs arbitrary: s R J)
  case (Cons r rs)
  show ?case
  proof (cases "find_job_for_task s r")
    case (Some jr)
    let ?d = "length (task_heap s)"
    let ?dup = "(deref s r)\<lparr>task_id := uuid r, replica_index := replica_index (deref s r) + 100,
                          task_state := T_PENDING, assigned_node := None\<rparr>"
    obtain k where "dict_get (jobs s) k = Some jr"
      using find_job_listed [OF Some] by blast
    then have "P R (insert jr J) s"
      using P_job_listed Cons.prems by blast
    from new_task_P [OF this, of ?dup "uuid r"]
    have s1: "P (insert ?d R) (insert jr J) (s\<lparr>task_heap := task_heap s @ [?dup],
        tasks := dict_set (uuid r) ?d (tasks s)\<rparr>)"
      by simp
    have more: "P (insert ?d R) (insert jr J) (snd (sbind (smodify (\<lambda>s. s\<lparr>speculator := f s\<rparr>)) (\<lambda>_.
                      sbind (dispatch env ?d jr) (\<lambda>_.
                      sbind (persist_task ?d) (\<lambda>_.
                      sbind (speculate env uuid rs) (\<lambda>n. sret (n + 1))))) s))"
      if "P (insert ?d R) (insert jr J) s" for s f
      using that by (intro bind_P dispatch_P persist_P Cons.IH) (simp_all add: P_spec)
    have "P (insert ?d R) (insert jr J) (snd (sbind (cluster_submit (e_place env) (e_now env) ?d) (\<lambda>nid.
                  case nid of
                    Some (c # cs) \<Rightarrow>
                      sbind (smodify (\<lambda>s. s\<lparr>speculator :=
                               mark_speculative (task_id (deref s0 r)) (uuid r) (speculator s)\<rparr>)) (\<lambda>_.
                      sbind (dispatch env ?d jr) (\<lambda>_.
                      sbind (persist_task ?d) (\<lambda>_.
                      sbind (speculate env uuid rs) (\<lambda>n. sret (n + 1)))))
                  | _ \<Rightarrow> speculate env uuid rs) (s\<lparr>task_heap := task_heap s @ [?dup],
        tasks := dict_set (uuid r) ?d (tasks s)\<rparr>)))" for s0
      by (rule bind_P [OF s1])
        (auto intro!: cluster_submit_P Cons.IH more split: option.split list.split simp del: smodify_apply)
    from P_mono [OF this, of R J s] show ?thesis
      using Cons by (auto simp: Some Let_def alloc_task_def)
  qed (simp add: Cons)
qed simp

lemma check_speculation_P: "P R J s \<Longrightarrow> P R J (snd (check_speculation env uuid s))"
  by (simp add: check_speculation_def Let_def speculate_P)

lemma move_task_P:
  assumes "P R J s" and "r \<in> R"
  shows "P R J (snd (sbind (pause_task env r) (\<lambda>_.
                   sbind (smodify (update_task r
                            (\<lambda>t. t\<lparr>assigned_node := Some n, task_state := T_MIGRATING\<rparr>))) (\<lambda>_ s.
                     case find_job_for_task s r of
                       None \<Rightarrow> (Inr (), s)
                     | Some jr \<Rightarrow> sbind (dispatch env r jr) (\<lambda>_. persist_task r) s)) s))"
  by (intro bind_P assms(1) pause_cancel_P)
    (auto simp: P_task split: option.split intro!: after_P dispatch_found_P assms(2) persist_P)

lemma run_rebalance_P: "P R J s \<Longrightarrow> P R J (snd (run_rebalance env s))"
proof -
  assume s: "P R J s"
  obtain ns s1 where live: "live_nodes (e_now env) s = (ns, s1)"
    by fastforce
  have s1: "P R J s1"
    using live_nodes_P [OF s, of "e_now env"] live by simp
  have move: "P R J (snd (sbind (pause_task env r) (\<lambda>_.
                   sbind (smodify (update_task r
                            (\<lambda>t. t\<lparr>assigned_node := Some n, task_state := T_MIGRATING\<rparr>))) (\<lambda>_ s.
                     case find_job_for_task s r of
                       None \<Rightarrow> (Inr (), s)
                     | Some jr \<Rightarrow> sbind (dispatch env r jr) (\<lambda>_. persist_task r) s)) s))"
    if "P R J s" "dict_get (tasks s) k = Some r" for s k r n
    by (rule P_mono [OF move_task_P [OF listed_P [OF that]]]) auto
  from s1 show ?thesis
    unfolding run_rebalance_def live prod.case Let_def
    by (intro bind_P iter_P) (simp_all add: move split: option.split)
qed

lemma restore_job_P:
  assumes "P R J s"
  shows "P R J (restore_job j s)"
proof -
  let ?s = "s\<lparr>job_heap := job_heap s @ [j], jobs := dict_set (job_id j) (length (job_heap s)) (jobs s)\<rparr>"
  have new: "P R J ?s"
    by (rule P_mono [OF new_job_P [OF assms]]) auto
  then show ?thesis
    using P_idempotency [OF new, of "job_id j"]
    by (auto simp: restore_job_def alloc_job_def Let_def split: option.split list.split)
qed

lemma restore_jobs_P: "P R J s \<Longrightarrow> P R J (fold restore_job js s)"
  by (induction js arbitrary: s) (auto intro: restore_job_P)

lemma restore_tasks_P:
  assumes "P (R \<union> refs_in d) J s"
  shows "P (R \<union> refs_in (fst (restore_tasks ts d s))) J (snd (restore_tasks ts d s))"
  using assms
proof (induction ts arbitrary: d s)
  case (Cons t ts)
  let ?r = "length (task_heap s)"
  let ?t = "t\<lparr>task_fn := dict_get (registry s) (task_name t)\<rparr>"
  let ?d = "case task_job_id t of
             Some (c # cs) \<Rightarrow> dict_set (c # cs) (dict_get_default d (c # cs) [] @ [?r]) d
           | _ \<Rightarrow> d"
  have "P (insert ?r (R \<union> refs_in d)) J (s\<lparr>task_heap := task_heap s @ [?t],
      tasks := dict_set (task_id t) ?r (tasks s)\<rparr>)"
    by (rule new_task_P [OF Cons.prems]) simp
  note new = P_mono [OF this]
  have "refs_in ?d \<subseteq> insert ?r (refs_in d)"
    using refs_in_append by (auto split: option.split list.split)
  then have "P (R \<union> refs_in ?d) J (s\<lparr>task_heap := task_heap s @ [?t],
      tasks := dict_set (task_id t) ?r (tasks s)\<rparr>)"
    by (intro new) auto
  from Cons.IH [OF this] show ?case
    by (simp add: restore_task_def alloc_task_def)
qed simp

lemma resume_running_P: "P R J s \<Longrightarrow> P R J (snd (resume_running env st t s))"
proof -
  have "P R J (snd ((\<lambda>s. case alloc_task t1 s of (r, s1) \<Rightarrow>
             (case find_job_for_task s1 r of
                None \<Rightarrow> (Inr (), s1)
              | Some jr \<Rightarrow> if is_terminal (job_at s1 jr) then (Inr (), s1) else dispatch env r jr s1)) s))"
    if "P R J s" for t1 s
  proof (rule P_mono)
    show "P (insert (length (task_heap s)) R) J (snd ((\<lambda>s. case alloc_task t1 s of (r, s1) \<Rightarrow>
             (case find_job_for_task s1 r of
                None \<Rightarrow> (Inr (), s1)
              | Some jr \<Rightarrow> if is_terminal (job_at s1 jr) then (Inr (), s1) else dispatch env r jr s1)) s))"
      using alloc_task_P [OF that, of t1]
      by (auto simp: alloc_task_def split: option.split intro: dispatch_found_P)
  qed auto
  then show "P R J s \<Longrightarrow> P R J (snd (resume_running env st t s))"
    unfolding resume_running_def Let_def by (auto intro!: bind_P)
qed

lemma resume_from_store_P: "P R J s \<Longrightarrow> P R J (snd (resume_from_store env st s))"
proof -
  have enter: "P R J (case restore_tasks ts [] s of (d, s1) \<Rightarrow>
              s1\<lparr>job_tasks := fold (\<lambda>(jid, refs). dict_set jid refs) d (job_tasks s1)\<rparr>)" if "P R J s" for ts s
  proof -
    obtain d s1 where r: "restore_tasks ts [] s = (d, s1)"
      by fastforce
    have "P (R \<union> refs_in d) J s1"
      using restore_tasks_P [of R "[]" J s ts] that by (simp add: r refs_in_def)
    then have "P (R \<union> refs_in d) J (s1\<lparr>job_tasks := fold (\<lambda>(jid, refs). dict_set jid refs) d (job_tasks s1)\<rparr>)"
      by (rule fold_job_tasks_P) (auto simp: refs_in_def)
    from P_mono [OF this, of R J] show ?thesis
      by (simp add: r)
  qed
  show "P R J s \<Longrightarrow> P R J (snd (resume_from_store env st s))"
    unfolding resume_from_store_def
    by (intro bind_P iter_P) (simp_all add: restore_jobs_P resume_running_P enter)
qed

end

end
