(* ===== verification/JobGaps.thy ===== *)
theory JobGaps
  imports JobFrames
begin

section \<open>Dispatch, completion and resumption of the job manager\<close>

text \<open>
  What dispatch does to the log of calls and the table of running tasks, completion of a job that
  is already finished, resumption from the store, and the refinement of the work stealer by the
  manager's loop over task objects.
\<close>

subsection \<open>Frames of the elementary updates\<close>

lemma write_store_frame [simp]:
  "running (write_store f s) = running s" "rpc_log (write_store f s) = rpc_log s"
  "thread_log (write_store f s) = thread_log s" "tasks (write_store f s) = tasks s"
  "task_heap (write_store f s) = task_heap s" "job_heap (write_store f s) = job_heap s"
  "jobs (write_store f s) = jobs s" "job_tasks (write_store f s) = job_tasks s"
  "remote_agents (write_store f s) = remote_agents s"
  "speculator (write_store f s) = speculator s"
  by (simp_all add: write_store_def split: option.split)

lemma update_task_frame [simp]:
  "running (update_task r f s) = running s" "rpc_log (update_task r f s) = rpc_log s"
  "thread_log (update_task r f s) = thread_log s" "tasks (update_task r f s) = tasks s"
  "job_heap (update_task r f s) = job_heap s" "jobs (update_task r f s) = jobs s"
  "job_tasks (update_task r f s) = job_tasks s" "checkpoints (update_task r f s) = checkpoints s"
  "remote_agents (update_task r f s) = remote_agents s"
  "length (task_heap (update_task r f s)) = length (task_heap s)"
  by (simp_all add: update_task_def)

lemma update_job_frame [simp]:
  "running (update_job r f s) = running s" "rpc_log (update_job r f s) = rpc_log s"
  "thread_log (update_job r f s) = thread_log s" "tasks (update_job r f s) = tasks s"
  "task_heap (update_job r f s) = task_heap s" "jobs (update_job r f s) = jobs s"
  "job_tasks (update_job r f s) = job_tasks s"
  "remote_agents (update_job r f s) = remote_agents s"
  "length (job_heap (update_job r f s)) = length (job_heap s)"
  by (simp_all add: update_job_def)

lemma deref_update [simp]:
  "r < length (task_heap s) \<Longrightarrow> deref (update_task r f s) r = f (deref s r)"
  "r' \<noteq> r \<Longrightarrow> deref (update_task r f s) r' = deref s r'"
  by (simp_all add: deref_def update_task_def)

lemma deref_id:
  "(\<And>t. task_id (f t) = task_id t) \<Longrightarrow> task_id (deref (update_task r f s) r') = task_id (deref s r')"
  by (cases "r' = r"; cases "r < length (task_heap s)") (simp_all add: deref_def update_task_def list_update_beyond)

lemma deref_other [simp]:
  "deref (write_store f s) r = deref s r" "deref (update_job j g s) r = deref s r"
  "deref (s\<lparr>running := x\<rparr>) r = deref s r" "deref (s\<lparr>rpc_log := l\<rparr>) r = deref s r"
  "deref (s\<lparr>speculator := sp\<rparr>) r = deref s r" "deref (pop_running tid s) r = deref s r"
  by (simp_all add: deref_def pop_running_def)

lemma evaluate_jm [simp]:
  "running (snd (evaluate now nid s)) = running s" "rpc_log (snd (evaluate now nid s)) = rpc_log s"
  by (simp_all add: evaluate_def)

lemma live_loop_jm [simp]:
  "running (snd (live_loop now ns s)) = running s" "rpc_log (snd (live_loop now ns s)) = rpc_log s"
  by (induction ns arbitrary: s rule: dict_induct)
    (simp_all only: live_loop_Cons live_loop.simps(1) snd_conv evaluate_jm)

lemma live_nodes_jm [simp]:
  "running (snd (live_nodes now s)) = running s" "rpc_log (snd (live_nodes now s)) = rpc_log s"
  by (simp_all add: live_nodes_eq)

lemma on_task_failed_running [simp]:
  "running (snd (on_task_failed r jr err s)) = dict_pop (task_id (deref s r)) (running s)"
  "rpc_log (snd (on_task_failed r jr err s)) = rpc_log s"
  by (auto simp: on_task_failed_def sbind_def persist_job_def persist_task_def pop_running_def Let_def
      split: prod.split)

subsection \<open>A task that is listed as running is not sent again\<close>

text \<open>The task is listed as running, and no call assigns it beyond the log \<open>l0\<close>.\<close>

definition quiet :: "string \<Rightarrow> rpc list \<Rightarrow> job_manager \<Rightarrow> bool" where
  "quiet tid l0 s \<longleftrightarrow>
     dict_get (running s) tid \<noteq> None
     \<and> (\<exists>ext. rpc_log s = l0 @ ext
          \<and> (\<forall>node a. AssignTask node a \<in> set ext \<longrightarrow> as_task_id a \<noteq> tid))"

lemma quiet_cong:
  "running s' = running s \<Longrightarrow> rpc_log s' = rpc_log s \<Longrightarrow> quiet tid l0 s' = quiet tid l0 s"
  by (simp add: quiet_def)

lemma quiet_start: "dict_get (running s) tid \<noteq> None \<Longrightarrow> quiet tid (rpc_log s) s"
  by (simp add: quiet_def)

lemma quiet_log:
  assumes "quiet tid l0 s" and "\<And>node a. c = AssignTask node a \<Longrightarrow> as_task_id a \<noteq> tid"
    and "running s' = running s" and "rpc_log s' = rpc_log s @ [c]"
  shows "quiet tid l0 s'"
proof -
  obtain ext where "rpc_log s = l0 @ ext"
    "\<forall>node a. AssignTask node a \<in> set ext \<longrightarrow> as_task_id a \<noteq> tid"
    using assms(1) by (auto simp: quiet_def)
  then have "rpc_log s' = l0 @ (ext @ [c])
      \<and> (\<forall>node a. AssignTask node a \<in> set (ext @ [c]) \<longrightarrow> as_task_id a \<noteq> tid)"
    using assms(2,4) by auto
  then have "\<exists>ext. rpc_log s' = l0 @ ext
      \<and> (\<forall>node a. AssignTask node a \<in> set ext \<longrightarrow> as_task_id a \<noteq> tid)"
    by (intro exI [of _ "ext @ [c]"])
  then show ?thesis
    using assms(1,3) by (simp add: quiet_def)
qed

lemma quiet_pop:
  assumes "quiet tid l0 s" and "dict_get (running s') tid = dict_get (running s) tid"
    and "rpc_log s' = rpc_log s"
  shows "quiet tid l0 s'"
  using assms by (simp add: quiet_def)

lemma dispatch_remote_quiet:
  assumes q: "quiet tid l0 s"
  shows "quiet tid l0 (snd (dispatch_remote env r jr s))"
proof (cases "\<exists>nid. assigned_node (deref s r) = Some nid \<and> get_remote nid s \<noteq> None
    \<and> dict_get (running s) (task_id (deref s r)) = None")
  case False
  then have "snd (dispatch_remote env r jr s) = s"
    by (auto simp: dispatch_remote_def Let_def split: option.split)
  with q show ?thesis by simp
next
  case True
  let ?tid = "task_id (deref s r)"
  obtain nid where nid: "assigned_node (deref s r) = Some nid" "get_remote nid s \<noteq> None"
    and free: "dict_get (running s) ?tid = None"
    using True by blast
  have ne: "?tid \<noteq> tid"
    using q free by (auto simp: quiet_def)
  let ?c = "AssignTask nid (assignment_for s r)"
  let ?s1 = "s\<lparr>running := dict_set ?tid \<lparr>run_spec = r, run_job = jr, run_remote = True\<rparr> (running s)\<rparr>"
  let ?s2 = "?s1\<lparr>rpc_log := rpc_log s @ [?c]\<rparr>"
  have q1: "quiet tid l0 ?s1"
    using q ne by (simp add: quiet_def)
  have as_id: "as_task_id (assignment_for s r) = ?tid"
    by (simp add: assignment_for_def Let_def)
  have q2: "quiet tid l0 ?s2"
    using ne as_id by (intro quiet_log [OF q1, of ?c]) auto
  let ?fail = "\<lambda>msg. sbind (smodify (update_task r (\<lambda>t. t\<lparr>task_state := T_FAILED\<rparr>))) (\<lambda>_.
                    sbind (on_task_failed r jr msg) (\<lambda>_.
                      smodify (pop_running ?tid)))"
  have fail: "quiet tid l0 (snd (?fail msg ?s2))" for msg
  proof -
    let ?s3 = "update_task r (\<lambda>t. t\<lparr>task_state := T_FAILED\<rparr>) ?s2"
    have id3: "task_id (deref ?s3 r) = ?tid"
      by (simp add: deref_id)
    have q3: "quiet tid l0 (snd (on_task_failed r jr msg ?s3))"
      using ne by (intro quiet_pop [OF q2]) (simp_all add: id3)
    obtain x s4 where s4: "on_task_failed r jr msg ?s3 = (x, s4)" by fastforce
    have q4: "quiet tid l0 s4" using q3 by (simp only: s4 snd_conv)
    have "quiet tid l0 (pop_running ?tid s4)"
      using ne by (intro quiet_pop [OF q4]) (simp_all add: pop_running_def)
    then show ?thesis
      using q4 by (cases x) (simp_all add: sbind_def s4)
  qed
  obtain n where get: "get_remote nid s = Some n"
    using nid by auto
  have call: "call_agent env ?c ?s1 = (Inr (e_reply env ?c), ?s2)"
    by (simp add: call_agent_def)
  have "dispatch_remote env r jr s =
      sbind (call_agent env ?c) (\<lambda>reply. case reply of
        Ack ok msg \<Rightarrow> if ok then sret () else ?fail msg
      | RpcError msg \<Rightarrow> ?fail msg) ?s1"
    unfolding dispatch_remote_def Let_def nid(1) by (simp only: option.case get free not_None_eq simp_thms if_True if_False option.distinct)
  also have "\<dots> = (case e_reply env ?c of
        Ack ok msg \<Rightarrow> if ok then sret () else ?fail msg
      | RpcError msg \<Rightarrow> ?fail msg) ?s2"
    by (rule sbind_Inr [where m = "call_agent env ?c", OF call])
  finally show ?thesis
    using q2 fail by (cases "e_reply env ?c") (simp_all only: rpc_reply.case sret_apply snd_conv simp_thms split: if_split)
qed

lemma dispatch_quiet:
  assumes "quiet tid l0 s"
  shows "quiet tid l0 (snd (dispatch env r jr s))"
proof -
  let ?s = "s\<lparr>speculator := record_start (e_now env) (task_id (deref s r)) (speculator s)\<rparr>"
  have s: "quiet tid l0 ?s"
    using assms by (simp add: quiet_def)
  have "quiet tid l0 (start_local_execution r jr ?s)"
    using s by (auto simp: start_local_execution_def Let_def quiet_def)
  then show ?thesis
    using s dispatch_remote_quiet [OF s]
    by (simp add: dispatch_def sbind_def Let_def)
qed

lemma steal_refs_quiet:
  "quiet tid l0 s \<Longrightarrow> quiet tid l0 (snd (steal_refs pf healthy rs used s))"
proof (induction rs arbitrary: s used)
  case (Cons r rs)
  have upd: "quiet tid l0 (update_task r f s') = quiet tid l0 s'" for f s'
    by (rule quiet_cong) simp_all
  show ?case
    using Cons by (auto simp: Let_def upd split: sum.split option.split
        intro!: sbind_keeps [where P = "quiet tid l0"])
qed simp

lemma signal_quiet:
  assumes "quiet tid l0 s" and "\<And>n t. \<exists>n' t'. mk n t = PauseTask n' t' \<or> mk n t = CancelTask n' t'"
  shows "quiet tid l0 (snd (signal_task mk env r s))"
proof -
  have intr: "quiet tid l0 (interrupt_local t s)" for t
    using assms(1) by (simp add: interrupt_local_def quiet_def split: option.split)
  have call: "quiet tid l0 (s\<lparr>rpc_log := rpc_log s @ [mk n t]\<rparr>)" for n t
    using assms(2) [of n t] by (intro quiet_log [OF assms(1), of "mk n t"]) auto
  then show ?thesis
    using intr
    by (auto simp: signal_task_def Let_def sbind_def call_agent_def
        split: option.split list.split rpc_reply.split)
qed

lemma reassign_quiet:
  assumes "quiet tid l0 s"
  shows "quiet tid l0 (snd (reassign env nid p s))"
proof -
  obtain ns s1 where live: "live_nodes (e_now env) s = (ns, s1)"
    by fastforce
  have "running s1 = running s" "rpc_log s1 = rpc_log s"
    using live_nodes_jm [of "e_now env" s] by (simp_all add: live)
  then have q1: "quiet tid l0 s1"
    using assms quiet_cong by blast
  have re: "quiet tid l0 (snd (redispatch env st s'))" if "quiet tid l0 s'" for st s'
    unfolding redispatch_def using that
    by (rule siter_keeps) (auto split: option.split intro: dispatch_quiet)
  show ?thesis
    using assms unfolding reassign_def Let_def live
    by (auto intro!: sbind_keeps [where P = "quiet tid l0"] steal_refs_quiet q1 re)
qed

lemma pause_on_quiet: "quiet tid l0 s \<Longrightarrow> quiet tid l0 (snd (pause_on env nid s))"
  unfolding pause_on_def Let_def
  by (rule sbind_keeps)
    (auto simp: pause_task_def intro!: siter_keeps [where P = "quiet tid l0"] signal_quiet)

text \<open>While the operation sleeps, no thread touches the running tasks or calls an agent.\<close>

definition others_idle :: "jm_env \<Rightarrow> bool" where
  "others_idle env \<longleftrightarrow>
     (\<forall>s. running (e_others env s) = running s \<and> rpc_log (e_others env s) = rpc_log s)"

lemma wait_quiet: "others_idle env \<Longrightarrow> quiet tid l0 s \<Longrightarrow> quiet tid l0 (snd (wait_others env ids s))"
  by (simp add: wait_others_def others_idle_def quiet_def)

lemma node_death_quiet:
  assumes "others_idle env"
  shows "quiet tid l0 s \<Longrightarrow> quiet tid l0 (snd (node_death n env nid s))"
proof (induction n arbitrary: s)
  case (Suc n)
  have start: "quiet tid l0 ((update_node_state nid DEAD s)\<lparr>remote_agents := d\<rparr>)"
    if "quiet tid l0 s" for s d
    using that by (simp add: quiet_def update_node_state_def split: option.split)
  have change: "quiet tid l0 (snd (on_state_change (Some (node_death n env)) (e_now env) nid old DEAD s))"
    if "quiet tid l0 s" for s old
  proof -
    have "quiet tid l0 (s\<lparr>state_changes := c\<rparr>)" for c
      using that by (simp add: quiet_def)
    then show ?thesis by (simp add: on_state_change_def Let_def Suc.IH)
  qed
  have force: "quiet tid l0 (snd (force_state [on_state_change (Some (node_death n env)) (e_now env)] nid DEAD s))"
    if "quiet tid l0 s" for s
  proof -
    have "quiet tid l0 (mark_dead nid s)"
      using that by (simp add: quiet_def mark_dead_def)
    then show ?thesis
      by (auto simp: force_state_def Let_def notify_def
          intro!: sbind_keeps [where P = "quiet tid l0"] change)
  qed
  show ?case
    unfolding node_death.simps using Suc.prems
    by (intro sbind_keeps [where P = "quiet tid l0"] force pause_on_quiet wait_quiet assms reassign_quiet)
      (simp_all add: start)
qed simp


subsection \<open>A death is handled at a depth of at most two\<close>

lemma force_dead_known:
  "tracker_state nid s = DEAD \<Longrightarrow> force_state cbs nid DEAD s = (Inr (), mark_dead nid s)"
  by (simp add: force_state_def)

lemma bind_smodify: "sbind (smodify f) g s = g () (f s)"
  by (simp add: sbind_def)

lemma node_death_known:
  assumes "tracker_state nid s = DEAD"
  shows "node_death (Suc n) env nid s = node_death (Suc m) env nid s"
proof -
  let ?s = "(update_node_state nid DEAD s)\<lparr>remote_agents := dict_pop nid (remote_agents s)\<rparr>"
  have dead: "tracker_state nid ?s = DEAD"
    using assms by (simp add: tracker_state_def update_node_state_def split: option.split)
  have force: "force_state cbs nid DEAD ?s = (Inr (), mark_dead nid ?s)" for cbs
    by (rule force_dead_known [OF dead])
  show ?thesis
    unfolding node_death.simps bind_smodify
    by (simp only: sbind_def force prod.case sum.case)
qed

text \<open>
  The death of a node is handled to the end: the notification calls the handler again at most
  once, so any larger depth gives the same result.
\<close>

lemma handle_node_death_depth: "node_death (n + 2) env nid s = handle_node_death env nid s"
proof -
  have change: "on_state_change (Some (node_death (Suc n) env)) now nid old DEAD s =
      on_state_change (Some (node_death 1 env)) now nid old DEAD s"
    if "tracker_state nid s = DEAD" for s old now
  proof -
    have "tracker_state nid (s\<lparr>state_changes := c\<rparr>) = DEAD" for c
      using that by (simp add: tracker_state_def)
    from node_death_known [OF this, of n env _ 0] show ?thesis
      by (simp add: on_state_change_def Let_def)
  qed
  have "tracker_state nid (mark_dead nid s) = DEAD" for s :: job_manager
    by (simp add: mark_dead_def tracker_state_def)
  then have "force_state [on_state_change (Some (node_death (Suc n) env)) now] nid DEAD
      = force_state [on_state_change (Some (node_death 1 env)) now] nid DEAD" for now
    using change by (intro ext) (simp add: force_state_def notify_def sbind_def Let_def)
  then show ?thesis
    by (simp add: handle_node_death_def numeral_2_eq_2)
qed

subsection \<open>Completion of a finished job\<close>

lemma duplicate_cleared [simp]: "duplicate_id tid (clear tid sp) = None"
  by (simp add: duplicate_id_def clear_def)

lemma job_at_update [simp]:
  "jr < length (job_heap s) \<Longrightarrow> job_at (update_job jr f s) jr = f (job_at s jr)"
  by (simp add: job_at_def update_job_def)

lemma job_at_other [simp]:
  "job_at (write_store f s) jr = job_at s jr" "job_at (pop_running tid s) jr = job_at s jr"
  "job_at (s\<lparr>speculator := sp\<rparr>) jr = job_at s jr" "job_at (s\<lparr>running := x\<rparr>) jr = job_at s jr"
  by (simp_all add: job_at_def pop_running_def)

text \<open>
  A job is never final: when a task of a job with one task reports completion, the job is
  completed with the reported result whatever its state was, cancelled and failed included;
  and no agent is called, not even for a speculative duplicate of the task.
\<close>

lemma completion_result:
  assumes "jr < length (job_heap s)" and "length (specs_of (job_id (job_at s jr)) s) \<le> 1"
  shows "\<exists>s'. on_task_complete env r jr res s = (Inr (), s')
    \<and> job_state (job_at s' jr) = J_COMPLETED \<and> job_result (job_at s' jr) = res
    \<and> rpc_log s' = rpc_log s"
proof -
  let ?tid = "task_id (deref s r)"
  let ?s1 = "(pop_running ?tid s)\<lparr>speculator := clear ?tid (speculator (pop_running ?tid s))\<rparr>"
  let ?s2 = "update_job jr (\<lambda>j. j\<lparr>job_result := res\<rparr>) (update_job jr (\<lambda>j. j\<lparr>job_state := J_COMPLETED\<rparr>) ?s1)"
  have few: "\<not> 1 < length (specs_of (job_id (job_at ?s1 jr)) ?s1)"
    using assms(2) by (simp add: specs_of_def pop_running_def)
  have "on_task_complete env r jr res s = sbind (persist_task r) (\<lambda>_. persist_job jr) ?s2"
    using few by (simp add: on_task_complete_def sbind_def Let_def)
  moreover have "job_state (job_at ?s2 jr) = J_COMPLETED" "job_result (job_at ?s2 jr) = res"
      "rpc_log ?s2 = rpc_log s"
    using assms(1) by (simp_all add: pop_running_def)
  ultimately show ?thesis
    by (simp add: bind_smodify persist_task_def persist_job_def)
qed

lemma failure_result:
  assumes "jr < length (job_heap s)" and "length (specs_of (job_id (job_at s jr)) s) \<le> 1"
  shows "\<exists>s'. on_task_failed r jr err s = (Inr (), s')
    \<and> job_state (job_at s' jr) = J_FAILED \<and> job_error (job_at s' jr) = Some err
    \<and> rpc_log s' = rpc_log s"
proof -
  let ?tid = "task_id (deref s r)"
  let ?s1 = "(pop_running ?tid s)\<lparr>speculator := clear ?tid (speculator (pop_running ?tid s))\<rparr>"
  let ?s2 = "update_job jr (\<lambda>j. j\<lparr>job_state := J_FAILED, job_error := Some err\<rparr>) ?s1"
  have few: "\<not> 1 < length (specs_of (job_id (job_at ?s1 jr)) ?s1)"
    using assms(2) by (simp add: specs_of_def pop_running_def)
  have "on_task_failed r jr err s = sbind (persist_task r) (\<lambda>_. persist_job jr) ?s2"
    using few by (simp add: on_task_failed_def sbind_def Let_def)
  moreover have "job_state (job_at ?s2 jr) = J_FAILED" "job_error (job_at ?s2 jr) = Some err"
      "rpc_log ?s2 = rpc_log s"
    using assms(1) by (simp_all add: pop_running_def)
  ultimately show ?thesis
    by (simp add: bind_smodify persist_task_def persist_job_def)
qed

subsection \<open>Resumption without agents\<close>

text \<open>No agents, and nothing has been sent or started beyond the given logs.\<close>

definition silent :: "rpc list \<Rightarrow> ref list \<Rightarrow> running_task dict \<Rightarrow> job_manager \<Rightarrow> bool" where
  "silent l0 t0 r0 s \<longleftrightarrow>
     remote_agents s = [] \<and> rpc_log s = l0 \<and> thread_log s = t0 \<and> running s = r0"

lemma restore_jobs_silent: "silent l0 t0 r0 s \<Longrightarrow> silent l0 t0 r0 (fold restore_job js s)"
  by (induction js arbitrary: s)
    (auto simp: restore_job_def alloc_job_def silent_def Let_def split: option.split list.split)

lemma restore_tasks_silent: "silent l0 t0 r0 s \<Longrightarrow> silent l0 t0 r0 (snd (restore_tasks ts d s))"
proof (induction ts arbitrary: d s)
  case (Cons t ts)
  have "silent l0 t0 r0 (snd (restore_task t s))"
    using Cons.prems by (simp add: restore_task_def alloc_task_def silent_def)
  then show ?case
    using Cons.IH by (simp add: case_prod_beta)
qed simp

lemma task_from_dict_fn: "task_from_dict d = Inr t \<Longrightarrow> task_fn t = None"
  by (auto simp: task_from_dict_def)

text \<open>Without agents, a task without a callable only gets an object and a start time.\<close>

lemma dispatch_idle:
  assumes "remote_agents s = []" and "task_fn (deref s r) = None"
  shows "\<exists>sp. dispatch env r jr s = (Inr (), s\<lparr>speculator := sp\<rparr>)"
proof -
  let ?sp = "record_start (e_now env) (task_id (deref s r)) (speculator s)"
  have "\<not> is_remote n (s\<lparr>speculator := ?sp\<rparr>)" for n
    using assms(1) by (simp add: is_remote_def)
  then have "dispatch env r jr s = (Inr (), s\<lparr>speculator := ?sp\<rparr>)"
    using assms(2) by (simp add: dispatch_def bind_smodify split: option.split list.split)
  then show ?thesis by blast
qed

lemma resume_running_idle:
  assumes "remote_agents s = []" and "task_fn t = None"
  shows "\<exists>th sp. snd (resume_running env st t s) = s\<lparr>task_heap := th, speculator := sp\<rparr>"
proof -
  have same: "\<exists>th sp. s = s\<lparr>task_heap := th, speculator := sp\<rparr>"
    by (intro exI [of _ "task_heap s"] exI [of _ "speculator s"]) simp
  have "\<exists>th sp. snd ((\<lambda>s. case alloc_task t1 s of (r, s1) \<Rightarrow>
             (case find_job_for_task s1 r of
                None \<Rightarrow> (Inr (), s1)
              | Some jr \<Rightarrow> if is_terminal (job_at s1 jr) then (Inr (), s1) else dispatch env r jr s1)) s)
      = s\<lparr>task_heap := th, speculator := sp\<rparr>" if t1: "task_fn t1 = None" for t1
  proof -
    let ?s1 = "s\<lparr>task_heap := task_heap s @ [t1]\<rparr>"
    have "remote_agents ?s1 = []" "task_fn (deref ?s1 (length (task_heap s))) = None"
      using assms(1) t1 by (simp_all add: deref_def)
    then have "\<exists>sp. snd (dispatch env (length (task_heap s)) jr ?s1) = ?s1\<lparr>speculator := sp\<rparr>" for jr
      using dispatch_idle by (metis snd_conv)
    then have "\<exists>th sp. snd (dispatch env (length (task_heap s)) jr ?s1) = s\<lparr>task_heap := th, speculator := sp\<rparr>" for jr
      by blast
    moreover have "\<exists>th sp. ?s1 = s\<lparr>task_heap := th, speculator := sp\<rparr>"
      by (intro exI [of _ "task_heap s @ [t1]"] exI [of _ "speculator s"]) simp
    ultimately show ?thesis
      unfolding alloc_task_def prod.case by (auto split: option.split)
  qed
  note run = this
  show ?thesis
  proof (cases "sql_load_checkpoint (task_id t) st")
    case (Inl e)
    then show ?thesis using same by (simp add: resume_running_def sbind_def)
  next
    case (Inr cp)
    have "task_fn (case cp of None \<Rightarrow> t
        | Some c \<Rightarrow> t\<lparr>task_progress := cp_progress c, state_data := cp_state_data c\<rparr>) = None"
      using assms(2) by (simp split: option.split)
    from run [OF this] show ?thesis
      using same Inr by (simp add: resume_running_def sbind_def)
  qed
qed

lemma resume_all_idle:
  assumes "remote_agents s = []" and "\<forall>t \<in> set ts. task_fn t = None"
  shows "\<exists>th sp. snd (siter (resume_running env st) ts s) = s\<lparr>task_heap := th, speculator := sp\<rparr>"
  using assms
proof (induction ts arbitrary: s)
  case Nil
  have "s = s\<lparr>task_heap := task_heap s, speculator := speculator s\<rparr>" by simp
  then show ?case by (metis siter.simps(1) sret_apply snd_conv)
next
  case (Cons t ts)
  obtain r s1 where one: "resume_running env st t s = (r, s1)" by fastforce
  obtain th sp where s1: "s1 = s\<lparr>task_heap := th, speculator := sp\<rparr>"
    using resume_running_idle [of s t env st] Cons.prems one by auto
  obtain th' sp' where "snd (siter (resume_running env st) ts s1) = s1\<lparr>task_heap := th', speculator := sp'\<rparr>"
    using Cons.IH [of s1] Cons.prems by (auto simp: s1)
  then show ?case
    using one s1 by (cases r) (auto simp: sbind_def)
qed

lemma loaded_without_fn:
  "sql_list_tasks st = Inr ts \<Longrightarrow> \<forall>t \<in> set ts. task_fn t = None"
  using map_result_Inr task_from_dict_fn unfolding sql_list_tasks_def by fastforce

lemma resume_silent:
  assumes start: "silent l0 t0 r0 s"
  shows "silent l0 t0 r0 (snd (resume_from_store env st s))"
proof -
  let ?P = "silent l0 t0 r0"
  have tables: "?P (case restore_tasks ts [] s' of (d, s1) \<Rightarrow>
      s1\<lparr>job_tasks := fold (\<lambda>(jid, refs). dict_set jid refs) d (job_tasks s1)\<rparr>)" if "?P s'" for ts s'
    using restore_tasks_silent [OF that, of ts "[]"] by (simp add: case_prod_beta silent_def)
  have run: "?P (snd (siter (resume_running env st) ts s'))"
    if "?P s'" "\<forall>t \<in> set ts. task_fn t = None" for ts s'
    using resume_all_idle [of s' ts env st] that by (auto simp: silent_def)
  show ?thesis
    using start restore_jobs_silent [OF start] run [OF tables loaded_without_fn]
    by (cases "sql_list_jobs st"; cases "sql_list_tasks st")
      (simp_all add: resume_from_store_def sbind_def)
qed

text \<open>
  Failover starts nothing: a manager that resumes from the store before any agent has
  registered sends no task and starts no thread, whatever the store holds and whatever callables
  are registered: the tasks it dispatches are read from the store a second time and carry no
  callable.
\<close>

lemma resume_starts_nothing:
  assumes "remote_agents s = []" and "resume_from_store env st s = (res, s')"
  shows "rpc_log s' = rpc_log s \<and> thread_log s' = thread_log s \<and> running s' = running s"
  using resume_silent [of "rpc_log s" "thread_log s" "running s" s env st] assms by (simp add: silent_def)

subsection \<open>Stealing in place refines the work stealer\<close>

lemma steal_refs_result:
  assumes "steal_loop pf (checkpoints s) healthy (map (deref s) rs) used = Inr out"
    and "distinct rs" and "\<forall>r \<in> set rs. r < length (task_heap s)"
  shows "\<exists>s'. steal_refs pf healthy rs used s = (Inr (zip rs (map snd out)), s')
    \<and> map (deref s') rs = map fst out \<and> (\<forall>r. r \<notin> set rs \<longrightarrow> deref s' r = deref s r)"
  using assms
proof (induction rs arbitrary: s used out)
  case Nil
  then show ?case by simp
next
  case (Cons r rs)
  let ?t1 = "(restore (checkpoints s) (deref s r))\<lparr>task_state := T_MIGRATING\<rparr>"
  let ?c = "filter (\<lambda>n. node_id n \<notin> used \<or> length healthy = 1) healthy"
  let ?s1 = "update_task r (\<lambda>_. ?t1) s"
  have r: "r < length (task_heap s)" "r \<notin> set rs" "distinct rs"
    using Cons.prems by auto
  obtain p where p: "pf ?t1 ?c = Inr p"
    using Cons.prems(1) by (auto simp: Let_def)
  let ?t2 = "case p of None \<Rightarrow> ?t1\<lparr>task_state := T_PENDING, assigned_node := None\<rparr>
    | Some q \<Rightarrow> ?t1\<lparr>assigned_node := Some (pl_node_id q), task_state := T_RUNNING\<rparr>"
  let ?used = "case p of None \<Rightarrow> used | Some q \<Rightarrow> insert (pl_node_id q) used"
  let ?n = "case p of None \<Rightarrow> None | Some q \<Rightarrow> Some (pl_node_id q)"
  obtain out' where out': "steal_loop pf (checkpoints s) healthy (map (deref s) rs) ?used = Inr out'"
    "out = (?t2, ?n) # out'"
    using Cons.prems(1) p by (cases p) (auto simp: Let_def)
  let ?s2 = "case p of
      None \<Rightarrow> update_task r (\<lambda>t. t\<lparr>task_state := T_PENDING, assigned_node := None\<rparr>) ?s1
    | Some q \<Rightarrow> update_task r (\<lambda>t. t\<lparr>assigned_node := Some (pl_node_id q), task_state := T_RUNNING\<rparr>) ?s1"
  have s2: "checkpoints ?s2 = checkpoints s" "length (task_heap ?s2) = length (task_heap s)"
    "deref ?s2 r = ?t2" "\<And>r'. r' \<noteq> r \<Longrightarrow> deref ?s2 r' = deref s r'"
    using r(1) by (cases p; simp)+
  have same: "map (deref ?s2) rs = map (deref s) rs"
    by (rule map_cong [OF refl], rule s2(4)) (use r(2) in auto)
  obtain s' where s': "steal_refs pf healthy rs ?used ?s2 = (Inr (zip rs (map snd out')), s')"
    "map (deref s') rs = map fst out'" "\<forall>r'. r' \<notin> set rs \<longrightarrow> deref s' r' = deref ?s2 r'"
    using Cons.IH [of ?s2 ?used out'] out'(1) r(3) Cons.prems(3) s2(1,2) same by auto
  have "steal_refs pf healthy (r # rs) used s = (Inr (zip (r # rs) (map snd out)), s')"
    using p s'(1) by (cases p) (simp_all add: Let_def sbind_def out'(2))
  moreover have "deref s' r = ?t2"
    using s'(3) r(2) s2(3) by simp
  ultimately show ?case
    using s' s2(4) by (auto simp: out'(2))
qed


end
