(* ===== verification/JobProps.thy ===== *)
theory JobProps
  imports JobFrames
begin

section \<open>Properties of the job manager\<close>

text \<open>
  Fencing of a standby, idempotent submission, completion, and what the code does not do: resend
  an orphan that is still listed as running, protect a finished job, or restart restored tasks.
\<close>

subsection \<open>A standby never writes the store\<close>

text \<open>The operations of the manager.\<close>

datatype jm_op =
    Submit jm_env mesh_task "string option" string string "string list"
  | SubmitRemote jm_env string real bool string string
  | SubmitNotebook jm_env string string string string
  | Cancel jm_env string
  | Preemption jm_env string
  | NodeDeath jm_env string
  | LocalRun jm_env "nat \<Rightarrow> real" "nat \<Rightarrow> bool" task_callable ref ref
  | Completed jm_env ref ref pyval
  | Failed ref ref string
  | CheckSpeculation jm_env "ref \<Rightarrow> string"
  | RunRebalance jm_env
  | Resume jm_env sqlite_store

fun run_jm :: "jm_op \<Rightarrow> job_manager \<Rightarrow> job_manager" where
  "run_jm (Submit env m idem jid tid us) s = snd (submit_job env m idem jid tid us s)"
| "run_jm (SubmitRemote env name work cp jid tid) s = snd (submit_remote_by_name env name work cp jid tid s)"
| "run_jm (SubmitNotebook env code lang jid tid) s = snd (submit_notebook_cell env code lang jid tid s)"
| "run_jm (Cancel env jid) s = snd (cancel_job env jid s)"
| "run_jm (Preemption env nid) s = snd (handle_preemption env nid s)"
| "run_jm (NodeDeath env nid) s = snd (handle_node_death env nid s)"
| "run_jm (LocalRun env clock is_set fn r jr) s = snd (run_local env clock is_set fn r jr s)"
| "run_jm (Completed env r jr res) s = snd (on_task_complete env r jr res s)"
| "run_jm (Failed r jr err) s = snd (on_task_failed r jr err s)"
| "run_jm (CheckSpeculation env uuid) s = snd (check_speculation env uuid s)"
| "run_jm (RunRebalance env) s = snd (run_rebalance env s)"
| "run_jm (Resume env st) s = snd (resume_from_store env st s)"

text \<open>
  While an operation of a standby sleeps, the other threads may do anything but write the store or
  change the leadership: writing is what the operations listed above are shown not to do.
\<close>

definition others_standby :: "jm_env \<Rightarrow> bool" where
  "others_standby env \<longleftrightarrow> (\<forall>s. leadership_check s = Some False \<longrightarrow>
     state_store (e_others env s) = state_store s
     \<and> leadership_check (e_others env s) = leadership_check s)"

fun op_standby :: "jm_op \<Rightarrow> job_manager \<Rightarrow> bool" where
  "op_standby (Preemption env nid) s = others_standby env"
| "op_standby (NodeDeath env nid) s = others_standby env"
| "op_standby _ s = True"

definition standby :: "sqlite_store option \<Rightarrow> job_manager \<Rightarrow> bool" where
  "standby st s \<longleftrightarrow> leadership_check s = Some False \<and> state_store s = st"

interpretation fenced: jm_frame_all "\<lambda>_ _. standby st" for st
  by unfold_locales
    (auto simp: standby_def update_task_def update_job_def write_store_def can_write_def
      split: option.split)

interpretation standby_ops: stateful run_jm op_standby "standby st" for st
proof unfold_locales
  fix s p
  assume s: "standby st s" and p: "op_standby p s"
  have others: "standby st (e_others env s)" if "others_standby env" "standby st s" for env s
    using that by (simp add: others_standby_def standby_def)
  show "standby st (run_jm p s)"
    using s p
    by (cases p)
      (simp_all add: handle_node_death_def fenced.submit_job_P fenced.submit_remote_P
        fenced.submit_notebook_P fenced.cancel_job_P fenced.handle_preemption_P fenced.node_death_P
        fenced.run_local_P fenced.on_task_complete_P fenced.on_task_failed_P
        fenced.check_speculation_P fenced.run_rebalance_P fenced.resume_from_store_P others)
qed

text \<open>
  A manager that is not the leader never writes the durable store, whatever sequence of
  operations it runs.
\<close>

lemma standby_never_writes:
  assumes "leadership_check s = Some False" and "legal_run run_jm op_standby ps s"
  shows "state_store (fold run_jm ps s) = state_store s"
  using standby_ops.run_all_ok [of "state_store s" s ps] assms by (simp add: standby_def)

subsection \<open>Submission under an idempotency key\<close>

interpretation job_tables: jm_frame_tasks "\<lambda>_ _ s. jobs s = js \<and> idempotency s = im" for js im
  by unfold_locales
    (auto simp: update_task_def update_job_def write_store_def split: option.split)

lemma start_job_result: "start_job env m jid tid us jr s = (Inr j, s1) \<Longrightarrow> j = jid"
  unfolding start_job_def Let_def by (auto elim!: sbind_InrE)

lemma submit_known:
  assumes "known_job idem s = Some j" and "dict_get (jobs s) j \<noteq> None"
  shows "submit_job env m idem jid tid us s =
    (Inr j, s\<lparr>registry := dict_set (mt_name m) (mt_fn m) (registry s)\<rparr>)"
proof -
  let ?s = "s\<lparr>registry := dict_set (mt_name m) (mt_fn m) (registry s)\<rparr>"
  have "known_job idem ?s = Some j" "dict_get (jobs ?s) j \<noteq> None"
    using assms by (simp_all add: known_job_def split: option.splits list.splits)
  then show ?thesis
    by (simp add: submit_job_def sbind_def)
qed

lemma submit_makes_known:
  assumes "k \<noteq> []" and "submit_job env m (Some k) jid tid us s = (Inr j, s1)"
  shows "known_job (Some k) s1 = Some j \<and> dict_get (jobs s1) j \<noteq> None"
proof -
  let ?s = "s\<lparr>registry := dict_set (mt_name m) (mt_fn m) (registry s)\<rparr>"
  obtain c cs where k: "k = c # cs" using assms(1) by (cases k) auto
  show ?thesis
  proof (cases "known_job (Some k) ?s")
    case (Some old)
    then have "j = old" "s1 = ?s" "dict_get (jobs ?s) old \<noteq> None"
      using assms(2) by (auto simp: submit_job_def sbind_def split: if_splits)
    with Some show ?thesis by simp
  next
    case None
    obtain jr s2 where cr: "create_job jid (mt_name m) (Some k) ?s = (Inr jr, s2)"
      by (simp add: create_job_def alloc_job_def Let_def)
    have st: "start_job env m jid tid us jr s2 = (Inr j, s1)"
      using assms(2) None cr by (simp add: submit_job_def sbind_def)
    have s2: "known_job (Some k) s2 = Some jid" "dict_get (jobs s2) jid = Some jr"
      using cr by (auto simp: create_job_def alloc_job_def Let_def k known_job_def)
    have "jobs s1 = jobs s2 \<and> idempotency s1 = idempotency s2"
      using job_tables.start_job_P [of s2 "jobs s2" "idempotency s2" jr UNIV env m jid tid us] st by simp
    then show ?thesis
      using s2 start_job_result [OF st] by (simp add: known_job_def split: option.splits list.splits)
  qed
qed


end
