(* ===== verification/JobWitnesses.thy ===== *)
theory JobWitnesses
  imports JobGaps JobProps
begin

section \<open>Concrete states of the job manager\<close>

text \<open>
  The states at which the properties of the job manager are instantiated: two agents \<open>a\<close> and
  \<open>b\<close>, and a job whose one task runs on \<open>a\<close>.
\<close>

definition sample_env :: "real \<Rightarrow> jm_env" where
  "sample_env now =
     \<lparr>e_now = now, e_place = place default_engine 12, e_reply = (\<lambda>_. Ack True []),
      e_others = (\<lambda>s. s), e_message = (\<lambda>_. ''error'')\<rparr>"

definition two_agents :: "sqlite_store option \<Rightarrow> bool option \<Rightarrow> job_manager" where
  "two_agents store leader =
     register_node 0 (sample_node ''b'' 8) (Some ''host-b'')
       (register_node 0 (sample_node ''a'' 8) (Some ''host-a'') (new_manager 2 store leader))"

definition one_job :: "job_state \<Rightarrow> job_manager" where
  "one_job st = (two_agents None None)
     \<lparr>job_heap := [(new_job ''j'' ''work'' None)\<lparr>job_state := st, task_ids := [''t'']\<rparr>],
      jobs := [(''j'', 0)], job_tasks := [(''j'', [0])],
      task_heap := [(assigned_task ''t'' ''a'')\<lparr>task_job_id := Some ''j''\<rparr>], tasks := [(''t'', 0)],
      running := [(''t'', \<lparr>run_spec = 0, run_job = 0, run_remote = True\<rparr>)]\<rparr>"

lemmas manager_defs =
  new_manager_def new_cluster_def new_tracker_def new_speculation_def register_node_def
  tracker_register_def two_agents_def one_job_def cluster.extend_def tracker.extend_def

lemma completion_result_witness:
  "\<exists>s'. on_task_complete (sample_env 1) 0 0 (PInt 7) (one_job J_CANCELLED) = (Inr (), s')
     \<and> job_state (job_at s' 0) = J_COMPLETED"
proof -
  have "0 < length (job_heap (one_job J_CANCELLED))"
    "length (specs_of (job_id (job_at (one_job J_CANCELLED) 0)) (one_job J_CANCELLED)) \<le> 1"
    by (simp_all add: one_job_def specs_of_def job_at_def new_job_def dict_get_default_def)
  from completion_result [OF this] show ?thesis
    by blast
qed

text \<open>The task of a dead node is moved to the other node, running, and no call is made.\<close>

definition after_death :: job_manager where
  "after_death = snd (handle_node_death (sample_env 1) ''a'' (one_job J_RUNNING))"

lemma after_death_moved:
  "assigned_node (deref after_death 0) = Some ''b'' \<and> task_state (deref after_death 0) = T_RUNNING"
  by code_simp


definition sample_mesh_task :: mesh_task where
  "sample_mesh_task = \<lparr>mt_fn = ''work'', mt_name = ''work'', mt_requirements = default_requirements,
     mt_pool = None, mt_replicas = 1, mt_checkpoint = False, mt_checkpoint_interval = 30,
     mt_preemption_ok = True, mt_total_work = 1\<rparr>"


text \<open>A standby that handles a death and a completion.\<close>

lemma standby_never_writes_witness:
  "state_store (fold run_jm [NodeDeath (sample_env 1) ''a'', Submit (sample_env 2) sample_mesh_task None ''j'' ''t'' []]
     (two_agents (Some init_schema) (Some False))) = Some init_schema"
proof -
  have "legal_run run_jm op_standby
      [NodeDeath (sample_env 1) ''a'', Submit (sample_env 2) sample_mesh_task None ''j'' ''t'' []]
      (two_agents (Some init_schema) (Some False))"
    by (simp add: others_standby_def sample_env_def)
  moreover have "leadership_check (two_agents (Some init_schema) (Some False)) = Some False"
    and store: "state_store (two_agents (Some init_schema) (Some False)) = Some init_schema"
    by (simp_all add: manager_defs Let_def)
  ultimately show ?thesis
    using standby_never_writes by metis
qed

text \<open>A store with a running task whose callable is registered.\<close>

definition one_row :: sqlite_store where
  "one_row = sql_save_task ((assigned_task ''t'' ''a'')\<lparr>task_job_id := Some ''j''\<rparr>)
     (sql_save_job ((new_job ''j'' ''work'' None)\<lparr>job_state := J_RUNNING, task_ids := [''t'']\<rparr>) init_schema)"

lemma resume_starts_nothing_witness:
  "\<exists>s'. resume_from_store (sample_env 1) one_row ((new_manager 2 None None)\<lparr>registry := [(''work'', ''work'')]\<rparr>)
       = (Inr (), s')
     \<and> thread_log s' = [] \<and> rpc_log s' = []"
proof -
  let ?s = "(new_manager 2 None None)\<lparr>registry := [(''work'', ''work'')]\<rparr>"
  have "fst (resume_from_store (sample_env 1) one_row ?s) = Inr ()"
    by code_simp
  then obtain s' where s': "resume_from_store (sample_env 1) one_row ?s = (Inr (), s')"
    by (metis prod.collapse)
  have "remote_agents ?s = []" "thread_log ?s = []" "rpc_log ?s = []"
    by (simp_all add: manager_defs)
  from resume_starts_nothing [OF this(1) s'] this s' show ?thesis
    by simp
qed


end
