(* ===== verification/HA.thy ===== *)
theory HA
  imports JobProps JobGaps Election
begin

section \<open>The highly available driver (mesh/driver/ha/coordinator.py)\<close>

text \<open>
  \<^verbatim>\<open>HADriverCoordinator\<close> ties an election to a job manager: both use one store, which is the
  manager's \<open>state_store\<close> here, the manager asks the election whether it may write, and gaining
  the leadership resumes the jobs of the store.
\<close>

record ha =
  ha_election :: election
  ha_manager :: job_manager

definition new_ha :: "job_manager \<Rightarrow> sqlite_store \<Rightarrow> election \<Rightarrow> ha" where
  "new_ha m st e =
     \<lparr>ha_election = e,
      ha_manager = m\<lparr>state_store := Some st, leadership_check := Some (is_leader e)\<rparr>\<rparr>"

definition resume_jobs :: "jm_env \<Rightarrow> jm" where
  "resume_jobs env s =
     (case state_store s of None \<Rightarrow> (Inr (), s) | Some st \<Rightarrow> resume_from_store env st s)"

definition on_leadership :: "jm_env \<Rightarrow> bool \<Rightarrow> jm" where
  "on_leadership env lead = (if lead then resume_jobs env else sret ())"

text \<open>A step of the election over the shared store, followed by the callbacks it makes.\<close>

definition ha_elect ::
  "(election \<Rightarrow> sqlite_store \<Rightarrow> bool list \<times> election \<times> sqlite_store) \<Rightarrow> jm_env \<Rightarrow> (ha, unit) py" where
  "ha_elect step env h =
     (case state_store (ha_manager h) of
        None \<Rightarrow> (Inr (), h)
      | Some st \<Rightarrow>
          (case step (ha_election h) st of (changes, e, st1) \<Rightarrow>
             case siter (on_leadership env) changes ((ha_manager h)
                    \<lparr>state_store := Some st1, leadership_check := Some (is_leader e)\<rparr>) of
               (res, m) \<Rightarrow> (res, \<lparr>ha_election = e, ha_manager = m\<rparr>)))"

definition ha_round :: "jm_env \<Rightarrow> (ha, unit) py" where
  "ha_round env = ha_elect (renew_tick sql_try_acquire sql_renew (e_now env)) env"

definition ha_start :: "jm_env \<Rightarrow> (ha, unit) py" where
  "ha_start env =
     sbind (ha_elect (try_become_leader sql_try_acquire (e_now env)) env) (\<lambda>_ h.
       if is_leader (ha_election h)
       then (case resume_jobs env (ha_manager h) of (res, m) \<Rightarrow> (res, h\<lparr>ha_manager := m\<rparr>))
       else (Inr (), h))"

definition ha_stop :: "ha \<Rightarrow> ha" where
  "ha_stop h =
     \<lparr>ha_election = stop_election (ha_election h),
      ha_manager = (ha_manager h)\<lparr>leadership_check := Some False\<rparr>\<rparr>"

subsection \<open>A stopped coordinator\<close>

datatype ha_op = Start jm_env | Round jm_env | Stop | Manage jm_op

fun run_ha :: "ha_op \<Rightarrow> ha \<Rightarrow> ha" where
  "run_ha (Start env) h = snd (ha_start env h)"
| "run_ha (Round env) h = snd (ha_round env h)"
| "run_ha Stop h = ha_stop h"
| "run_ha (Manage p) h = h\<lparr>ha_manager := run_jm p (ha_manager h)\<rparr>"

fun op_ha :: "ha_op \<Rightarrow> ha \<Rightarrow> bool" where
  "op_ha (Manage p) h = op_standby p (ha_manager h)"
| "op_ha _ h = True"

definition retired :: "sqlite_store option \<Rightarrow> ha \<Rightarrow> bool" where
  "retired st h \<longleftrightarrow>
     stopped (ha_election h) \<and> \<not> is_leader (ha_election h) \<and> standby st (ha_manager h)"

lemma ha_elect_retired:
  assumes "retired st h" and "\<And>e s. stopped e \<Longrightarrow> step e s = ([], e, s)"
  shows "snd (ha_elect step env h) = h"
proof -
  have "(ha_manager h)\<lparr>state_store := st, leadership_check := Some False\<rparr> = ha_manager h"
    using assms(1) by (simp add: retired_def standby_def)
  then show ?thesis
    using assms by (auto simp: ha_elect_def retired_def standby_def split: option.split)
qed

interpretation retired_ops: stateful run_ha op_ha "retired st" for st
proof unfold_locales
  fix h p
  assume ok: "retired st h" and legal: "op_ha p h"
  have tick: "snd (ha_elect (renew_tick a r now) env h) = h"
    "snd (ha_elect (try_become_leader a now) env h) = h" for a r now env
    using ha_elect_retired [OF ok] by (simp_all add: renew_tick_def try_become_leader_def)
  have "retired st (snd (ha_start env h))" for env
  proof -
    obtain res where "ha_elect (try_become_leader sql_try_acquire (e_now env)) env h = (res, h)"
      using tick(2) by (metis prod.collapse)
    then show ?thesis
      using ok by (cases res) (simp_all add: ha_start_def sbind_def retired_def)
  qed
  then show "retired st (run_ha p h)"
    using ok legal standby_ops.run_ok [of st "ha_manager h"] tick(1)
    by (cases p) (auto simp: ha_round_def ha_stop_def stop_election_def retired_def standby_def)
qed


subsection \<open>Failover\<close>

interpretation leads: jm_frame_all "\<lambda>_ _ s. leadership_check s = Some True"
  by unfold_locales
    (auto simp: update_task_def update_job_def write_store_def split: option.split)

definition has_job :: "job \<Rightarrow> job_manager \<Rightarrow> bool" where
  "has_job j s \<longleftrightarrow>
     (\<exists>jr. dict_get (jobs s) (job_id j) = Some jr \<and> jr < length (job_heap s) \<and> job_at s jr = j)"

lemma restore_job_has:
  "has_job j (restore_job j s)"
  "has_job i s \<Longrightarrow> job_id i \<noteq> job_id j \<Longrightarrow> has_job i (restore_job j s)"
  by (auto simp: has_job_def restore_job_def alloc_job_def job_at_def Let_def nth_append
      split: option.split list.split)

lemma restore_jobs_keep:
  "has_job i s \<Longrightarrow> job_id i \<notin> job_id ` set js \<Longrightarrow> has_job i (fold restore_job js s)"
  by (induction js arbitrary: s) (auto simp: restore_job_has)

lemma restore_jobs_have:
  "distinct (map job_id js) \<Longrightarrow> j \<in> set js \<Longrightarrow> has_job j (fold restore_job js s)"
  by (induction js arbitrary: s) (auto simp: restore_job_has restore_jobs_keep)

lemma restore_tasks_has:
  "has_job j (snd (restore_tasks ts d s)) = has_job j s"
  "remote_agents (snd (restore_tasks ts d s)) = remote_agents s"
  by (induction ts arbitrary: d s)
    (simp_all add: restore_task_def alloc_task_def has_job_def job_at_def)

lemma restore_jobs_agents: "remote_agents (fold restore_job js s) = remote_agents s"
  by (induction js arbitrary: s)
    (auto simp: restore_job_def alloc_job_def Let_def split: option.split list.split)

lemma resume_has_jobs:
  assumes "remote_agents s = []" and "sql_list_jobs st = Inr js" and "distinct (map job_id js)"
    and "j \<in> set js"
  shows "has_job j (snd (resume_from_store env st s))"
proof -
  let ?s1 = "fold restore_job js s"
  have s1: "has_job j ?s1" "remote_agents ?s1 = []"
    using restore_jobs_have [OF assms(3,4)] assms(1) by (simp_all add: restore_jobs_agents)
  show ?thesis
  proof (cases "sql_list_tasks st")
    case (Inl e)
    then show ?thesis
      using assms(2) s1 by (simp add: resume_from_store_def sbind_def)
  next
    case (Inr ts)
    let ?s2 = "case restore_tasks ts [] ?s1 of (d, s1) \<Rightarrow>
        s1\<lparr>job_tasks := fold (\<lambda>(jid, refs). dict_set jid refs) d (job_tasks s1)\<rparr>"
    have s2: "has_job j ?s2" "remote_agents ?s2 = []"
      using s1 restore_tasks_has [where s = ?s1 and d = "[]"]
      by (auto simp: case_prod_beta has_job_def job_at_def)
    obtain th sp where "snd (siter (resume_running env st) ts ?s2) = ?s2\<lparr>task_heap := th, speculator := sp\<rparr>"
      using resume_all_idle [OF s2(2) loaded_without_fn [OF Inr]] by blast
    then have "has_job j (snd (siter (resume_running env st) ts ?s2))"
      using s2(1) by (simp add: has_job_def job_at_def)
    then show ?thesis
      using assms(2) Inr by (simp add: resume_from_store_def sbind_def)
  qed
qed

text \<open>
  Failover restores the jobs: a coordinator that becomes the leader in a round, before any agent
  has registered, may write, and its manager knows every job of the store as it was stored.
\<close>

lemma failover_restores_jobs:
  assumes "remote_agents (ha_manager h) = []" and "state_store (ha_manager h) = Some st"
    and "\<not> is_leader (ha_election h)" and "sql_list_jobs st = Inr js" and "distinct (map job_id js)"
    and "is_leader (ha_election (snd (ha_round env h)))" and "j \<in> set js"
  shows "can_write (ha_manager (snd (ha_round env h))) \<and> has_job j (ha_manager (snd (ha_round env h)))"
proof -
  let ?e = "ha_election h" and ?tick = "renew_tick sql_try_acquire sql_renew (e_now env)"
  obtain ns e st1 where tick: "?tick ?e st = (ns, e, st1)"
    by (metis surj_pair)
  let ?m = "(ha_manager h)\<lparr>state_store := Some st1, leadership_check := Some (is_leader e)\<rparr>"
  have e: "is_leader e"
    using assms(2,6) tick by (auto simp: ha_round_def ha_elect_def split: prod.splits)
  obtain ok st2 where acq:
    "sql_try_acquire (e_now env) (driver_id ?e) (el_term ?e + 1) (lease_seconds ?e) st = (ok, st2)"
    by fastforce
  then have ns: "ns = [True] \<and> st1 = st2"
    using assms(3) tick e
    by (auto simp: renew_tick_def try_become_leader_def Let_def split: if_splits)
  moreover have "jobs_table st2 = jobs_table st"
    using acq lease_frame(1) by (metis snd_conv)
  ultimately have "sql_list_jobs st1 = Inr js"
    using assms(4) by (simp add: sql_list_jobs_def)
  then have "has_job j (snd (resume_from_store env st1 ?m))"
    using assms(1,5,7) by (intro resume_has_jobs) simp_all
  moreover have "leadership_check (snd (resume_from_store env st1 ?m)) = Some True"
    using leads.resume_from_store_P [of ?m env st1] e by simp
  moreover have "ha_manager (snd (ha_round env h)) = snd (resume_from_store env st1 ?m)"
    using assms(2) tick ns
    by (simp add: ha_round_def ha_elect_def on_leadership_def resume_jobs_def sbind_def
        split: prod.split sum.split)
  ultimately show ?thesis
    by (simp add: can_write_def)
qed

end
