(* ===== verification/Events.thy ===== *)
theory Events
  imports Sdk
begin

section \<open>Event bus (mesh/api/events.py)\<close>

text \<open>
  \<^verbatim>\<open>EventBus\<close>: a bounded log with subscribers.  The identifier and the time stamp of an event are
  arguments.  A subscriber is a name; what it receives is kept in \<open>delivered\<close>, and an exception
  it raises is dropped by the code, so it leaves no trace.
\<close>

datatype log_level = DEBUG | INFO | WARN | ERROR

record log_event =
  ev_id :: string
  ev_timestamp :: string
  ev_level :: log_level
  ev_source :: string
  ev_message :: string
  ev_metadata :: "pyval dict"

record event_bus =
  max_events :: nat
  ev_log :: "log_event list"
  subscribers :: "string list"
  delivered :: "(string \<times> log_event) list"

definition new_bus :: "nat \<Rightarrow> event_bus" where
  "new_bus n = \<lparr>max_events = n, ev_log = [], subscribers = [], delivered = []\<rparr>"

subsection \<open>Levels\<close>

fun level_value :: "log_level \<Rightarrow> string" where
  "level_value DEBUG = ''DEBUG''"
| "level_value INFO = ''INFO''"
| "level_value WARN = ''WARN''"
| "level_value ERROR = ''ERROR''"

definition level_of :: "string \<Rightarrow> log_level result" where
  "level_of v =
     (case List.find (\<lambda>l. level_value l = v) [DEBUG, INFO, WARN, ERROR] of
        None \<Rightarrow> Inl ValueError
      | Some l \<Rightarrow> Inr l)"

datatype level_arg = Level log_level | LevelName string

fun parse_level :: "level_arg \<Rightarrow> log_level result" where
  "parse_level (Level l) = Inr l"
| "parse_level (LevelName v) = level_of (upper v)"

subsection \<open>Operations\<close>

definition create_event ::
  "string \<Rightarrow> string \<Rightarrow> log_level \<Rightarrow> string \<Rightarrow> string \<Rightarrow> pyval dict option \<Rightarrow> log_event" where
  "create_event eid ts l source message metadata =
     \<lparr>ev_id = eid, ev_timestamp = ts, ev_level = l, ev_source = source, ev_message = message,
      ev_metadata = (case metadata of None \<Rightarrow> [] | Some m \<Rightarrow> m)\<rparr>"

definition event_to_dict :: "log_event \<Rightarrow> pyval dict" where
  "event_to_dict e =
     [(''id'', PStr (ev_id e)), (''timestamp'', PStr (ev_timestamp e)),
      (''level'', PStr (level_value (ev_level e))), (''source'', PStr (ev_source e)),
      (''message'', PStr (ev_message e)), (''metadata'', PDict (ev_metadata e))]"

text \<open>A deque of bounded length drops its oldest entries.\<close>

definition append_bounded :: "nat \<Rightarrow> 'a \<Rightarrow> 'a list \<Rightarrow> 'a list" where
  "append_bounded n x xs = drop (Suc (length xs) - n) (xs @ [x])"

definition publish :: "log_event \<Rightarrow> event_bus \<Rightarrow> event_bus" where
  "publish e b =
     b\<lparr>ev_log := append_bounded (max_events b) e (ev_log b),
       delivered := delivered b @ map (\<lambda>cb. (cb, e)) (subscribers b)\<rparr>"

definition emit ::
  "string \<Rightarrow> string \<Rightarrow> level_arg \<Rightarrow> string \<Rightarrow> string \<Rightarrow> pyval dict option \<Rightarrow> (event_bus, log_event) py" where
  "emit eid ts l source message metadata b =
     (case parse_level l of
        Inl e \<Rightarrow> (Inl e, b)
      | Inr lv \<Rightarrow>
          let e = create_event eid ts lv source message metadata
          in (Inr e, publish e b))"

definition subscribe :: "string \<Rightarrow> event_bus \<Rightarrow> event_bus" where
  "subscribe cb b = b\<lparr>subscribers := subscribers b @ [cb]\<rparr>"

definition unsubscribe :: "string \<Rightarrow> event_bus \<Rightarrow> event_bus" where
  "unsubscribe cb b = b\<lparr>subscribers := remove1 cb (subscribers b)\<rparr>"

text \<open>\<^verbatim>\<open>xs[-k:]\<close>: the last \<open>k\<close> for a positive \<open>k\<close>, everything for zero.\<close>

definition last_slice :: "int \<Rightarrow> 'a list \<Rightarrow> 'a list" where
  "last_slice k xs = (if 0 < k then drop (length xs - nat k) xs else drop (nat (- k)) xs)"

fun contains :: "string \<Rightarrow> string \<Rightarrow> bool" where
  "contains q [] = (q = [])"
| "contains q (c # s) = (take (length q) (c # s) = q \<or> contains q s)"

text \<open>An absent or empty filter lets everything pass.\<close>

definition passes :: "(string \<Rightarrow> log_event \<Rightarrow> bool) \<Rightarrow> string option \<Rightarrow> log_event \<Rightarrow> bool" where
  "passes test arg e = (case arg of Some (c # cs) \<Rightarrow> test (c # cs) e | _ \<Rightarrow> True)"

definition matches :: "string option \<Rightarrow> string option \<Rightarrow> string option \<Rightarrow> log_event \<Rightarrow> bool" where
  "matches level source search e \<longleftrightarrow>
     passes (\<lambda>v e. level_value (ev_level e) = upper v) level e
     \<and> passes (\<lambda>v e. contains (lower v) (lower (ev_source e))) source e
     \<and> passes (\<lambda>v e. contains (lower v) (lower (ev_message e))) search e"

definition get_logs ::
  "int \<Rightarrow> string option \<Rightarrow> string option \<Rightarrow> string option \<Rightarrow> event_bus \<Rightarrow> pyval dict list" where
  "get_logs limit level source search b =
     map event_to_dict (last_slice limit (filter (matches level source search) (ev_log b)))"

definition event_count :: "event_bus \<Rightarrow> int" where
  "event_count b = int (length (ev_log b))"

subsection \<open>The log is a window\<close>

lemma append_bounded_window:
  "append_bounded n x (drop (length xs - n) xs) = drop (length (xs @ [x]) - n) (xs @ [x])"
  by (cases "length xs \<le> n") (simp_all add: append_bounded_def Suc_diff_le)

lemma published [simp]:
  "ev_log (fold publish es (new_bus n)) = drop (length es - n) es
   \<and> max_events (fold publish es (new_bus n)) = n"
proof (induction es rule: rev_induct)
  case Nil
  then show ?case by (simp add: new_bus_def)
next
  case (snoc e es)
  then show ?case
    using append_bounded_window [of n e es] by (simp add: publish_def)
qed

lemma last_slice_length: "0 < k \<Longrightarrow> int (length (last_slice k xs)) \<le> k"
  by (simp add: last_slice_def)

text \<open>
  The log is a window on what was published: after any events the bus holds the newest ones
  up to its bound in order; a query with a positive limit returns the newest matching ones of
  these, at most as many as the limit; and a query with limit zero returns all of them.
\<close>

lemma get_logs_window:
  assumes "b = fold publish es (new_bus n)"
  shows "ev_log b = drop (length es - n) es
    \<and> (0 < k \<longrightarrow> (\<exists>older newest. filter (matches l s q) (ev_log b) = older @ newest
         \<and> get_logs k l s q b = map event_to_dict newest
         \<and> int (length newest) \<le> k \<and> (older \<noteq> [] \<longrightarrow> int (length newest) = k)))
    \<and> get_logs 0 l s q b = map event_to_dict (filter (matches l s q) (ev_log b))"
proof -
  let ?f = "filter (matches l s q) (ev_log b)"
  have "\<exists>older newest. ?f = older @ newest \<and> get_logs k l s q b = map event_to_dict newest
      \<and> int (length newest) \<le> k \<and> (older \<noteq> [] \<longrightarrow> int (length newest) = k)" if "0 < k"
  proof -
    let ?i = "length ?f - nat k"
    have "?f = take ?i ?f @ drop ?i ?f" by simp
    moreover have "get_logs k l s q b = map event_to_dict (drop ?i ?f)"
      using that by (simp add: get_logs_def last_slice_def)
    moreover have "int (length (drop ?i ?f)) \<le> k" using that by simp
    moreover have "take ?i ?f \<noteq> [] \<longrightarrow> int (length (drop ?i ?f)) = k"
      using that by auto
    ultimately show ?thesis by blast
  qed
  then show ?thesis
    using assms by (simp add: get_logs_def last_slice_def)
qed

lemma get_logs_window_witness:
  "\<exists>b. int (length (get_logs 1 None None None b)) \<le> 1
     \<and> ev_log b = [create_event ''2'' ''t2'' WARN ''driver'' ''b'' None,
         create_event ''3'' ''t3'' INFO ''driver'' ''c'' None]"
proof -
  let ?es = "[create_event ''1'' ''t1'' WARN ''driver'' ''a'' None,
    create_event ''2'' ''t2'' WARN ''driver'' ''b'' None,
    create_event ''3'' ''t3'' INFO ''driver'' ''c'' None]"
  let ?b = "fold publish ?es (new_bus 2)"
  note window = get_logs_window [of ?b ?es 2 1 None None None, OF refl]
  have "ev_log ?b = [?es ! 1, ?es ! 2]"
    using conjunct1 [OF window] by (simp add: numeral_2_eq_2)
  moreover have "int (length (get_logs 1 None None None ?b)) \<le> 1"
    using conjunct1 [OF conjunct2 [OF window]] by auto
  ultimately show ?thesis
    by (intro exI [of _ ?b]) simp
qed

end
