(* ===== verification/Text.thy ===== *)
theory Text
  imports Sdk
begin

section \<open>Splitting and joining text\<close>

text \<open>
  \<^verbatim>\<open>s.split(c)\<close> for one character, \<^verbatim>\<open>sep.join(ws)\<close>, and how one undoes the other.
\<close>

fun split_on :: "char \<Rightarrow> string \<Rightarrow> string list" where
  "split_on c [] = [[]]"
| "split_on c (x # s) =
     (if x = c then [] # split_on c s
      else case split_on c s of [] \<Rightarrow> [[x]] | w # ws \<Rightarrow> (x # w) # ws)"

fun join_with :: "string \<Rightarrow> string list \<Rightarrow> string" where
  "join_with sep [] = []"
| "join_with sep [w] = w"
| "join_with sep (w # v # ws) = w @ sep @ join_with sep (v # ws)"

lemma split_on_not_Nil [simp]: "split_on c s \<noteq> []"
  by (induction s) (auto split: list.split)

lemma split_on_word: "c \<notin> set w \<Longrightarrow> split_on c w = [w]"
  by (induction w) auto

lemma split_on_append: "c \<notin> set w \<Longrightarrow> split_on c (w @ c # s) = w # split_on c s"
  by (induction w) (auto split: list.split)

lemma split_join:
  assumes "ws \<noteq> []" and "\<forall>w \<in> set ws. c \<notin> set w"
  shows "split_on c (join_with [c] ws) = ws"
  using assms by (induction "[c]" ws rule: join_with.induct) (simp_all add: split_on_word split_on_append)

lemma strip_space_free: "\<forall>x \<in> set s. \<not> is_space x \<Longrightarrow> strip s = s"
proof -
  assume no: "\<forall>x \<in> set s. \<not> is_space x"
  have keep: "dropWhile is_space t = t" if "\<forall>x \<in> set t. \<not> is_space x" for t
    using that by (cases t) auto
  show ?thesis
    using no by (simp add: strip_def keep)
qed

end
