(* ===== verification/DriverService.thy ===== *)
theory DriverService
  imports JobGaps Wire Events Text
begin

section \<open>Driver service (mesh/driver/server.py)\<close>

text \<open>
  \<^verbatim>\<open>DriverServicer\<close>: the handlers of the calls agents make, over the job manager and its cluster,
  and the round of the health loop.  A message is a record of its fields; a JSON text is the
  document it denotes, and the empty text is \<open>None\<close>.  The handlers publish on the event bus;
  identifier and time stamp of the event are part of the environment.
\<close>

record driver =
  dr_manager :: job_manager
  dr_attached :: bool
  dr_bus :: event_bus

record driver_env =
  d_env :: jm_env
  d_event_id :: string
  d_timestamp :: string

type_synonym 'a handler = "(driver, 'a) py"

text \<open>A call of the job manager or the cluster from a handler.\<close>

definition on_manager :: "(job_manager, 'a) py \<Rightarrow> 'a handler" where
  "on_manager m d = (case m (dr_manager d) of (res, s) \<Rightarrow> (res, d\<lparr>dr_manager := s\<rparr>))"

definition publish_event ::
  "driver_env \<Rightarrow> log_level \<Rightarrow> string \<Rightarrow> string \<Rightarrow> pyval dict \<Rightarrow> unit handler" where
  "publish_event env l source message metadata = smodify (\<lambda>d. d\<lparr>dr_bus :=
     publish (create_event (d_event_id env) (d_timestamp env) l source message (Some metadata)) (dr_bus d)\<rparr>)"

text \<open>The cluster hands a death to the job manager.\<close>

definition death_callback :: "jm_env \<Rightarrow> (string \<Rightarrow> (job_manager, unit) py) option" where
  "death_callback env = Some (handle_node_death env)"

subsection \<open>Registration, heartbeats and resources\<close>

record register_request =
  rq_node_id :: string
  rq_hostname :: string
  rq_agent_address :: string
  rq_os_name :: string
  rq_location :: string
  rq_preemptible :: bool
  rq_resources :: resource_report
  rq_libraries :: "string list"

definition registered_node :: "register_request \<Rightarrow> node" where
  "registered_node q =
     \<lparr>node_id = rq_node_id q, hostname = rq_hostname q,
      resources = snapshot_to_resources (rq_resources q),
      node_state = HEALTHY, reliability_score = (if rq_preemptible q then 7 / 10 else 9 / 10),
      latency_score = 9 / 10, node_pool = (if rq_preemptible q then POOL_NIGHT else POOL_CPU),
      preemptible = rq_preemptible q,
      location = (if rq_location q = [] then ''default'' else rq_location q),
      tags = [(''os'', rq_os_name q), (''libraries'', join_with '','' (take 100 (rq_libraries q)))]
        @ (if rr_host_metrics_json (rq_resources q) = [] then []
           else [(''host_metrics'', rr_host_metrics_json (rq_resources q))])\<rparr>"

record register_response =
  rs_accepted :: bool
  rs_message :: string
  rs_heartbeat_interval :: real

definition RegisterNode :: "driver_env \<Rightarrow> register_request \<Rightarrow> register_response handler" where
  "RegisterNode env q =
     sbind (on_manager (smodify
       (register_node (e_now (d_env env)) (registered_node q) (Some (rq_agent_address q))))) (\<lambda>_.
     sbind (publish_event env INFO ''driver'' (''Node registered: '' @ rq_node_id q)
       [(''node_id'', PStr (rq_node_id q)), (''hostname'', PStr (rq_hostname q))]) (\<lambda>_ d.
       (Inr \<lparr>rs_accepted = True, rs_message = ''welcome'',
             rs_heartbeat_interval = interval_seconds (dr_manager d)\<rparr>, d)))"

definition HeartbeatRpc :: "driver_env \<Rightarrow> string \<Rightarrow> (bool \<times> string) handler" where
  "HeartbeatRpc env nid =
     sbind (on_manager (record_heartbeat (death_callback (d_env env)) (e_now (d_env env)) nid)) (\<lambda>st.
       sret (True, node_state_name st))"

definition ReportResources :: "resource_report \<Rightarrow> rpc_reply handler" where
  "ReportResources m =
     sbind (on_manager (smodify (update_node_resources (rr_node_id m) (snapshot_to_resources m)
       (rr_host_metrics_json m)))) (\<lambda>_. sret (Ack True []))"

definition PreemptionWarning :: "driver_env \<Rightarrow> string \<Rightarrow> string \<Rightarrow> rpc_reply handler" where
  "PreemptionWarning env nid reason =
     sbind (publish_event env WARN ''preemption'' (''Preemption on '' @ nid @ '': '' @ reason)
       [(''node_id'', PStr nid)]) (\<lambda>_.
     sbind (on_manager (smodify (update_node_state nid PREEMPTED))) (\<lambda>_.
     sbind (\<lambda>d. if dr_attached d then on_manager (handle_preemption (d_env env) nid) d else (Inr (), d))
       (\<lambda>_. sret (Ack True ''preemption handled''))))"

subsection \<open>Progress and completion\<close>

record progress_report =
  pr_task_id :: string
  pr_progress :: real
  pr_state :: "pyval dict option"

definition store_progress :: "real \<Rightarrow> progress_report \<Rightarrow> ref \<Rightarrow> job_manager \<Rightarrow> job_manager" where
  "store_progress now q r s =
     (let s1 = update_task r (\<lambda>t. t\<lparr>task_progress := pr_progress q,
                 state_data := (case pr_state q of None \<Rightarrow> state_data t | Some d \<Rightarrow> d)\<rparr>) s
      in s1\<lparr>checkpoints :=
             snd (save_checkpoint (deref s1 r) (Some (state_data (deref s1 r))) now (checkpoints s1))\<rparr>)"

definition TaskProgress :: "driver_env \<Rightarrow> progress_report \<Rightarrow> rpc_reply handler" where
  "TaskProgress env q =
     sbind (on_manager (smodify (\<lambda>s.
       case dict_get (tasks s) (pr_task_id q) of
         None \<Rightarrow> s
       | Some r \<Rightarrow> store_progress (e_now (d_env env)) q r s))) (\<lambda>_. sret (Ack True []))"

record complete_report =
  cr_task_id :: string
  cr_success :: bool
  cr_result :: "pyval option"
  cr_error :: string

definition report_outcome :: "jm_env \<Rightarrow> complete_report \<Rightarrow> ref \<Rightarrow> jm" where
  "report_outcome env q r s =
     (case find_job_for_task s r of
        None \<Rightarrow> (Inr (), s)
      | Some jr \<Rightarrow>
          if cr_success q
          then on_task_complete env r jr (case cr_result q of None \<Rightarrow> PNone | Some v \<Rightarrow> v) s
          else on_task_failed r jr (cr_error q) s)"

definition TaskComplete :: "driver_env \<Rightarrow> complete_report \<Rightarrow> rpc_reply handler" where
  "TaskComplete env q d =
     (case dict_get (tasks (dr_manager d)) (cr_task_id q) of
        None \<Rightarrow> (Inr (Ack False ''unknown task''), d)
      | Some r \<Rightarrow>
          sbind (on_manager (smodify (update_task r
            (\<lambda>t. t\<lparr>task_state := (if cr_success q then T_COMPLETED else T_FAILED)\<rparr>)))) (\<lambda>_.
          sbind (\<lambda>d. if dr_attached d then on_manager (report_outcome (d_env env) q r) d
                     else (Inr (), d)) (\<lambda>_.
            sret (Ack True []))) d)"

subsection \<open>The health loop\<close>

text \<open>
  Rounds of the thread that evaluates the nodes, one for each environment; an exception of a round
  ends the thread.
\<close>

fun health_loop :: "driver_env list \<Rightarrow> unit handler" where
  "health_loop [] = sret ()"
| "health_loop (env # envs) =
     sbind (on_manager (evaluate_health (death_callback (d_env env)) (e_now (d_env env)))) (\<lambda>_.
       health_loop envs)"

subsection \<open>A registered node is usable\<close>

lemma on_manager_smodify [simp]:
  "on_manager (smodify f) d = (Inr (), d\<lparr>dr_manager := f (dr_manager d)\<rparr>)"
  by (simp add: on_manager_def)

lemma publish_event_apply [simp]:
  "publish_event env l source message md d = (Inr (), d\<lparr>dr_bus :=
     publish (create_event (d_event_id env) (d_timestamp env) l source message (Some md)) (dr_bus d)\<rparr>)"
  by (simp add: publish_event_def)

lemma registration_is_live:
  assumes "config_ok (dr_manager d)" and "RegisterNode env q d = (res, d')"
    and "t - e_now (d_env env) < time_to_suspected (dr_manager d)"
  shows "registered_node q \<in> set (fst (live_nodes t (dr_manager d')))
    \<and> get_remote (rq_node_id q) (dr_manager d') = Some (rq_agent_address q)"
proof -
  let ?now = "e_now (d_env env)" and ?n = "registered_node q" and ?s = "dr_manager d"
  let ?s' = "register_node ?now ?n (Some (rq_agent_address q)) ?s"
  have d': "dr_manager d' = ?s'"
    using assms(2) by (auto simp: RegisterNode_def sbind_def)
  have id: "node_id ?n = rq_node_id q" "node_state ?n = HEALTHY"
    by (simp_all add: registered_node_def)
  have reg: "interval_seconds ?s' = interval_seconds ?s" "suspected_threshold ?s' = suspected_threshold ?s"
    "dead_threshold ?s' = dead_threshold ?s" "dict_get (last_heartbeat ?s') (rq_node_id q) = Some ?now"
    "rq_node_id q \<notin> explicit_dead ?s'" "nodes ?s' = dict_set (rq_node_id q) ?n (nodes ?s)"
    "dict_get (remote_agents ?s') (rq_node_id q) = Some (rq_agent_address q)"
    by (simp_all add: register_node_def tracker_register_def Let_def id)
  have "\<not> suspected_threshold ?s \<le> missed_count t (rq_node_id q) ?s'"
    using assms(1,3) missed_ge_iff [OF _ reg(4)]
    by (simp add: reg(1) config_ok_def time_to_suspected_def)
  moreover have "suspected_threshold ?s \<le> dead_threshold ?s"
    using assms(1) by (simp add: config_ok_def)
  ultimately have "fst (evaluate t (rq_node_id q) ?s') = HEALTHY"
    by (simp add: evaluate_def health_of_def Let_def reg(2-5))
  moreover have "(rq_node_id q, ?n) \<in> set (nodes ?s')"
    by (simp add: reg map_of_SomeD)
  ultimately have "?n\<lparr>node_state := HEALTHY\<rparr> \<in> set (fst (live_nodes t ?s'))"
    by (force simp: live_nodes_eq)
  moreover have "?n\<lparr>node_state := HEALTHY\<rparr> = ?n"
    using id(2) by simp
  ultimately show ?thesis
    by (simp add: d' get_remote_def reg)
qed

text \<open>
  A registered node is usable: after a registration, and as long as less than the time to
  suspicion has passed, the live nodes contain the node as it was reported, healthy, and the
  driver reaches its agent at the reported address.
\<close>

lemma registered_is_live:
  assumes "config_ok (dr_manager d)" and "RegisterNode env q d = (res, d')"
    and "t - e_now (d_env env) < time_to_suspected (dr_manager d)"
  shows "registered_node q \<in> set (fst (live_nodes t (dr_manager d')))
    \<and> get_remote (rq_node_id q) (dr_manager d') = Some (rq_agent_address q)"
  using registration_is_live [OF assms] .

subsection \<open>Progress survives\<close>

lemma progress_survives:
  assumes "dict_get (tasks (dr_manager d)) (pr_task_id q) = Some r"
    and "r < length (task_heap (dr_manager d))" and "TaskProgress env q d = (res, d')"
  shows "as_resume_progress (assignment_for (dr_manager d') r) = pr_progress q
    \<and> as_resume_state (assignment_for (dr_manager d') r) =
        (case pr_state q of None \<Rightarrow> state_data (deref (dr_manager d) r) | Some sd \<Rightarrow> sd)
    \<and> restore (checkpoints (dr_manager d')) (deref (dr_manager d') r) = deref (dr_manager d') r"
proof -
  have "dr_manager d' = store_progress (e_now (d_env env)) q r (dr_manager d)"
    using assms(1,3) by (auto simp: TaskProgress_def sbind_def)
  then show ?thesis
    using assms(2)
    by (simp add: store_progress_def save_checkpoint_def assignment_for_def load_checkpoint_def
        restore_def restore_progress_def deref_def update_task_def Let_def split: option.split)
qed

subsection \<open>A late completion\<close>

lemma job_listing_update:
  assumes "\<And>t. task_id (f t) = task_id t"
  shows "job_listing (update_task r f s) d tid = job_listing s d tid"
  by (induction d rule: dict_induct) (simp_all add: deref_id [OF assms] cong: image_cong)

lemma find_job_update:
  assumes "\<And>t. task_id (f t) = task_id t" and "\<And>t. task_job_id (f t) = task_job_id t"
  shows "find_job_for_task (update_task r f s) r' = find_job_for_task s r'"
proof -
  have "task_job_id (deref (update_task r f s) r') = task_job_id (deref s r')"
    using assms(2) by (cases "r' = r"; cases "r < length (task_heap s)")
      (simp_all add: deref_def update_task_def list_update_beyond)
  then show ?thesis
    by (simp add: find_job_for_task_def job_listing_update [OF assms(1)] deref_id [OF assms(1)]
        split: option.split list.split)
qed

lemma task_complete_wins:
  assumes "dr_attached d" and "dict_get (tasks (dr_manager d)) (cr_task_id q) = Some r"
    and "find_job_for_task (dr_manager d) r = Some jr" and "jr < length (job_heap (dr_manager d))"
    and "length (specs_of (job_id (job_at (dr_manager d) jr)) (dr_manager d)) \<le> 1" and "cr_success q"
  shows "\<exists>d'. TaskComplete env q d = (Inr (Ack True []), d')
    \<and> job_state (job_at (dr_manager d') jr) = J_COMPLETED
    \<and> job_result (job_at (dr_manager d') jr) = (case cr_result q of None \<Rightarrow> PNone | Some v \<Rightarrow> v)
    \<and> rpc_log (dr_manager d') = rpc_log (dr_manager d)"
proof -
  let ?s = "update_task r (\<lambda>t. t\<lparr>task_state := T_COMPLETED\<rparr>) (dr_manager d)"
  have job: "job_at ?s jr = job_at (dr_manager d) jr"
    by (simp add: job_at_def update_task_def)
  have small: "jr < length (job_heap ?s)" "length (specs_of (job_id (job_at ?s jr)) ?s) \<le> 1"
    using assms(4,5) by (simp_all add: job specs_of_def)
  obtain s' where s': "on_task_complete (d_env env) r jr (case cr_result q of None \<Rightarrow> PNone | Some v \<Rightarrow> v) ?s
      = (Inr (), s')" "job_state (job_at s' jr) = J_COMPLETED"
      "job_result (job_at s' jr) = (case cr_result q of None \<Rightarrow> PNone | Some v \<Rightarrow> v)" "rpc_log s' = rpc_log ?s"
    using completion_result [OF small] by blast
  have "find_job_for_task ?s r = Some jr"
    using assms(3) by (simp add: find_job_update)
  then have "TaskComplete env q d = (Inr (Ack True []), d\<lparr>dr_manager := s'\<rparr>)"
    using assms(1,2,6) s'(1) by (simp add: TaskComplete_def sbind_def on_manager_def report_outcome_def)
  then show ?thesis
    using s' by (intro exI [of _ "d\<lparr>dr_manager := s'\<rparr>"]) simp
qed

end
