(* ===== verification/Agent.thy ===== *)
theory Agent
  imports Executor DriverService
begin

section \<open>The agent (mesh/agent)\<close>

text \<open>
  \<^verbatim>\<open>AgentTaskRunner\<close> (\<^verbatim>\<open>executor.py\<close>), the service through which the driver calls it
  (\<^verbatim>\<open>server.py\<close>), what the daemon sends back (\<^verbatim>\<open>daemon.py\<close>), and the built-in counter task
  (\<^verbatim>\<open>tasks/builtins.py\<close>).  The threads that are alive are kept in a list, because the table of
  running tasks can lose one of them.  A call of the service is one step here.
\<close>

record agent =
  ag_checkpoints :: "checkpoint dict"
  ag_interrupts :: "bool dict"
  ag_running :: "task_spec dict"
  ag_threads :: "(task_spec \<times> task_callable) list"

definition new_agent :: agent where
  "new_agent = \<lparr>ag_checkpoints = [], ag_interrupts = [], ag_running = [], ag_threads = []\<rparr>"

subsection \<open>Assignment, pause and cancellation\<close>

definition assigned_spec :: "assignment \<Rightarrow> task_spec" where
  "assigned_spec a =
     (new_task_spec (as_task_name a) (as_task_id a))
       \<lparr>task_job_id := Some (as_job_id a),
        task_requirements := default_requirements
          \<lparr>cpu_cores_req := as_cpu_cores a, ram_gb_req := as_ram_gb a, gpu_count_req := as_gpu_count a\<rparr>,
        task_checkpoint := as_checkpoint a, checkpoint_interval := as_checkpoint_interval a,
        total_work := as_total_work a, task_progress := as_resume_progress a,
        state_data := as_resume_state a\<rparr>"

text \<open>The result tells whether the task was started; it was not if it is listed as running.\<close>

definition assign :: "task_callable dict \<Rightarrow> assignment \<Rightarrow> (agent, bool) py" where
  "assign registered a s =
     (if dict_get (ag_running s) (as_task_id a) \<noteq> None then (Inr False, s)
      else
        let spec = assigned_spec a;
            s1 = (if as_resume_progress a = 0 then s
                  else s\<lparr>ag_checkpoints :=
                    snd (save_checkpoint spec (Some (state_data spec)) 0 (ag_checkpoints s))\<rparr>)
        in case dict_get registered (as_task_name a) of
             None \<Rightarrow> (Inl KeyError, s1)
           | Some fn \<Rightarrow>
               (Inr True, s1\<lparr>ag_running := dict_set (as_task_id a) spec (ag_running s1),
                             ag_threads := ag_threads s1 @ [(spec, fn)]\<rparr>))"

text \<open>The runner's own executor only serves to set the event of a task.\<close>

definition agent_interrupt :: "string \<Rightarrow> agent \<Rightarrow> agent" where
  "agent_interrupt tid s =
     s\<lparr>ag_interrupts := exec_interrupts
         (interrupt tid \<lparr>exec_checkpoints = ag_checkpoints s, exec_interrupts = ag_interrupts s\<rparr>)\<rparr>"

definition pause :: "string \<Rightarrow> agent \<Rightarrow> agent" where
  "pause tid = agent_interrupt tid"

definition cancel :: "string \<Rightarrow> agent \<Rightarrow> agent" where
  "cancel tid s =
     (let s1 = agent_interrupt tid s in s1\<lparr>ag_running := dict_pop tid (ag_running s1)\<rparr>)"

definition running_count :: "agent \<Rightarrow> int" where
  "running_count s = int (length (ag_running s))"

subsection \<open>The thread of a task\<close>

text \<open>
  A body that runs with the tracked \<^verbatim>\<open>set_progress\<close>: after each call that returns, the progress
  and the state of the task object are reported.  Nobody else has the context's event, so
  nobody can set it.
\<close>

definition progress_of :: "task_ctx \<Rightarrow> progress_report" where
  "progress_of c =
     \<lparr>pr_task_id = task_id (ctx_spec c), pr_progress = task_progress (ctx_spec c),
      pr_state = Some (state_data (ctx_spec c))\<rparr>"

primrec run_tracked ::
  "(nat \<Rightarrow> real) \<Rightarrow> body \<Rightarrow> task_ctx \<Rightarrow> progress_report list \<times> outcome \<times> task_ctx" where
  "run_tracked clock (Return v) = (\<lambda>c. ([], Returned v, c))"
| "run_tracked clock (Raise e) = (\<lambda>c. ([], Raised e, c))"
| "run_tracked clock (SetProgress v st b) =
     (\<lambda>c. case set_progress clock (\<lambda>_. False) v st c of (stop, c1) \<Rightarrow>
        if stop then ([], Interrupted, c1)
        else (case run_tracked clock b c1 of (reports, out, c2) \<Rightarrow> (progress_of c1 # reports, out, c2)))"
| "run_tracked clock (SaveCheckpoint st b) = (\<lambda>c. run_tracked clock b (checkpoint_now clock st c))"
| "run_tracked clock (ReadState k) = (\<lambda>c. (\<lambda>x. run_tracked clock (k x)) (ctx_state c) c)"
| "run_tracked clock (ReadProgress k) = (\<lambda>c. (\<lambda>x. run_tracked clock (k x)) (ctx_progress c) c)"

definition run_assigned ::
  "(nat \<Rightarrow> real) \<Rightarrow> task_callable \<Rightarrow> task_ctx \<Rightarrow> progress_report list \<times> outcome \<times> task_ctx" where
  "run_assigned clock fn c =
     (if accepts_context fn then run_tracked clock (fn_body fn) c
      else (case fn_plain fn of Inl e \<Rightarrow> ([], Raised e, c) | Inr v \<Rightarrow> ([], Returned v, c)))"

text \<open>What the daemon reports of an ended task: its result, or the text of its error.\<close>

definition on_complete :: "task_spec \<Rightarrow> pyval \<Rightarrow> string option \<Rightarrow> complete_report option" where
  "on_complete spec res error =
     (case error of
        Some (c # cs) \<Rightarrow>
          if c # cs \<noteq> ''interrupted''
          then Some \<lparr>cr_task_id = task_id spec, cr_success = False, cr_result = None, cr_error = c # cs\<rparr>
          else None
      | _ \<Rightarrow> Some \<lparr>cr_task_id = task_id spec, cr_success = True,
                   cr_result = (if res = PNone then None else Some res), cr_error = []\<rparr>)"

text \<open>
  The run of a thread as one step: what it reports while it runs and at its end, and the agent
  afterwards.  \<open>message\<close> gives the text of an exception.
\<close>

definition thread_ctx :: "task_spec \<Rightarrow> agent \<Rightarrow> task_ctx" where
  "thread_ctx spec s =
     start_ctx spec \<lparr>exec_checkpoints = ag_checkpoints s, exec_interrupts = ag_interrupts s\<rparr>"

definition run_thread ::
  "(nat \<Rightarrow> real) \<Rightarrow> (py_error \<Rightarrow> string) \<Rightarrow> task_spec \<times> task_callable \<Rightarrow> agent
     \<Rightarrow> progress_report list \<times> complete_report option \<times> agent" where
  "run_thread clock message th s =
     (case th of (spec, fn) \<Rightarrow>
        case run_assigned clock fn (thread_ctx spec s) of (reports, out, c) \<Rightarrow>
          (reports,
           (case out of
              Returned v \<Rightarrow> on_complete (finish_spec (ctx_spec c)) v None
            | Interrupted \<Rightarrow> on_complete (ctx_spec c) PNone (Some ''interrupted'')
            | Raised e \<Rightarrow>
                on_complete ((ctx_spec c)\<lparr>task_state := T_FAILED\<rparr>) PNone (Some (message e))),
           s\<lparr>ag_checkpoints := ctx_checkpoints c,
             ag_running := dict_pop (task_id spec) (ag_running s),
             ag_threads := remove1 th (ag_threads s)\<rparr>))"

subsection \<open>The agent's service\<close>

definition serve :: "task_callable dict \<Rightarrow> string \<Rightarrow> rpc \<Rightarrow> (agent, rpc_reply) py" where
  "serve registered reason c =
     (case c of
        AssignTask _ a \<Rightarrow>
          sbind (assign registered a) (\<lambda>ok.
            sret (Ack ok (if ok then ''assigned'' else ''already running'')))
      | CancelTask _ tid \<Rightarrow> sbind (smodify (cancel tid)) (\<lambda>_. sret (Ack True ''cancelled''))
      | PauseTask _ tid \<Rightarrow>
          sbind (smodify (pause tid)) (\<lambda>_. sret (Ack True (''paused: '' @ reason))))"

subsection \<open>The counter task\<close>

text \<open>\<^verbatim>\<open>builtin.counter\<close>: \<open>work\<close> is the context's total work.\<close>

fun count_steps :: "nat \<Rightarrow> int \<Rightarrow> pyval \<Rightarrow> body" where
  "count_steps 0 i res = Return res"
| "count_steps (Suc n) i res =
     SetProgress (of_int (i + 1)) [(''count'', PInt (i + 1))] (count_steps n (i + 1) res)"

definition counter :: "real \<Rightarrow> body" where
  "counter work =
     (let target = py_trunc work
      in ReadProgress (\<lambda>p. count_steps (nat (target - py_trunc p)) (py_trunc p)
           (PDict [(''count'', PInt target)])))"

subsection \<open>The tracked run is the run of the body\<close>


subsection \<open>Nobody interrupts a task on an agent\<close>

datatype agent_op =
    Serve "task_callable dict" string rpc
  | EndThread "nat \<Rightarrow> real" "py_error \<Rightarrow> string" nat

fun run_agent :: "agent_op \<Rightarrow> agent \<Rightarrow> agent" where
  "run_agent (Serve registered reason c) s = snd (serve registered reason c s)"
| "run_agent (EndThread clock message i) s =
     (if i < length (ag_threads s) then snd (snd (run_thread clock message (ag_threads s ! i) s)) else s)"

lemma agent_interrupt_none [simp]: "ag_interrupts s = [] \<Longrightarrow> agent_interrupt tid s = s"
  by (simp add: agent_interrupt_def interrupt_def)

lemma assign_interrupts [simp]: "ag_interrupts (snd (assign registered a s)) = ag_interrupts s"
  by (simp add: assign_def Let_def split: option.split)

interpretation no_events: stateful run_agent "\<lambda>_ _. True" "\<lambda>s. ag_interrupts s = []"
proof unfold_locales
  fix s :: agent and p :: agent_op
  assume s: "ag_interrupts s = []"
  have "ag_interrupts (snd (sbind (assign registered a) (\<lambda>ok. sret (f ok)) s)) = []" for registered a f
    using sbind_keeps [of "\<lambda>s. ag_interrupts s = []" s "assign registered a" "\<lambda>ok. sret (f ok)"] s
    by simp
  then have "ag_interrupts (snd (serve registered reason c s)) = []" for registered reason c
    using s by (cases c) (simp_all add: serve_def pause_def cancel_def bind_smodify Let_def)
  then show "ag_interrupts (run_agent p s) = []"
    using s by (cases p) (auto simp: run_thread_def split: prod.split)
qed

text \<open>
  A pause is acknowledged and ignored: in every state an agent can reach, a call that pauses a
  task is answered with success and changes nothing, and a call that cancels a task stops no
  thread.
\<close>

lemma pause_does_nothing:
  "serve registered reason (PauseTask n tid) (fold run_agent ps new_agent) =
     (Inr (Ack True (''paused: '' @ reason)), fold run_agent ps new_agent)
   \<and> ag_threads (snd (serve registered reason (CancelTask n tid) (fold run_agent ps new_agent))) =
       ag_threads (fold run_agent ps new_agent)"
proof -
  have "ag_interrupts new_agent = []"
    by (simp add: new_agent_def)
  from no_events.run_all_ok [OF this legal_always] show ?thesis
    by (simp add: serve_def pause_def cancel_def sbind_def Let_def)
qed

text \<open>
  A task can run twice at once: an assignment, a cancellation and the same assignment again are
  all accepted, and leave two threads of the task alive.
\<close>

lemma cancelled_runs_twice:
  assumes "dict_get registered (as_task_name a) = Some fn" and "ag_interrupts s = []"
    and "dict_get (ag_running s) (as_task_id a) = None"
  shows "\<exists>s1 s2 s3. serve registered reason (AssignTask n a) s = (Inr (Ack True ''assigned''), s1)
    \<and> serve registered reason (CancelTask n (as_task_id a)) s1 = (Inr (Ack True ''cancelled''), s2)
    \<and> serve registered reason (AssignTask n a) s2 = (Inr (Ack True ''assigned''), s3)
    \<and> ag_threads s3 = ag_threads s @ [(assigned_spec a, fn), (assigned_spec a, fn)]"
  using assms by (simp add: serve_def assign_def cancel_def sbind_def Let_def)

subsection \<open>Resuming\<close>

lemma assigned_resumes:
  assumes "assign registered a s = (Inr True, s')" and "as_resume_progress a \<noteq> 0"
  shows "ctx_progress (thread_ctx (assigned_spec a) s') = as_resume_progress a
    \<and> ctx_state (thread_ctx (assigned_spec a) s') = as_resume_state a"
proof -
  have "load_checkpoint (ag_checkpoints s') (as_task_id a) = Some
      \<lparr>cp_task_id = as_task_id a, cp_progress = as_resume_progress a,
       cp_state_data = as_resume_state a, cp_timestamp = 0\<rparr>"
    using assms by (auto simp: assign_def Let_def save_checkpoint_def load_checkpoint_def
        assigned_spec_def new_task_spec_def split: if_splits option.splits)
  then show ?thesis
    by (simp add: thread_ctx_def start_ctx_def restore_from_checkpoint_def new_ctx_def
        assigned_spec_def new_task_spec_def)
qed

text \<open>
  C19: progress survives a migration: when an agent reports progress to the driver and the task is then
  assigned to any agent that is not running it, the body starts there with exactly the reported
  progress, if it was not zero, and the reported state.
\<close>

theorem migration_resumes:
  assumes "dict_get (tasks (dr_manager d)) (pr_task_id q) = Some r"
    and "r < length (task_heap (dr_manager d))" and "TaskProgress env q d = (res, d')"
    and "assign registered (assignment_for (dr_manager d') r) s = (Inr True, s')"
    and "pr_progress q \<noteq> 0" and "pr_state q = Some sd"
  shows "ctx_progress (thread_ctx (assigned_spec (assignment_for (dr_manager d') r)) s') = pr_progress q
    \<and> ctx_state (thread_ctx (assigned_spec (assignment_for (dr_manager d') r)) s') = sd"
  using progress_survives [OF assms(1-3)] assigned_resumes [OF assms(4)] assms(5,6) by simp

subsection \<open>A failure without a message\<close>

theorem silent_failure_completes:
  assumes "run_assigned clock fn (thread_ctx spec s) = (reports, Raised e, c)" and "message e = []"
    and "dr_attached d" and "dict_get (tasks (dr_manager d)) (task_id (ctx_spec c)) = Some r"
    and "find_job_for_task (dr_manager d) r = Some jr" and "jr < length (job_heap (dr_manager d))"
    and "length (specs_of (job_id (job_at (dr_manager d) jr)) (dr_manager d)) \<le> 1"
  shows "\<exists>q d'. fst (snd (run_thread clock message (spec, fn) s)) = Some q
    \<and> TaskComplete env q d = (Inr (Ack True []), d')
    \<and> job_state (job_at (dr_manager d') jr) = J_COMPLETED
    \<and> job_result (job_at (dr_manager d') jr) = PNone"
proof -
  let ?q = "\<lparr>cr_task_id = task_id (ctx_spec c), cr_success = True, cr_result = None, cr_error = []\<rparr>"
  have "fst (snd (run_thread clock message (spec, fn) s)) = Some ?q"
    using assms(1,2) by (simp add: run_thread_def on_complete_def)
  moreover obtain d' where "TaskComplete env ?q d = (Inr (Ack True []), d')"
    "job_state (job_at (dr_manager d') jr) = J_COMPLETED" "job_result (job_at (dr_manager d') jr) = PNone"
    using task_complete_wins [of d ?q r jr env] assms(3-7) by auto
  ultimately show ?thesis by blast
qed

subsection \<open>The counter counts\<close>

lemma set_progress_value:
  assumes "set_progress clock (\<lambda>_. False) v st c = (stop, c')"
  shows "\<not> stop" and "task_progress (ctx_spec c') = min v (ctx_total_work c)"
    and "ctx_progress c' = min v (ctx_total_work c)"
    and "ctx_total_work c' = ctx_total_work c" and "total_work (ctx_spec c') = total_work (ctx_spec c)"
  using assms
  by (auto simp: set_progress_def check_interrupt_def checkpoint_now_def update_state_def Let_def
      split: if_splits)

lemma count_steps_run:
  assumes "ctx_total_work c = of_int target" and "i + int n = target"
    and "task_progress (ctx_spec c) = of_int i"
  shows "\<exists>reports c'. run_tracked clock (count_steps n i res) c = (reports, Returned res, c')
    \<and> map pr_progress reports = map (\<lambda>k. of_int (i + int k + 1)) [0..<n]
    \<and> task_progress (ctx_spec c') = of_int target \<and> total_work (ctx_spec c') = total_work (ctx_spec c)"
  using assms
proof (induction n arbitrary: i c)
  case 0
  then show ?case by simp
next
  case (Suc n)
  obtain stop c1 where step:
    "set_progress clock (\<lambda>_. False) (of_int (i + 1)) [(''count'', PInt (i + 1))] c = (stop, c1)"
    by fastforce
  note v = set_progress_value [OF step]
  have "min (of_int (i + 1)) (ctx_total_work c) = of_int (i + 1)"
    using Suc.prems(1,2) by (simp add: min_def)
  with v have c1: "task_progress (ctx_spec c1) = of_int (i + 1)" "ctx_total_work c1 = of_int target"
    using Suc.prems(1) by simp_all
  have "i + 1 + int n = target"
    using Suc.prems(2) by simp
  from Suc.IH [OF c1(2) this c1(1)] obtain reports c' where
    r: "run_tracked clock (count_steps n (i + 1) res) c1 = (reports, Returned res, c')"
      "map pr_progress reports = map (\<lambda>k. of_int (i + 1 + int k + 1)) [0..<n]"
      "task_progress (ctx_spec c') = of_int target" "total_work (ctx_spec c') = total_work (ctx_spec c1)"
    by (elim exE conjE) (rule that; assumption)
  have "map (\<lambda>k. real_of_int (i + int k + 1)) [0..<Suc n]
      = of_int (i + 1) # map (\<lambda>k. of_int (i + 1 + int k + 1)) [0..<n]"
    by (simp add: upt_conv_Cons map_Suc_upt [symmetric] o_def add.assoc del: upt_Suc)
  moreover have "run_tracked clock (count_steps (Suc n) i res) c = (progress_of c1 # reports, Returned res, c')"
    using step v(1) r(1) by simp
  moreover have "map pr_progress (progress_of c1 # reports)
      = of_int (i + 1) # map (\<lambda>k. of_int (i + 1 + int k + 1)) [0..<n]"
    by (simp add: progress_of_def c1(1) r(2))
  ultimately show ?case
    using r(3,4) v(5) by (metis (no_types, lifting))
qed

text \<open>
  The counter counts: from any whole progress up to its total, the task reports each further
  number once and in order, ends with the total as its progress, and returns the total.
\<close>

lemma counter_counts:
  assumes "ctx_total_work c = of_int target" and "ctx_progress c = of_int i"
    and "task_progress (ctx_spec c) = of_int i" and "0 \<le> i" and "i \<le> target"
  shows "\<exists>reports c'. run_tracked clock (counter (ctx_total_work c)) c
      = (reports, Returned (PDict [(''count'', PInt target)]), c')
    \<and> map pr_progress reports = map of_int [i + 1..target]
    \<and> task_progress (ctx_spec c') = of_int target"
proof -
  have int: "py_trunc (of_int k) = k" for k
    by (simp add: py_trunc_def)
  have "map (\<lambda>k. real_of_int (i + int k + 1)) [0..<nat (target - i)] = map of_int [i + 1..target]"
    using assms(4,5) by (intro nth_equalityI) (simp_all add: nth_upto)
  then show ?thesis
    using count_steps_run [of c target i "nat (target - i)" clock] assms
    by (fastforce simp: counter_def int)
qed

end
