(* ===== verification/Daemon.thy ===== *)
theory Daemon
  imports Worker Agent
begin

section \<open>Preemption detector and agent daemon (mesh/agent/preemption.py, mesh/agent/daemon.py)\<close>

text \<open>
  The detector of a busy host and the loop of the daemon that reports resources, sends
  heartbeats and warns of preemption.  A round is a step; its environment gives the clocks, the
  snapshot of the monitor and what the driver answers, where an exception is an error value.
\<close>

subsection \<open>Detector\<close>

record detector =
  cpu_threshold :: real
  consecutive_triggers :: int
  high_cpu_streak :: int
  last_triggered :: bool

definition new_detector :: "real \<Rightarrow> detector" where
  "new_detector threshold =
     \<lparr>cpu_threshold = threshold, consecutive_triggers = 2, high_cpu_streak = 0,
      last_triggered = False\<rparr>"

text \<open>The reasons; the text of a spike keeps its number.\<close>

datatype reason = UserActive | CpuSpike real

definition check_preemption :: "resource_snapshot \<Rightarrow> detector \<Rightarrow> reason list \<times> detector" where
  "check_preemption s d =
     (let streak = (if cpu_threshold d \<le> cpu_utilization s then high_cpu_streak d + 1 else 0);
          reasons = (if user_active s \<and> 1 / 2 < cpu_utilization s then [UserActive] else [])
            @ (if consecutive_triggers d \<le> streak then [CpuSpike (cpu_utilization s)] else [])
      in (reasons, d\<lparr>high_cpu_streak := streak, last_triggered := (reasons \<noteq> [])\<rparr>))"

definition reset_detector :: "detector \<Rightarrow> detector" where
  "reset_detector d = d\<lparr>high_cpu_streak := 0, last_triggered := False\<rparr>"

subsection \<open>Daemon\<close>

record agent_config =
  cfg_node_id :: string
  cfg_driver_address :: string
  cfg_agent_address :: string
  cfg_location :: string
  cfg_preemptible :: bool
  cfg_heartbeat_interval :: real
  cfg_resource_interval :: real
  cfg_cpu_threshold :: real

datatype daemon_call =
    SendResources resource_report
  | SendHeartbeat
  | SendPreemption real "reason list"

record daemon =
  dm_looping :: bool
  dm_last_heartbeat :: real
  dm_last_resource :: real
  dm_detector :: detector
  dm_worker :: "worker_state option"
  dm_calls :: "(real \<times> daemon_call) list"

definition new_daemon :: "agent_config \<Rightarrow> worker_state option \<Rightarrow> daemon" where
  "new_daemon cfg w =
     \<lparr>dm_looping = False, dm_last_heartbeat = 0, dm_last_resource = 0,
      dm_detector = new_detector (cfg_cpu_threshold cfg), dm_worker = w, dm_calls = []\<rparr>"

text \<open>What a round sees: both clocks, the snapshot, counts, the JSON parser and the answers.\<close>

record daemon_env =
  de_now :: real
  de_time :: real
  de_snapshot :: "resource_snapshot result"
  de_libraries :: int
  de_active :: int
  de_loads :: "string \<Rightarrow> pyval result"
  de_reply :: "daemon_call \<Rightarrow> string result"

definition call_driver :: "daemon_env \<Rightarrow> daemon_call \<Rightarrow> (daemon, string) py" where
  "call_driver env c d = (de_reply env c, d\<lparr>dm_calls := dm_calls d @ [(de_now env, c)]\<rparr>)"

definition on_worker :: "(worker_state, unit) py \<Rightarrow> (daemon, unit) py" where
  "on_worker f d =
     (case dm_worker d of
        None \<Rightarrow> (Inr (), d)
      | Some w \<Rightarrow> (case f w of (res, w1) \<Rightarrow> (res, d\<lparr>dm_worker := Some w1\<rparr>)))"

definition report_step :: "agent_config \<Rightarrow> daemon_env \<Rightarrow> resource_snapshot \<Rightarrow> (daemon, unit) py" where
  "report_step cfg env s d =
     (if cfg_resource_interval cfg \<le> de_now env - dm_last_resource d
      then sbind (call_driver env (SendResources (resource_msg (cfg_node_id cfg) s))) (\<lambda>_.
             smodify (\<lambda>d. d\<lparr>dm_last_resource := de_now env\<rparr>)) d
      else (Inr (), d))"

definition heartbeat_step :: "agent_config \<Rightarrow> daemon_env \<Rightarrow> (daemon, unit) py" where
  "heartbeat_step cfg env d =
     (if cfg_heartbeat_interval cfg \<le> de_now env - dm_last_heartbeat d
      then sbind (call_driver env SendHeartbeat) (\<lambda>st.
           sbind (on_worker (smodify (update_heartbeat (de_time env) (Some st)))) (\<lambda>_.
             smodify (\<lambda>d. d\<lparr>dm_last_heartbeat := de_now env\<rparr>))) d
      else (Inr (), d))"

definition preemption_step :: "agent_config \<Rightarrow> daemon_env \<Rightarrow> resource_snapshot \<Rightarrow> (daemon, unit) py" where
  "preemption_step cfg env s d =
     (case check_preemption s (dm_detector d) of (reasons, det) \<Rightarrow>
        let d1 = d\<lparr>dm_detector := det\<rparr>
        in if reasons \<noteq> [] \<and> cfg_preemptible cfg
           then sbind (call_driver env (SendPreemption (cpu_utilization s) reasons)) (\<lambda>_.
                  smodify (\<lambda>d. d\<lparr>dm_detector := reset_detector (dm_detector d)\<rparr>)) d1
           else (Inr (), d1))"

definition daemon_body :: "agent_config \<Rightarrow> daemon_env \<Rightarrow> (daemon, unit) py" where
  "daemon_body cfg env =
     sbind (slift (de_snapshot env)) (\<lambda>s.
     sbind (report_step cfg env s) (\<lambda>_.
     sbind (heartbeat_step cfg env) (\<lambda>_.
     sbind (on_worker (update_snapshot (de_loads env) s (de_libraries env) (de_active env))) (\<lambda>_.
       preemption_step cfg env s))))"

text \<open>Any exception of a round ends the loop.\<close>

definition daemon_round :: "agent_config \<Rightarrow> daemon_env \<Rightarrow> daemon \<Rightarrow> daemon" where
  "daemon_round cfg env d =
     (if \<not> dm_looping d then d
      else case daemon_body cfg env d of
             (Inl _, d1) \<Rightarrow> d1\<lparr>dm_looping := False\<rparr>
           | (Inr _, d1) \<Rightarrow> d1)"

subsection \<open>The detector counts a run of busy snapshots\<close>

text \<open>
  A spike needs a run of busy snapshots: after any snapshots the detector names a spike exactly
  when the run of snapshots at or above the threshold that ends with the present one is as long
  as the number of consecutive triggers.
\<close>

lemma spike_needs_a_run:
  assumes "d = fold (\<lambda>s d. snd (check_preemption s d)) ss (new_detector threshold)"
  shows "CpuSpike (cpu_utilization s) \<in> set (fst (check_preemption s d)) \<longleftrightarrow>
      consecutive_triggers d \<le> int (length (takeWhile (\<lambda>s. threshold \<le> cpu_utilization s) (s # rev ss)))"
proof -
  have "high_cpu_streak d = int (length (takeWhile (\<lambda>s. threshold \<le> cpu_utilization s) (rev ss)))
      \<and> cpu_threshold d = threshold \<and> consecutive_triggers d = 2"
    unfolding assms by (induction ss rule: rev_induct)
      (simp_all add: new_detector_def check_preemption_def Let_def)
  then show ?thesis
    by (auto simp: check_preemption_def Let_def)
qed

subsection \<open>Heartbeats are sent in time\<close>

lemma step_frames:
  "dm_last_heartbeat (snd (report_step cfg env s d)) = dm_last_heartbeat d"
  "dm_last_heartbeat (snd (on_worker f d)) = dm_last_heartbeat d"
  "dm_last_heartbeat (snd (preemption_step cfg env s d)) = dm_last_heartbeat d"
  "dm_looping (snd (report_step cfg env s d)) = dm_looping d"
  "dm_looping (snd (on_worker f d)) = dm_looping d"
  "dm_looping (snd (preemption_step cfg env s d)) = dm_looping d"
  "dm_looping (snd (heartbeat_step cfg env d)) = dm_looping d"
  by (auto simp: report_step_def on_worker_def preemption_step_def heartbeat_step_def sbind_def
      call_driver_def Let_def split: option.split prod.split sum.split)

lemma heartbeat_step_time:
  assumes "heartbeat_step cfg env d = (Inr x, d')" and "0 < cfg_heartbeat_interval cfg"
  shows "de_now env - dm_last_heartbeat d' < cfg_heartbeat_interval cfg"
  using assms by (auto simp: heartbeat_step_def elim!: sbind_InrE split: if_splits)

lemma daemon_body_time:
  assumes "daemon_body cfg env d = (Inr x, d')" and "0 < cfg_heartbeat_interval cfg"
  shows "de_now env - dm_last_heartbeat d' < cfg_heartbeat_interval cfg"
proof -
  obtain s d1 d2 d3 where steps: "report_step cfg env s d = (Inr (), d1)"
    "heartbeat_step cfg env d1 = (Inr (), d2)"
    "on_worker (update_snapshot (de_loads env) s (de_libraries env) (de_active env)) d2 = (Inr (), d3)"
    "preemption_step cfg env s d3 = (Inr x, d')"
    using assms(1) by (auto simp: daemon_body_def elim!: sbind_InrE)
  have "dm_last_heartbeat d' = dm_last_heartbeat d2"
    using steps(3,4) step_frames(2,3) by (metis snd_conv)
  then show ?thesis
    using heartbeat_step_time [OF steps(2) assms(2)] by simp
qed


subsection \<open>One failed call silences the agent\<close>

lemma not_looping: "\<not> dm_looping d \<Longrightarrow> fold (daemon_round cfg) envs d = d"
  by (induction envs) (simp_all add: daemon_round_def)

lemma heartbeat_failure:
  assumes "dm_looping d" and "de_snapshot env = Inr s"
    and "cfg_heartbeat_interval cfg \<le> de_now env - dm_last_heartbeat d"
    and "de_reply env SendHeartbeat = Inl e"
  shows "\<not> dm_looping (daemon_round cfg env d)
    \<and> dm_last_heartbeat (daemon_round cfg env d) = dm_last_heartbeat d"
proof -
  obtain res d1 where rep: "report_step cfg env s d = (res, d1)" by fastforce
  have d1: "dm_last_heartbeat d1 = dm_last_heartbeat d"
    using step_frames(1) [of cfg env s d] rep by simp
  have "heartbeat_step cfg env d1 = (Inl e, d1\<lparr>dm_calls := dm_calls d1 @ [(de_now env, SendHeartbeat)]\<rparr>)"
    using assms(3,4) by (simp add: heartbeat_step_def sbind_def call_driver_def d1)
  then show ?thesis
    using assms(1,2) rep d1
    by (cases res) (simp_all add: daemon_round_def daemon_body_def sbind_def)
qed


end
