(* ===== verification/AgentWitnesses.thy ===== *)
theory AgentWitnesses
  imports JobWitnesses HA Daemon
begin

section \<open>Concrete states of the driver, its coordinator and an agent\<close>

text \<open>
  The states at which the properties of the driver service, the coordinator, the agent and the
  daemon are instantiated.
\<close>

definition sample_driver :: driver where
  "sample_driver = \<lparr>dr_manager = one_job J_RUNNING, dr_attached = True, dr_bus = new_bus 10\<rparr>"

definition sample_driver_env :: "real \<Rightarrow> driver_env" where
  "sample_driver_env now = \<lparr>d_env = sample_env now, d_event_id = ''e'', d_timestamp = ''ts''\<rparr>"

definition sample_register :: register_request where
  "sample_register =
     \<lparr>rq_node_id = ''c'', rq_hostname = ''c'', rq_agent_address = ''host-c'', rq_os_name = ''linux'',
      rq_location = [], rq_preemptible = False, rq_resources = resource_msg ''c'' flat_laptop,
      rq_libraries = []\<rparr>"

lemma sample_config_ok: "config_ok (dr_manager sample_driver)"
  by (simp add: sample_driver_def manager_defs config_ok_def Let_def)

lemma registered_is_live_witness:
  "\<exists>d' :: driver. registered_node sample_register \<in> set (fst (live_nodes 2 (dr_manager d')))"
proof -
  obtain res d' where r: "RegisterNode (sample_driver_env 1) sample_register sample_driver = (res, d')"
    by fastforce
  have "2 - e_now (d_env (sample_driver_env 1)) < time_to_suspected (dr_manager sample_driver)"
    by (simp add: sample_driver_env_def sample_env_def sample_driver_def manager_defs
        time_to_suspected_def Let_def)
  from registered_is_live [OF sample_config_ok r this] show ?thesis by blast
qed

subsection \<open>The coordinator\<close>

definition sample_ha :: ha where
  "sample_ha = new_ha (new_manager 2 None None) one_row (sample_drivers ''a'')"


lemma failover_restores_jobs_witness:
  "has_job ((new_job ''j'' ''work'' None)\<lparr>job_state := J_RUNNING, task_ids := [''t'']\<rparr>)
     (ha_manager (snd (ha_round (sample_env 1) sample_ha)))"
proof -
  let ?j = "(new_job ''j'' ''work'' None)\<lparr>job_state := J_RUNNING, task_ids := [''t'']\<rparr>"
  have "remote_agents (ha_manager sample_ha) = []" "state_store (ha_manager sample_ha) = Some one_row"
    "\<not> is_leader (ha_election sample_ha)" "sql_list_jobs one_row = Inr [?j]"
    "is_leader (ha_election (snd (ha_round (sample_env 1) sample_ha)))"
    by code_simp+
  then show ?thesis
    using failover_restores_jobs [of sample_ha one_row "[?j]" "sample_env 1" ?j] by simp
qed

subsection \<open>The agent\<close>

text \<open>A body that raises an error without a text.\<close>

definition failing_fn :: task_callable where
  "failing_fn = \<lparr>fn_params = Some [(''ctx'', None)], fn_body = Raise TypeError, fn_plain = Inl TypeError\<rparr>"

lemma silent_failure_completes_witness:
  "\<exists>q d'. fst (snd (run_thread (\<lambda>_. 0) (\<lambda>_. [])
         (deref (one_job J_RUNNING) 0, failing_fn) new_agent)) = Some q
     \<and> TaskComplete (sample_driver_env 1) q sample_driver = (Inr (Ack True []), d')
     \<and> job_state (job_at (dr_manager d') 0) = J_COMPLETED"
proof -
  let ?spec = "deref (one_job J_RUNNING) 0"
  let ?c = "thread_ctx ?spec new_agent"
  have run: "run_assigned (\<lambda>_. 0) failing_fn ?c = ([], Raised TypeError, ?c)"
    by (simp add: run_assigned_def failing_fn_def accepts_context_def)
  have id: "task_id (ctx_spec ?c) = ''t''"
    by code_simp
  have "dr_attached sample_driver" "dict_get (tasks (dr_manager sample_driver)) (task_id (ctx_spec ?c)) = Some 0"
    "find_job_for_task (dr_manager sample_driver) 0 = Some 0" "0 < length (job_heap (dr_manager sample_driver))"
    "length (specs_of (job_id (job_at (dr_manager sample_driver) 0)) (dr_manager sample_driver)) \<le> 1"
    unfolding id by code_simp+
  from silent_failure_completes [OF run HOL.refl this] show ?thesis by blast
qed

definition sample_progress :: progress_report where
  "sample_progress = \<lparr>pr_task_id = ''t'', pr_progress = 1 / 2, pr_state = Some [(''k'', PInt 1)]\<rparr>"

lemma migration_resumes_witness:
  "\<exists>(d' :: driver) (s' :: agent). ctx_progress (thread_ctx (assigned_spec (assignment_for (dr_manager d') 0)) s') = 1 / 2
     \<and> ctx_state (thread_ctx (assigned_spec (assignment_for (dr_manager d') 0)) s') = [(''k'', PInt 1)]"
proof -
  let ?d = "snd (TaskProgress (sample_driver_env 1) sample_progress sample_driver)"
  let ?a = "assignment_for (dr_manager ?d) 0"
  have tp: "TaskProgress (sample_driver_env 1) sample_progress sample_driver
      = (fst (TaskProgress (sample_driver_env 1) sample_progress sample_driver), ?d)"
    by simp
  have known: "dict_get (tasks (dr_manager sample_driver)) (pr_task_id sample_progress) = Some 0"
    "0 < length (task_heap (dr_manager sample_driver))"
    by code_simp+
  have name: "as_task_name ?a = ''work''"
    by code_simp
  obtain s' where "assign [(''work'', failing_fn)] ?a new_agent = (Inr True, s')"
    by (simp add: assign_def name new_agent_def Let_def)
  from migration_resumes [OF known tp this] show ?thesis
    by (auto simp: sample_progress_def)
qed

lemma counter_counts_witness:
  "\<exists>reports c'. run_tracked (\<lambda>_. 0) (counter 3) (new_ctx ((new_task_spec ''c'' ''t'')\<lparr>total_work := 3\<rparr>) [])
       = (reports, Returned (PDict [(''count'', PInt 3)]), c')
     \<and> map pr_progress reports = [1, 2, 3]"
  using counter_counts [of "new_ctx ((new_task_spec ''c'' ''t'')\<lparr>total_work := 3\<rparr>) []" 3 0 "\<lambda>_. 0"]
  by (auto simp: new_ctx_def new_task_spec_def upto.simps)

subsection \<open>The daemon\<close>

definition sample_cfg :: agent_config where
  "sample_cfg = \<lparr>cfg_node_id = ''a'', cfg_driver_address = ''d:50050'',
     cfg_agent_address = ''a:50051'', cfg_location = ''lab'', cfg_preemptible = True, cfg_heartbeat_interval = 2,
     cfg_resource_interval = 1, cfg_cpu_threshold = 85 / 100\<rparr>"

definition sample_daemon_env :: "real \<Rightarrow> (daemon_call \<Rightarrow> string result) \<Rightarrow> daemon_env" where
  "sample_daemon_env now reply =
     \<lparr>de_now = now, de_time = now, de_snapshot = Inr flat_laptop, de_libraries = 0, de_active = 0,
      de_loads = (\<lambda>_. Inl ValueError), de_reply = reply\<rparr>"

lemmas daemon_defs =
  daemon_round_def daemon_body_def report_step_def heartbeat_step_def preemption_step_def
  on_worker_def call_driver_def check_preemption_def new_daemon_def new_detector_def
  sample_cfg_def sample_daemon_env_def flat_laptop_def sample_node_def sbind_def



end
