(* ===== verification/DriverOps.thy ===== *)
theory DriverOps
  imports DriverService JobProps
begin

section \<open>Requests to a driver\<close>

text \<open>
  What reaches a driver, as steps: operations of its manager, calls of agents and rounds of the
  health loop.  The locale states when a predicate on the manager is closed under what these steps
  are made of, and its lemmas that every step keeps it.
\<close>

datatype driver_op =
    Manager jm_op
  | Register driver_env register_request
  | Beat driver_env string
  | Resources resource_report
  | Warning driver_env string string
  | Progress driver_env progress_report
  | Complete driver_env complete_report
  | Health "driver_env list"

fun run_driver :: "driver_op \<Rightarrow> driver \<Rightarrow> driver" where
  "run_driver (Manager p) d = d\<lparr>dr_manager := run_jm p (dr_manager d)\<rparr>"
| "run_driver (Register env q) d = snd (RegisterNode env q d)"
| "run_driver (Beat env nid) d = snd (HeartbeatRpc env nid d)"
| "run_driver (Resources m) d = snd (ReportResources m d)"
| "run_driver (Warning env nid reason) d = snd (PreemptionWarning env nid reason d)"
| "run_driver (Progress env q) d = snd (TaskProgress env q d)"
| "run_driver (Complete env q) d = snd (TaskComplete env q d)"
| "run_driver (Health envs) d = snd (health_loop envs d)"

text \<open>The operations that sleep let other threads run, which must be as they are supposed to be.\<close>

fun jm_sleeps :: "(jm_env \<Rightarrow> bool) \<Rightarrow> jm_op \<Rightarrow> bool" where
  "jm_sleeps ok (Preemption env nid) = ok env"
| "jm_sleeps ok (NodeDeath env nid) = ok env"
| "jm_sleeps ok _ = True"

fun driver_sleeps :: "(jm_env \<Rightarrow> bool) \<Rightarrow> driver_op \<Rightarrow> bool" where
  "driver_sleeps ok (Manager p) = jm_sleeps ok p"
| "driver_sleeps ok (Beat env nid) = ok (d_env env)"
| "driver_sleeps ok (Warning env nid reason) = ok (d_env env)"
| "driver_sleeps ok (Health envs) = (\<forall>env \<in> set envs. ok (d_env env))"
| "driver_sleeps ok _ = True"

locale jm_frame_driver = jm_frame_all +
  fixes env_ok :: "jm_env \<Rightarrow> bool"
  assumes P_beats: "P R J s \<Longrightarrow> P R J (s\<lparr>last_heartbeat := b\<rparr>)"
    and P_others: "env_ok env \<Longrightarrow> P R J s \<Longrightarrow> P R J (e_others env s)"

sublocale jm_frame_driver \<subseteq> health: tracker_frame "P R J" for R J
  by unfold_locales (auto intro: P_beats P_states P_dead)

context jm_frame_driver
begin

lemma run_jm_P: "P R J s \<Longrightarrow> jm_sleeps env_ok p \<Longrightarrow> P R J (run_jm p s)"
  by (cases p)
    (simp_all add: handle_node_death_def submit_job_P submit_remote_P submit_notebook_P cancel_job_P
      handle_preemption_P node_death_P run_local_P on_task_complete_P on_task_failed_P
      check_speculation_P run_rebalance_P resume_from_store_P P_others)

lemma changed_P:
  assumes "env_ok env" and "P R J s"
  shows "P R J (snd (on_state_change (death_callback env) now nid old new s))"
proof -
  have "P R J (snd (handle_node_death env nid s))" if "P R J s" for s
    using run_jm_P [OF that, of "NodeDeath env nid"] assms(1) by simp
  then show ?thesis
    using P_changes [OF assms(2)] by (simp add: on_state_change_def death_callback_def Let_def)
qed

lemma heartbeat_P:
  "env_ok env \<Longrightarrow> P R J s \<Longrightarrow> P R J (snd (record_heartbeat (death_callback env) now nid s))"
  unfolding record_heartbeat_def by (rule health.registry_heartbeat_P) (auto intro: changed_P)

lemma evaluate_health_P:
  "env_ok env \<Longrightarrow> P R J s \<Longrightarrow> P R J (snd (evaluate_health (death_callback env) now s))"
  unfolding evaluate_health_def by (rule health.evaluate_all_P) (auto intro: changed_P)

lemma register_P: "P R J s \<Longrightarrow> P R J (register_node now n a s)"
proof -
  assume s: "P R J s"
  have "P R J (tracker_register now (node_id n) (s\<lparr>nodes := ns\<rparr>))" for ns
    using P_dead [OF P_states [OF P_beats [OF P_nodes [OF s]]]] by (simp add: tracker_register_def)
  then show ?thesis
    by (auto simp: register_node_def Let_def split: option.split intro: P_agents)
qed

lemma nodes_P:
  "P R J s \<Longrightarrow> P R J (update_node_resources nid res m s)"
  "P R J s \<Longrightarrow> P R J (update_node_state nid st s)"
  by (auto simp: update_node_resources_def update_node_state_def Let_def split: option.split intro: P_nodes)

lemma outcome_P: "P R J s \<Longrightarrow> P R J (snd (report_outcome env q r s))"
  by (simp add: report_outcome_def on_task_complete_P on_task_failed_P split: option.split)

lemma progress_P: "P R J s \<Longrightarrow> P R J (store_progress now q r s)"
  by (simp add: store_progress_def Let_def P_checkpoints P_task)

text \<open>A call of the manager from a handler.\<close>

lemma on_manager_P:
  "P R J (dr_manager d) \<Longrightarrow> (\<And>s. P R J s \<Longrightarrow> P R J (snd (m s))) \<Longrightarrow> P R J (dr_manager (snd (on_manager m d)))"
  by (simp add: on_manager_def case_prod_beta)

lemmas handler_P = sbind_keeps [where P = "\<lambda>d. P R J (dr_manager d)" for R J]

lemma health_loop_P:
  "P R J (dr_manager d) \<Longrightarrow> \<forall>env \<in> set envs. env_ok (d_env env) \<Longrightarrow>
     P R J (dr_manager (snd (health_loop envs d)))"
proof (induction envs arbitrary: d)
  case (Cons env envs)
  then show ?case
    unfolding health_loop.simps by (intro handler_P on_manager_P) (simp_all add: evaluate_health_P)
qed simp

lemma preemption_P:
  "P R J s \<Longrightarrow> env_ok env \<Longrightarrow> P R J (snd (handle_preemption env nid s))"
  using run_jm_P [of R J s "Preemption env nid"] by simp

lemma run_driver_P:
  assumes ok: "P R J (dr_manager d)" and env: "driver_sleeps env_ok p"
  shows "P R J (dr_manager (run_driver p d))"
proof (cases p)
  case (Manager q)
  then show ?thesis
    using ok env by (simp add: run_jm_P)
next
  case (Register env q)
  then show ?thesis
    using ok by (simp add: RegisterNode_def sbind_def register_P)
next
  case (Beat env nid)
  then show ?thesis
    using assms unfolding Beat HeartbeatRpc_def run_driver.simps
    by (intro handler_P on_manager_P) (simp_all add: heartbeat_P)
next
  case (Resources m)
  then show ?thesis
    using ok by (simp add: ReportResources_def sbind_def nodes_P)
next
  case (Warning env nid reason)
  then show ?thesis
    using assms unfolding Warning PreemptionWarning_def run_driver.simps
    by (intro handler_P) (auto simp: nodes_P preemption_P intro!: on_manager_P)
next
  case (Progress env q)
  then show ?thesis
    using ok by (simp add: TaskProgress_def sbind_def progress_P split: option.split)
next
  case (Complete env q)
  then show ?thesis
    using ok unfolding Complete TaskComplete_def run_driver.simps
    by (auto simp: P_task outcome_P split: option.split intro!: handler_P on_manager_P)
next
  case (Health envs)
  then show ?thesis
    using assms by (simp add: health_loop_P)
qed

end

end
