(* ===== verification/JobRefs.thy ===== *)
theory JobRefs
  imports AgentWitnesses DriverOps
begin

section \<open>References of a driver never dangle\<close>

text \<open>
  The tables of the job manager refer to task and job objects.  A state is well formed when every
  reference is one to an object that exists, the tables are keyed by the identifiers of their
  objects, and the keys of idempotent submissions name known jobs.  The predicate is closed under
  the elementary updates, so that every operation of the manager keeps it, and so does every
  request and every round of the health loop of a driver.
\<close>

subsection \<open>Well-formed managers\<close>

definition task_ref :: "job_manager \<Rightarrow> ref \<Rightarrow> bool" where
  "task_ref s r \<longleftrightarrow> r < length (task_heap s)"

definition job_ref :: "job_manager \<Rightarrow> ref \<Rightarrow> bool" where
  "job_ref s jr \<longleftrightarrow> jr < length (job_heap s)"

definition refs_ok :: "job_manager \<Rightarrow> bool" where
  "refs_ok s \<longleftrightarrow>
     (\<forall>(k, r) \<in> set (tasks s). task_ref s r \<and> task_id (deref s r) = k)
     \<and> (\<forall>(jid, rs) \<in> set (job_tasks s). \<forall>r \<in> set rs. task_ref s r)
     \<and> (\<forall>(jid, jr) \<in> set (jobs s). job_ref s jr \<and> job_id (job_at s jr) = jid)
     \<and> (\<forall>(k, jid) \<in> set (idempotency s). jid \<in> set (dict_keys (jobs s)))
     \<and> (\<forall>(k, x) \<in> set (running s).
          task_ref s (run_spec x) \<and> task_id (deref s (run_spec x)) = k \<and> job_ref s (run_job x))
     \<and> (\<forall>r \<in> set (thread_log s). task_ref s r)"

definition valid :: "ref set \<Rightarrow> ref set \<Rightarrow> job_manager \<Rightarrow> bool" where
  "valid R J s \<longleftrightarrow> refs_ok s \<and> (\<forall>r \<in> R. task_ref s r) \<and> (\<forall>jr \<in> J. job_ref s jr)"

lemma set_dict_set: "x \<in> set (dict_set k v d) \<Longrightarrow> x = (k, v) \<or> x \<in> set d"
  by (induction d) (auto split: if_splits)

lemma set_dict_pop: "x \<in> set (dict_pop k d) \<Longrightarrow> x \<in> set d"
  by (induction d) (auto split: if_splits)

lemma keys_mono: "x \<in> set (dict_keys d) \<Longrightarrow> x \<in> set (dict_keys (dict_set k v d))"
  by (simp only: dict_keys_set insert_iff) simp

text \<open>
  Tables may lose entries and gain ones that are in order; objects may be replaced by ones of the
  same identifier, and new ones added.
\<close>

lemma valid_step:
  assumes ok: "valid R J s"
    and task: "\<And>r. task_ref s r \<Longrightarrow> task_ref s' r \<and> task_id (deref s' r) = task_id (deref s r)"
    and job: "\<And>jr. job_ref s jr \<Longrightarrow> job_ref s' jr \<and> job_id (job_at s' jr) = job_id (job_at s jr)"
    and "\<And>x. x \<in> set (tasks s') \<Longrightarrow> x \<in> set (tasks s) \<or> task_ref s' (snd x) \<and> task_id (deref s' (snd x)) = fst x"
    and "\<And>x r. x \<in> set (job_tasks s') \<Longrightarrow> r \<in> set (snd x) \<Longrightarrow> x \<in> set (job_tasks s) \<or> task_ref s' r"
    and "\<And>x. x \<in> set (jobs s') \<Longrightarrow> x \<in> set (jobs s) \<or> job_ref s' (snd x) \<and> job_id (job_at s' (snd x)) = fst x"
    and "\<And>k. k \<in> set (dict_keys (jobs s)) \<Longrightarrow> k \<in> set (dict_keys (jobs s'))"
    and "\<And>x. x \<in> set (idempotency s') \<Longrightarrow> x \<in> set (idempotency s) \<or> snd x \<in> set (dict_keys (jobs s'))"
    and "\<And>x. x \<in> set (running s') \<Longrightarrow> x \<in> set (running s) \<or>
      task_ref s' (run_spec (snd x)) \<and> task_id (deref s' (run_spec (snd x))) = fst x \<and> job_ref s' (run_job (snd x))"
    and "\<And>r. r \<in> set (thread_log s') \<Longrightarrow> r \<in> set (thread_log s) \<or> task_ref s' r"
    and "\<And>r. r \<in> R' \<Longrightarrow> r \<in> R \<or> task_ref s' r" and "\<And>jr. jr \<in> J' \<Longrightarrow> jr \<in> J \<or> job_ref s' jr"
  shows "valid R' J' s'"
proof -
  have t: "task_ref s (snd x) \<and> task_id (deref s (snd x)) = fst x" if "x \<in> set (tasks s)" for x
    using ok that unfolding valid_def refs_ok_def case_prod_beta by blast
  have jt: "task_ref s r" if "x \<in> set (job_tasks s)" "r \<in> set (snd x)" for x r
    using ok that unfolding valid_def refs_ok_def case_prod_beta by blast
  have j: "job_ref s (snd x) \<and> job_id (job_at s (snd x)) = fst x" if "x \<in> set (jobs s)" for x
    using ok that unfolding valid_def refs_ok_def case_prod_beta by blast
  have i: "snd x \<in> set (dict_keys (jobs s))" if "x \<in> set (idempotency s)" for x
    using ok that unfolding valid_def refs_ok_def case_prod_beta by blast
  have rn: "task_ref s (run_spec (snd x)) \<and> task_id (deref s (run_spec (snd x))) = fst x
      \<and> job_ref s (run_job (snd x))" if "x \<in> set (running s)" for x
    using ok that unfolding valid_def refs_ok_def case_prod_beta by blast
  have tl: "task_ref s r" if "r \<in> set (thread_log s)" for r
    using ok that by (simp add: valid_def refs_ok_def)
  have RJ: "\<And>r. r \<in> R \<Longrightarrow> task_ref s r" "\<And>jr. jr \<in> J \<Longrightarrow> job_ref s jr"
    using ok by (simp_all add: valid_def)
  have "task_ref s' (snd x) \<and> task_id (deref s' (snd x)) = fst x" if "x \<in> set (tasks s')" for x
    using t task assms(4) that by metis
  moreover have "task_ref s' r" if "x \<in> set (job_tasks s')" "r \<in> set (snd x)" for x r
    using jt task assms(5) that by metis
  moreover have "job_ref s' (snd x) \<and> job_id (job_at s' (snd x)) = fst x" if "x \<in> set (jobs s')" for x
    using j job assms(6) that by metis
  moreover have "snd x \<in> set (dict_keys (jobs s'))" if "x \<in> set (idempotency s')" for x
    using i assms(7,8) that by metis
  moreover have "task_ref s' (run_spec (snd x)) \<and> task_id (deref s' (run_spec (snd x))) = fst x
      \<and> job_ref s' (run_job (snd x))" if "x \<in> set (running s')" for x
    using rn task job assms(9) that by metis
  moreover have "task_ref s' r" if "r \<in> set (thread_log s')" for r
    using tl task assms(10) that by metis
  moreover have "\<forall>r \<in> R'. task_ref s' r" "\<forall>jr \<in> J'. job_ref s' jr"
    using RJ task job assms(11,12) by metis+
  ultimately show ?thesis
    unfolding valid_def refs_ok_def case_prod_beta by (intro conjI ballI) simp_all
qed

lemma valid_cong:
  assumes "valid R J s" and "task_heap s' = task_heap s" and "tasks s' = tasks s"
    and "job_tasks s' = job_tasks s" and "jobs s' = jobs s" and "job_heap s' = job_heap s"
    and "idempotency s' = idempotency s" and "running s' = running s" and "thread_log s' = thread_log s"
  shows "valid R J s'"
  using assms by (simp add: valid_def refs_ok_def task_ref_def job_ref_def deref_def job_at_def)

lemmas ref_defs = task_ref_def job_ref_def deref_def job_at_def

lemma valid_mono: "valid R J s \<Longrightarrow> R' \<subseteq> R \<Longrightarrow> J' \<subseteq> J \<Longrightarrow> valid R' J' s"
  by (auto simp: valid_def)

lemma valid_tasks_listed: "valid R J s \<Longrightarrow> valid (R \<union> set (dict_values (tasks s))) J s"
  unfolding valid_def refs_ok_def case_prod_beta by auto

lemma valid_job_listed: "valid R J s \<Longrightarrow> dict_get (jobs s) k = Some jr \<Longrightarrow> valid R (insert jr J) s"
  unfolding valid_def refs_ok_def case_prod_beta using map_of_SomeD by fastforce

lemma nth_update: "i < length xs \<Longrightarrow> xs[j := x] ! i = (if i = j then x else xs ! i)"
  by simp

lemma valid_update_task:
  "valid R J s \<Longrightarrow> task_id (f (deref s r)) = task_id (deref s r) \<Longrightarrow> valid R J (update_task r f s)"
  by (erule valid_step) (auto simp: ref_defs update_task_def nth_update)

lemma valid_update_job:
  "valid R J s \<Longrightarrow> job_id (g (job_at s jr)) = job_id (job_at s jr) \<Longrightarrow> valid R J (update_job jr g s)"
  by (erule valid_step) (auto simp: ref_defs update_job_def nth_update)

lemma valid_run:
  assumes "valid R J s" and "r \<in> R" and "jr \<in> J"
  shows "valid R J (s\<lparr>running := dict_set (task_id (deref s r))
    \<lparr>run_spec = r, run_job = jr, run_remote = b\<rparr> (running s)\<rparr>)"
proof -
  have "task_ref s r" "job_ref s jr"
    using assms by (simp_all add: valid_def)
  then show ?thesis
    by (intro valid_step [OF assms(1)]) (auto simp: ref_defs dest!: set_dict_set)
qed

interpretation refs: jm_frame_all valid
proof unfold_locales
  show "valid R J (s\<lparr>thread_log := thread_log s @ [r]\<rparr>)" if "valid R J s" "r \<in> R" for R J s r
    using that by (intro valid_step [OF that(1)]) (auto simp: ref_defs valid_def)
  show "valid R J (s\<lparr>running := dict_pop k (running s)\<rparr>)" if "valid R J s" for R J s k
    by (rule valid_step [OF that]) (auto simp: ref_defs dest: set_dict_pop)
  show "valid (R \<union> {length (task_heap s)..<length (task_heap s) + length ts}) J
      (s\<lparr>task_heap := task_heap s @ ts\<rparr>)" if "valid R J s" for R J s ts
    by (rule valid_step [OF that]) (auto simp: ref_defs nth_append)
  show "valid R J (s\<lparr>tasks := dict_set (task_id (deref s r)) r (tasks s)\<rparr>)"
    if "valid R J s" "r \<in> R" for R J s r
    using that by (intro valid_step [OF that(1)]) (auto simp: ref_defs valid_def dest!: set_dict_set)
  show "valid R J (s\<lparr>job_tasks := dict_set jid rs (job_tasks s)\<rparr>)"
    if "valid R J s" "set rs \<subseteq> R" for R J s rs jid
    using that by (intro valid_step [OF that(1)]) (auto simp: ref_defs valid_def dest!: set_dict_set)
  show "valid R (insert (length (job_heap s)) J) (s\<lparr>job_heap := job_heap s @ [j]\<rparr>)"
    if "valid R J s" for R J s j
    by (rule valid_step [OF that]) (auto simp: ref_defs nth_append)
  show "valid R J (s\<lparr>jobs := dict_set (job_id (job_at s jr)) jr (jobs s)\<rparr>)"
    if "valid R J s" "jr \<in> J" for R J s jr
    using that by (intro valid_step [OF that(1)])
      (auto simp: ref_defs valid_def dict_keys_set simp del: set_map dest!: set_dict_set)
  show "valid R J (s\<lparr>idempotency := dict_set k jid (idempotency s)\<rparr>)"
    if "valid R J s" "dict_get (jobs s) jid \<noteq> None" for R J s k jid
    using that by (intro valid_step [OF that(1)])
      (auto simp: ref_defs map_of_eq_None_iff dest!: set_dict_set intro: rev_image_eqI)
  show "valid R J (write_store h s)" if "valid R J s" for R J h s
    using that by (auto simp: write_store_def split: option.split elim!: valid_cong)
qed (erule valid_mono valid_tasks_listed valid_job_listed valid_update_task valid_update_job valid_run
      | assumption | erule valid_cong; simp)+

subsection \<open>Requests\<close>

text \<open>What other threads do while an operation sleeps has to keep the references too.\<close>

definition others_keep :: "jm_env \<Rightarrow> bool" where
  "others_keep env \<longleftrightarrow> (\<forall>R J s. valid R J s \<longrightarrow> valid R J (e_others env s))"

definition driver_op_refs :: "driver_op \<Rightarrow> driver \<Rightarrow> bool" where
  "driver_op_refs p d = driver_sleeps others_keep p"

interpretation refs_driver: jm_frame_driver valid others_keep
  by unfold_locales ((erule valid_cong; simp; fail) | simp add: others_keep_def)+

lemma refs_ok_valid: "refs_ok s = valid {} {} s"
  by (simp add: valid_def)

interpretation driver_ops: stateful run_driver driver_op_refs "\<lambda>d. refs_ok (dr_manager d)"
  by unfold_locales (simp add: refs_ok_valid driver_op_refs_def refs_driver.run_driver_P)

text \<open>
  C8: References of a driver never dangle: whatever requests a new driver has served, whatever
  jobs it has submitted, resumed, moved, finished or lost, and whatever rounds its health loop has
  made, every reference in its tables is one to an object that exists, its tasks, jobs and running
  tasks are listed under their own identifiers, and every key of a submission names a known job.
\<close>

theorem references_valid:
  assumes "dr_manager d = new_manager interval store leader"
    and "legal_run run_driver driver_op_refs ps d"
  shows "refs_ok (dr_manager (fold run_driver ps d))"
proof -
  have "refs_ok (new_manager interval store leader)"
    by (simp add: refs_ok_def manager_defs)
  then show ?thesis
    using driver_ops.run_all_ok assms by simp
qed

text \<open>An agent registers, a job is submitted and sent to it, and its node dies.\<close>

definition fresh_driver :: driver where
  "fresh_driver = \<lparr>dr_manager = new_manager 2 None None, dr_attached = True, dr_bus = new_bus 10\<rparr>"

definition sample_requests :: "driver_op list" where
  "sample_requests =
     [Register (sample_driver_env 1) sample_register,
      Manager (Submit (sample_env 1) sample_mesh_task (Some ''key'') ''j'' ''t'' []),
      Manager (NodeDeath (sample_env 2) ''c'')]"

lemma references_valid_witness:
  "map fst (running (dr_manager (fold run_driver sample_requests fresh_driver))) = [''t'']
   \<and> refs_ok (dr_manager (fold run_driver sample_requests fresh_driver))"
proof -
  have "map fst (running (dr_manager (fold run_driver sample_requests fresh_driver))) = [''t'']"
    by code_simp
  moreover have "legal_run run_driver driver_op_refs sample_requests fresh_driver"
    by (simp add: sample_requests_def driver_op_refs_def others_keep_def sample_env_def sample_driver_env_def)
  moreover have "dr_manager fresh_driver = new_manager 2 None None"
    by (simp add: fresh_driver_def)
  ultimately show ?thesis
    using references_valid by blast
qed

end
