(* ===== verification/PostgresStore.thy ===== *)
theory PostgresStore
  imports Election "HOL-Library.Multiset"
begin

section \<open>The PostgreSQL store (mesh/state/postgres_store.py)\<close>

text \<open>
  The store over a database server, which is a parameter: a function that executes one of the
  statements the code sends and may raise.  The locale \<open>pg_server\<close> states what the code relies
  on of the server.  The lock of the store orders the statements of one process only, so between
  the two statements of a request for the lease other processes may act; what they do is the
  argument \<open>others\<close>.
\<close>

subsection \<open>Statements and operations\<close>

datatype pg_table = PG_JOBS | PG_TASKS | PG_CHECKPOINTS | PG_NODES

datatype pg_statement =
    CreateTables
  | Upsert pg_table string "string option" "pyval dict"
  | SelectData pg_table string
  | SelectAllData pg_table
  | SelectLeader
  | InsertLeader string int real
  | UpdateLeader string int real
  | UpdateExpiry real

datatype pg_row = DataRow "pyval dict" | LeaderRow string int real

type_synonym 'db pg_exec = "pg_statement \<Rightarrow> ('db, pg_row list) py"

fun row_data :: "pg_row \<Rightarrow> pyval dict result" where
  "row_data (DataRow d) = Inr d"
| "row_data (LeaderRow _ _ _) = Inl TypeError"

definition pg_init_schema :: "'db pg_exec \<Rightarrow> ('db, unit) py" where
  "pg_init_schema exec = sbind (exec CreateTables) (\<lambda>_. sret ())"

definition pg_load :: "'db pg_exec \<Rightarrow> pg_table \<Rightarrow> (pyval dict \<Rightarrow> 'v result) \<Rightarrow> string \<Rightarrow> ('db, 'v option) py" where
  "pg_load exec tab from_doc k =
     sbind (exec (SelectData tab k)) (\<lambda>rows.
       case rows of
         [] \<Rightarrow> sret None
       | r # _ \<Rightarrow> slift (ebind (row_data r) (\<lambda>d. ebind (from_doc d) (\<lambda>v. Inr (Some v)))))"

definition pg_list :: "'db pg_exec \<Rightarrow> pg_table \<Rightarrow> (pyval dict \<Rightarrow> 'v result) \<Rightarrow> ('db, 'v list) py" where
  "pg_list exec tab from_doc =
     sbind (exec (SelectAllData tab)) (\<lambda>rows.
       slift (map_result (\<lambda>r. ebind (row_data r) from_doc) rows))"

definition pg_save_job :: "'db pg_exec \<Rightarrow> job \<Rightarrow> ('db, unit) py" where
  "pg_save_job exec j =
     sbind (exec (Upsert PG_JOBS (job_id j) None (job_to_dict j))) (\<lambda>_. sret ())"

definition pg_load_job :: "'db pg_exec \<Rightarrow> string \<Rightarrow> ('db, job option) py" where
  "pg_load_job exec jid = pg_load exec PG_JOBS job_from_dict jid"

definition pg_list_jobs :: "'db pg_exec \<Rightarrow> ('db, job list) py" where
  "pg_list_jobs exec = pg_list exec PG_JOBS job_from_dict"

definition pg_save_task :: "'db pg_exec \<Rightarrow> task_spec \<Rightarrow> ('db, unit) py" where
  "pg_save_task exec t =
     sbind (exec (Upsert PG_TASKS (task_id t) (task_job_id t) (task_to_dict t))) (\<lambda>_. sret ())"

definition pg_load_task :: "'db pg_exec \<Rightarrow> string \<Rightarrow> ('db, task_spec option) py" where
  "pg_load_task exec tid = pg_load exec PG_TASKS task_from_dict tid"

definition pg_list_tasks :: "'db pg_exec \<Rightarrow> ('db, task_spec list) py" where
  "pg_list_tasks exec = pg_list exec PG_TASKS task_from_dict"

definition pg_save_checkpoint :: "'db pg_exec \<Rightarrow> checkpoint \<Rightarrow> ('db, unit) py" where
  "pg_save_checkpoint exec cp =
     sbind (exec (Upsert PG_CHECKPOINTS (cp_task_id cp) None (checkpoint_to_dict cp))) (\<lambda>_. sret ())"

definition pg_load_checkpoint :: "'db pg_exec \<Rightarrow> string \<Rightarrow> ('db, checkpoint option) py" where
  "pg_load_checkpoint exec tid = pg_load exec PG_CHECKPOINTS checkpoint_from_dict tid"

definition pg_save_node :: "'db pg_exec \<Rightarrow> node \<Rightarrow> ('db, unit) py" where
  "pg_save_node exec n =
     sbind (exec (Upsert PG_NODES (node_id n) None (node_to_dict n))) (\<lambda>_. sret ())"

definition pg_load_node :: "'db pg_exec \<Rightarrow> string \<Rightarrow> ('db, node option) py" where
  "pg_load_node exec nid = pg_load exec PG_NODES node_from_dict nid"

definition pg_list_nodes :: "'db pg_exec \<Rightarrow> ('db, node list) py" where
  "pg_list_nodes exec = pg_list exec PG_NODES node_from_dict"

definition pg_try_acquire ::
  "'db pg_exec \<Rightarrow> ('db \<Rightarrow> 'db) \<Rightarrow> real \<Rightarrow> string \<Rightarrow> int \<Rightarrow> real \<Rightarrow> ('db, bool) py" where
  "pg_try_acquire exec others now driver trm ttl =
     (let expires = now + ttl in
      sbind (exec SelectLeader) (\<lambda>rows.
        case rows of
          [] \<Rightarrow> sbind (smodify others) (\<lambda>_.
                sbind (exec (InsertLeader driver trm expires)) (\<lambda>_. sret True))
        | DataRow _ # _ \<Rightarrow> slift (Inl TypeError)
        | LeaderRow holder current_term expires_at # _ \<Rightarrow>
            if expires_at < now \<or> current_term < trm
            then sbind (smodify others) (\<lambda>_.
                 sbind (exec (UpdateLeader driver trm expires)) (\<lambda>_. sret True))
            else sret (holder = driver \<and> current_term \<le> trm)))"

definition pg_renew ::
  "'db pg_exec \<Rightarrow> ('db \<Rightarrow> 'db) \<Rightarrow> real \<Rightarrow> string \<Rightarrow> int \<Rightarrow> real \<Rightarrow> ('db, bool) py" where
  "pg_renew exec others now driver trm ttl =
     (let expires = now + ttl in
      sbind (exec SelectLeader) (\<lambda>rows.
        case rows of
          [] \<Rightarrow> sret False
        | DataRow _ # _ \<Rightarrow> slift (Inl TypeError)
        | LeaderRow holder current_term _ # _ \<Rightarrow>
            if holder \<noteq> driver \<or> current_term \<noteq> trm then sret False
            else sbind (smodify others) (\<lambda>_.
                 sbind (exec (UpdateExpiry expires)) (\<lambda>_. sret True))))"

definition pg_get_leader :: "'db pg_exec \<Rightarrow> real \<Rightarrow> ('db, (string \<times> int) option) py" where
  "pg_get_leader exec now =
     sbind (exec SelectLeader) (\<lambda>rows.
       case rows of
         LeaderRow holder trm expires_at # _ \<Rightarrow>
           sret (if now \<le> expires_at then Some (holder, trm) else None)
       | _ \<Rightarrow> sret None)"

text \<open>A request without interference as the lease store sees it: an exception is no grant.\<close>

definition quiet :: "bool result \<times> 'db \<Rightarrow> bool \<times> 'db" where
  "quiet x = (fst x = Inr True, snd x)"

definition pg_acquire_alone :: "'db pg_exec \<Rightarrow> 'db lease_call" where
  "pg_acquire_alone exec now d t ttl db = quiet (pg_try_acquire exec (\<lambda>db. db) now d t ttl db)"

definition pg_renew_alone :: "'db pg_exec \<Rightarrow> 'db lease_call" where
  "pg_renew_alone exec now d t ttl db = quiet (pg_renew exec (\<lambda>db. db) now d t ttl db)"

text \<open>The operations that change the store, by a driver that is not disturbed.\<close>

fun run_pg :: "'db pg_exec \<Rightarrow> store_op \<Rightarrow> 'db \<Rightarrow> 'db" where
  "run_pg exec (SaveJob j) db = snd (pg_save_job exec j db)"
| "run_pg exec (SaveTask t) db = snd (pg_save_task exec t db)"
| "run_pg exec (SaveCheckpoint cp) db = snd (pg_save_checkpoint exec cp db)"
| "run_pg exec (SaveNode n) db = snd (pg_save_node exec n db)"
| "run_pg exec (TryAcquire now d t ttl) db = snd (pg_acquire_alone exec now d t ttl db)"
| "run_pg exec (Renew now d t ttl) db = snd (pg_renew_alone exec now d t ttl db)"

lemmas pg_save_defs =
  pg_save_job_def pg_save_task_def pg_save_checkpoint_def pg_save_node_def

lemmas pg_load_defs =
  pg_load_job_def pg_load_task_def pg_load_checkpoint_def pg_load_node_def pg_load_def

subsection \<open>What the code relies on\<close>

text \<open>
  A \<^verbatim>\<open>jsonb\<close> column keeps the members of an object and the elements of an array, and the order
  of the elements only: \<open>canon\<close> is the order in which the members of an object come back.
\<close>

locale jsonb =
  fixes canon :: "pyval dict \<Rightarrow> pyval dict" and cval :: "pyval \<Rightarrow> pyval"
  assumes canon_members: "mset (canon d) = mset (map (map_prod id cval) d)"
    and cval_dict: "cval (PDict d) = PDict (canon d)"
    and cval_list: "cval (PList xs) = PList (map cval xs)"
    and cval_atoms: "cval PNone = PNone" "cval (PBool b) = PBool b" "cval (PInt i) = PInt i"
      "cval (PFloat x) = PFloat x" "cval (PStr s) = PStr s"

text \<open>
  The server: \<open>row\<close> is the document of a table under a key, \<open>leader\<close> the only row of the table
  of the lease.  Inserting that row a second time violates its primary key.
\<close>

locale pg_server = jsonb canon cval
  for canon :: "pyval dict \<Rightarrow> pyval dict" and cval +
  fixes exec :: "'db pg_exec"
    and row :: "pg_table \<Rightarrow> string \<Rightarrow> 'db \<Rightarrow> pyval dict option"
    and leader :: "'db \<Rightarrow> lease option"
  assumes upsert: "fst (exec (Upsert tab k j d) db) = Inr []"
      "row tab' k' (snd (exec (Upsert tab k j d) db)) =
         (if tab' = tab \<and> k' = k then Some (canon d) else row tab' k' db)"
      "leader (snd (exec (Upsert tab k j d) db)) = leader db"
    and select: "exec (SelectData tab k) db =
         (Inr (case row tab k db of None \<Rightarrow> [] | Some d \<Rightarrow> [DataRow d]), db)"
    and select_all: "\<exists>ks. distinct ks \<and> set ks = {k. row tab k db \<noteq> None}
         \<and> exec (SelectAllData tab) db = (Inr (map (\<lambda>k. DataRow (the (row tab k db))) ks), db)"
    and select_leader: "exec SelectLeader db =
         (Inr (case leader db of None \<Rightarrow> [] | Some (h, t, e) \<Rightarrow> [LeaderRow h t e]), db)"
    and insert_leader: "fst (exec (InsertLeader h t e) db) =
         (if leader db = None then Inr [] else Inl (RuntimeError ''UniqueViolation''))"
      "leader (snd (exec (InsertLeader h t e) db)) =
         (if leader db = None then Some (h, t, e) else leader db)"
      "row tab k (snd (exec (InsertLeader h t e) db)) = row tab k db"
    and update_leader: "fst (exec (UpdateLeader h t e) db) = Inr []"
      "leader (snd (exec (UpdateLeader h t e) db)) = map_option (\<lambda>_. (h, t, e)) (leader db)"
      "row tab k (snd (exec (UpdateLeader h t e) db)) = row tab k db"
    and update_expiry: "fst (exec (UpdateExpiry e) db) = Inr []"
      "leader (snd (exec (UpdateExpiry e) db)) = map_option (\<lambda>(h, t, _). (h, t, e)) (leader db)"
      "row tab k (snd (exec (UpdateExpiry e) db)) = row tab k db"

subsection \<open>Documents in a changed order\<close>

lemma map_of_mset:
  assumes "mset xs = mset ys" and "distinct (map fst ys)"
  shows "map_of xs = map_of ys"
proof -
  have "distinct (map fst xs)"
    using assms by (metis mset_eq_imp_distinct_iff mset_map)
  moreover have "set xs = set ys"
    using assms(1) by (metis set_mset_mset)
  ultimately show ?thesis
    using assms(2) by (intro map_of_inject_set [THEN iffD2]) auto
qed

text \<open>What a document written by the store reads like when it comes back.\<close>

definition norm_tags :: "(pyval dict \<Rightarrow> pyval dict) \<Rightarrow> string dict \<Rightarrow> string dict" where
  "norm_tags canon tg =
     map (\<lambda>(k, v). (k, case v of PStr s \<Rightarrow> s | _ \<Rightarrow> [])) (canon (map (\<lambda>(k, s). (k, PStr s)) tg))"

context jsonb
begin

lemma get_canon:
  assumes "distinct (map fst d)"
  shows "dict_get (canon d) k = map_option cval (dict_get d k)"
proof -
  have "dict_get (canon d) = dict_get (map (map_prod id cval) d)"
    using assms by (intro map_of_mset canon_members) simp
  then show ?thesis
    by (simp add: map_of_map map_prod_def)
qed

lemma canon_keys: "set (map fst (canon d)) = set (map fst d)"
proof -
  have "set (canon d) = set (map (map_prod id cval) d)"
    using canon_members [of d] by (metis set_mset_mset)
  then show ?thesis
    by (simp add: image_image)
qed

lemma item_canon:
  assumes "distinct (map fst d)"
  shows "item (canon d) k f = item d k (\<lambda>v. f (cval v))"
    and "item_or (canon d) k x f = item_or d k x (\<lambda>v. f (cval v))"
    and "kwarg (canon d) k f = kwarg d k (\<lambda>v. f (cval v))"
    and "only_keys ks (canon d) = only_keys ks d"
  using assms canon_keys [of d]
  by (simp_all add: item_def item_or_def kwarg_def only_keys_def get_canon list_all_iff
      split: option.split)

lemma as_opt_cval [simp]:
  "(\<And>x. cval (g x) = g x) \<Longrightarrow> (\<And>x. g x \<noteq> PNone) \<Longrightarrow> (\<And>x. f (g x) = Inr x) \<Longrightarrow>
     as_opt f (cval (opt_val g y)) = Inr y"
  by (cases y) (simp_all add: as_opt_def opt_val_def cval_atoms)

text \<open>What is left of an object in the store.\<close>

abbreviation norm_job :: "job \<Rightarrow> job" where
  "norm_job j \<equiv> j\<lparr>job_result := cval (job_result j)\<rparr>"

abbreviation norm_task :: "task_spec \<Rightarrow> task_spec" where
  "norm_task t \<equiv> t\<lparr>state_data := canon (state_data t), task_fn := None\<rparr>"

abbreviation norm_checkpoint :: "checkpoint \<Rightarrow> checkpoint" where
  "norm_checkpoint cp \<equiv> cp\<lparr>cp_state_data := canon (cp_state_data cp)\<rparr>"

abbreviation norm_node :: "node \<Rightarrow> node" where
  "norm_node n \<equiv> n\<lparr>tags := norm_tags canon (tags n)\<rparr>"

lemma job_canon: "job_from_dict (canon (job_to_dict j)) = Inr (norm_job j)"
proof -
  have "distinct (map fst (job_to_dict j))"
    by (simp add: job_to_dict_def)
  then show ?thesis
    unfolding job_from_dict_def
    by (simp add: item_canon job_to_dict_def cval_atoms cval_list del: ebind_eq_Inr
        cong: map_cong)
qed

lemma requirements_canon: "requirements_from_dict (canon (requirements_to_dict r)) = Inr r"
proof -
  have d: "distinct (map fst (requirements_to_dict r))"
    by (simp add: requirements_to_dict_def)
  show ?thesis
    unfolding requirements_from_dict_def item_canon [OF d]
    by (simp add: requirements_to_dict_def only_keys_def cval_atoms del: ebind_eq_Inr)
qed

lemma resources_canon: "resources_from_dict (canon (resources_to_dict r)) = Inr r"
proof -
  have d: "distinct (map fst (resources_to_dict r))"
    by (simp add: resources_to_dict_def)
  show ?thesis
    unfolding resources_from_dict_def item_canon [OF d]
    by (simp add: resources_to_dict_def only_keys_def cval_atoms del: ebind_eq_Inr)
qed

lemma checkpoint_canon:
  "checkpoint_from_dict (canon (checkpoint_to_dict cp)) = Inr (norm_checkpoint cp)"
proof -
  have d: "distinct (map fst (checkpoint_to_dict cp))"
    by (simp add: checkpoint_to_dict_def)
  show ?thesis
    unfolding checkpoint_from_dict_def item_canon [OF d]
    by (simp add: checkpoint_to_dict_def only_keys_def cval_atoms cval_dict del: ebind_eq_Inr)
qed

lemma task_canon: "task_from_dict (canon (task_to_dict t)) = Inr (norm_task t)"
proof -
  have d: "distinct (map fst (task_to_dict t))"
    by (simp add: task_to_dict_def)
  have "pool_item (canon (task_to_dict t)) = Inr (task_pool t)"
    using get_canon [OF d, of "''pool''"] pool_item_round [of t]
    by (cases "task_pool t") (simp_all add: pool_item_def task_to_dict_def opt_val_def cval_atoms)
  then show ?thesis
    using d unfolding task_from_dict_def
    by (simp add: item_canon requirements_canon task_to_dict_def cval_atoms cval_dict
        del: ebind_eq_Inr)
qed

lemma tags_canon:
  "str_dict (PDict (canon (map (\<lambda>(k, s). (k, PStr s)) tg))) = Inr (norm_tags canon tg)"
proof -
  have "\<exists>s. snd x = PStr s" if "x \<in> set (canon (map (\<lambda>(k, s). (k, PStr s)) tg))" for x
    using that arg_cong [OF canon_members [of "map (\<lambda>(k, s). (k, PStr s)) tg"], of set_mset]
    by (auto simp: cval_atoms)
  then show ?thesis
    unfolding str_dict_def norm_tags_def
    by (force intro: map_result_total)
qed

lemma node_canon: "node_from_dict (canon (node_to_dict n)) = Inr (norm_node n)"
proof -
  have "distinct (map fst (node_to_dict n))"
    by (simp add: node_to_dict_def)
  then show ?thesis
    unfolding node_from_dict_def
    by (simp add: item_canon resources_canon tags_canon node_to_dict_def cval_atoms cval_dict
        del: ebind_eq_Inr)
qed

end

subsection \<open>The contracts of a store hold\<close>

context pg_server
begin

lemma sbind_exec:
  "sbind (exec SelectLeader) f db =
     f (case leader db of None \<Rightarrow> [] | Some (d, t, e) \<Rightarrow> [LeaderRow d t e]) db"
  "sbind (exec (SelectData tab k)) g db =
     g (case row tab k db of None \<Rightarrow> [] | Some d \<Rightarrow> [DataRow d]) db"
  "sbind (exec (Upsert tab k j d)) g db = g [] (snd (exec (Upsert tab k j d) db))"
  "sbind (exec (InsertLeader h t e)) f db =
     (if leader db = None then f [] (snd (exec (InsertLeader h t e) db))
      else (Inl (RuntimeError ''UniqueViolation''), snd (exec (InsertLeader h t e) db)))"
  "sbind (exec (UpdateLeader h t e)) f db = f [] (snd (exec (UpdateLeader h t e) db))"
  "sbind (exec (UpdateExpiry e)) f db = f [] (snd (exec (UpdateExpiry e) db))"
  "sbind (smodify m) f' db = f' () (m db)"
  using upsert(1) [of tab k j d db] insert_leader(1) [of h t e db] update_leader(1) [of h t e db]
    update_expiry(1) [of e db]
  by (auto simp: sbind_def select_leader select split: prod.split)

lemma save_eq:
  "pg_save_job exec j db = (Inr (), snd (exec (Upsert PG_JOBS (job_id j) None (job_to_dict j)) db))"
  "pg_save_task exec t db =
     (Inr (), snd (exec (Upsert PG_TASKS (task_id t) (task_job_id t) (task_to_dict t)) db))"
  "pg_save_checkpoint exec cp db =
     (Inr (), snd (exec (Upsert PG_CHECKPOINTS (cp_task_id cp) None (checkpoint_to_dict cp)) db))"
  "pg_save_node exec n db =
     (Inr (), snd (exec (Upsert PG_NODES (node_id n) None (node_to_dict n)) db))"
  by (simp_all add: pg_save_defs sbind_exec)

lemma load_eq:
  "pg_load exec tab f k db =
     (case row tab k db of None \<Rightarrow> Inr None | Some d \<Rightarrow> ebind (f d) (\<lambda>v. Inr (Some v)), db)"
  by (simp add: pg_load_def sbind_exec split: option.split)

lemma try_acquire_eq:
  "pg_try_acquire exec others now d t ttl db =
     (case leader db of
        None \<Rightarrow> (if leader (others db) = None then Inr True
                 else Inl (RuntimeError ''UniqueViolation''),
                 snd (exec (InsertLeader d t (now + ttl)) (others db)))
      | Some (h, t', e) \<Rightarrow>
          if lease_open now t (leader db)
          then (Inr True, snd (exec (UpdateLeader d t (now + ttl)) (others db)))
          else (Inr (h = d \<and> t' \<le> t), db))"
  unfolding pg_try_acquire_def
  by (auto simp: Let_def sbind_exec split: option.split)

lemma renew_eq:
  "pg_renew exec others now d t ttl db =
     (if lease_of d t (leader db)
      then (Inr True, snd (exec (UpdateExpiry (now + ttl)) (others db)))
      else (Inr False, db))"
  unfolding pg_renew_def
  by (auto simp: Let_def sbind_exec lease_of_def split: option.split)

lemma alone_eq:
  "pg_acquire_alone exec now d t ttl db = quiet (pg_try_acquire exec (\<lambda>db. db) now d t ttl db)"
  "pg_renew_alone exec now d t ttl db = quiet (pg_renew exec (\<lambda>db. db) now d t ttl db)"
  by (simp_all add: pg_acquire_alone_def pg_renew_alone_def)

lemma rows_of_run:
  "row tab k (snd (pg_acquire_alone exec now d t ttl db)) = row tab k db"
  "row tab k (snd (pg_renew_alone exec now d t ttl db)) = row tab k db"
  by (simp_all add: alone_eq quiet_def try_acquire_eq renew_eq insert_leader update_leader
      update_expiry split: option.split prod.split)

end

sublocale pg_server \<subseteq> pg_jobs: object_table "run_pg exec" written_job job_id norm_job
  "\<lambda>k db. fst (pg_load_job exec k db)"
proof unfold_locales
  fix k p s
  show "fst (pg_load_job exec k (run_pg exec p s)) = (case written_job p of
        None \<Rightarrow> fst (pg_load_job exec k s)
      | Some v \<Rightarrow> if job_id v = k then Inr (Some (norm_job v)) else fst (pg_load_job exec k s))"
    by (cases p) (auto simp: pg_load_job_def load_eq save_eq upsert rows_of_run job_canon)
qed

sublocale pg_server \<subseteq> pg_tasks: object_table "run_pg exec" written_task task_id norm_task
  "\<lambda>k db. fst (pg_load_task exec k db)"
proof unfold_locales
  fix k p s
  show "fst (pg_load_task exec k (run_pg exec p s)) = (case written_task p of
        None \<Rightarrow> fst (pg_load_task exec k s)
      | Some v \<Rightarrow> if task_id v = k then Inr (Some (norm_task v)) else fst (pg_load_task exec k s))"
    by (cases p) (auto simp: pg_load_task_def load_eq save_eq upsert rows_of_run task_canon)
qed

sublocale pg_server \<subseteq> pg_checkpoints:
  object_table "run_pg exec" written_checkpoint cp_task_id norm_checkpoint
  "\<lambda>k db. fst (pg_load_checkpoint exec k db)"
proof unfold_locales
  fix k p s
  show "fst (pg_load_checkpoint exec k (run_pg exec p s)) = (case written_checkpoint p of
        None \<Rightarrow> fst (pg_load_checkpoint exec k s)
      | Some v \<Rightarrow> if cp_task_id v = k then Inr (Some (norm_checkpoint v))
                  else fst (pg_load_checkpoint exec k s))"
    by (cases p) (auto simp: pg_load_checkpoint_def load_eq save_eq upsert rows_of_run checkpoint_canon)
qed

sublocale pg_server \<subseteq> pg_nodes: object_table "run_pg exec" written_node node_id norm_node
  "\<lambda>k db. fst (pg_load_node exec k db)"
proof unfold_locales
  fix k p s
  show "fst (pg_load_node exec k (run_pg exec p s)) = (case written_node p of
        None \<Rightarrow> fst (pg_load_node exec k s)
      | Some v \<Rightarrow> if node_id v = k then Inr (Some (norm_node v)) else fst (pg_load_node exec k s))"
    by (cases p) (auto simp: pg_load_node_def load_eq save_eq upsert rows_of_run node_canon)
qed

sublocale pg_server \<subseteq> pg_lease:
  lease_store "pg_acquire_alone exec" "pg_renew_alone exec" leader "\<lambda>_. True"
  by unfold_locales
    (auto simp: alone_eq quiet_def try_acquire_eq renew_eq insert_leader update_leader
      update_expiry lease_of_def split: option.splits)

text \<open>The four tables together.\<close>

context pg_server
begin

lemma loads_after:
  assumes "\<And>tab k. row tab k db = None"
  shows "fst (pg_load_job exec k (fold (run_pg exec) ps db)) =
      Inr (map_option norm_job (last_written written_job job_id k ps))"
    and "fst (pg_load_task exec k (fold (run_pg exec) ps db)) =
      Inr (map_option norm_task (last_written written_task task_id k ps))"
    and "fst (pg_load_checkpoint exec k (fold (run_pg exec) ps db)) =
      Inr (map_option norm_checkpoint (last_written written_checkpoint cp_task_id k ps))"
    and "fst (pg_load_node exec k (fold (run_pg exec) ps db)) =
      Inr (map_option norm_node (last_written written_node node_id k ps))"
  by (rule pg_jobs.load_fold pg_tasks.load_fold pg_checkpoints.load_fold pg_nodes.load_fold,
      simp add: pg_load_defs load_eq [unfolded pg_load_def] assms)+

lemma lease_laws: "lease_store (pg_acquire_alone exec) (pg_renew_alone exec) leader (\<lambda>_. True)"
  by (rule pg_lease.lease_store_axioms)

text \<open>Two requests for a lease that may be written, the second one inside the first.\<close>

lemma takeover_during_request:
  assumes "lease_open now t (leader db)" and "lease_open now' t' (leader db)"
    and "others = (\<lambda>s. snd (pg_try_acquire exec (\<lambda>s. s) now' d' t' ttl' s))"
  shows "fst (pg_try_acquire exec (\<lambda>s. s) now' d' t' ttl' db) = Inr True"
    and "fst (pg_try_acquire exec others now d t ttl db) =
      (if leader db = None then Inl (RuntimeError ''UniqueViolation'') else Inr True)"
    and "leader (snd (pg_try_acquire exec others now d t ttl db)) =
      (if leader db = None then Some (d', t', now' + ttl') else Some (d, t, now + ttl))"
  using assms
  by (auto simp: try_acquire_eq insert_leader update_leader split: option.split)

text \<open>A request of another driver inside a renewal.\<close>

lemma takeover_during_renewal:
  assumes "lease_of d t (leader db)" and "lease_open now' t' (leader db)"
    and "others = (\<lambda>s. snd (pg_try_acquire exec (\<lambda>s. s) now' d' t' ttl' s))"
  shows "fst (pg_renew exec others now d t ttl db) = Inr True"
    and "leader (snd (pg_renew exec others now d t ttl db)) = Some (d', t', now + ttl)"
  using assms
  by (auto simp: renew_eq try_acquire_eq update_expiry update_leader lease_of_def
      split: option.splits)

end

subsection \<open>A database with these laws\<close>

text \<open>Members of an object come back ordered by length and name of their key.\<close>

primrec jsonb_val :: "pyval \<Rightarrow> pyval" where
  "jsonb_val PNone = PNone"
| "jsonb_val (PBool b) = PBool b"
| "jsonb_val (PInt i) = PInt i"
| "jsonb_val (PFloat x) = PFloat x"
| "jsonb_val (PStr s) = PStr s"
| "jsonb_val (PList xs) = PList (map jsonb_val xs)"
| "jsonb_val (PDict d) =
     PDict (sort_key (\<lambda>x. (length (fst x), fst x)) (map (map_prod id jsonb_val) d))"

definition jsonb_doc :: "pyval dict \<Rightarrow> pyval dict" where
  "jsonb_doc d = sort_key (\<lambda>x. (length (fst x), fst x)) (map (map_prod id jsonb_val) d)"

record pg_db =
  pg_rows :: "((pg_table \<times> string) \<times> pyval dict) list"
  pg_leader :: "lease option"

definition empty_pg :: pg_db where
  "empty_pg = \<lparr>pg_rows = [], pg_leader = None\<rparr>"

definition pg_row :: "pg_table \<Rightarrow> string \<Rightarrow> pg_db \<Rightarrow> pyval dict option" where
  "pg_row tab k db = map_of (pg_rows db) (tab, k)"

fun run_sql :: "pg_statement \<Rightarrow> (pg_db, pg_row list) py" where
  "run_sql CreateTables db = (Inr [], db)"
| "run_sql (Upsert tab k j d) db =
     (Inr [], db\<lparr>pg_rows := AList.update (tab, k) (jsonb_doc d) (pg_rows db)\<rparr>)"
| "run_sql (SelectData tab k) db =
     (Inr (case pg_row tab k db of None \<Rightarrow> [] | Some d \<Rightarrow> [DataRow d]), db)"
| "run_sql (SelectAllData tab) db =
     (Inr (map (\<lambda>k. DataRow (the (pg_row tab k db)))
        (remdups (map (snd \<circ> fst) (filter (\<lambda>x. fst (fst x) = tab) (pg_rows db))))), db)"
| "run_sql SelectLeader db =
     (Inr (case pg_leader db of None \<Rightarrow> [] | Some (d, t, e) \<Rightarrow> [LeaderRow d t e]), db)"
| "run_sql (InsertLeader d t e) db =
     (if pg_leader db = None then (Inr [], db\<lparr>pg_leader := Some (d, t, e)\<rparr>)
      else (Inl (RuntimeError ''UniqueViolation''), db))"
| "run_sql (UpdateLeader d t e) db =
     (Inr [], db\<lparr>pg_leader := map_option (\<lambda>_. (d, t, e)) (pg_leader db)\<rparr>)"
| "run_sql (UpdateExpiry e) db =
     (Inr [], db\<lparr>pg_leader := map_option (\<lambda>(d, t, _). (d, t, e)) (pg_leader db)\<rparr>)"

interpretation sql_server: pg_server jsonb_doc jsonb_val run_sql pg_row pg_leader
proof unfold_locales
  fix tab db
  have "set (remdups (map (snd \<circ> fst) (filter (\<lambda>x. fst (fst x) = tab) (pg_rows db))))
      = {k. pg_row tab k db \<noteq> None}"
    by (force simp: pg_row_def map_of_eq_None_iff)
  then show "\<exists>ks. distinct ks \<and> set ks = {k. pg_row tab k db \<noteq> None}
      \<and> run_sql (SelectAllData tab) db =
          (Inr (map (\<lambda>k. DataRow (the (pg_row tab k db))) ks), db)"
    by (intro exI [of _ "remdups (map (snd \<circ> fst) (filter (\<lambda>x. fst (fst x) = tab) (pg_rows db)))"])
      simp
qed (auto simp: jsonb_doc_def pg_row_def update_conv')

subsection \<open>Properties\<close>

text \<open>
  C12: The PostgreSQL store keeps the last write: on a server that executes the statements as
  documented, and whose tables are empty at first, a load after any undisturbed sequence of
  operations raises nothing and gives the last object saved under the identifier, up to the
  order of the members of user data, and without the callable of a task.
\<close>

theorem pg_last_write:
  assumes server: "pg_server canon cval exec row leader"
    and empty: "\<And>tab k. row tab k db = None"
  shows "fst (pg_load_job exec k (fold (run_pg exec) ps db)) =
      Inr (map_option (\<lambda>j. j\<lparr>job_result := cval (job_result j)\<rparr>) (last_written written_job job_id k ps))
    \<and> fst (pg_load_task exec k (fold (run_pg exec) ps db)) =
      Inr (map_option (\<lambda>t. t\<lparr>state_data := canon (state_data t), task_fn := None\<rparr>)
        (last_written written_task task_id k ps))
    \<and> fst (pg_load_checkpoint exec k (fold (run_pg exec) ps db)) =
      Inr (map_option (\<lambda>cp. cp\<lparr>cp_state_data := canon (cp_state_data cp)\<rparr>)
        (last_written written_checkpoint cp_task_id k ps))
    \<and> fst (pg_load_node exec k (fold (run_pg exec) ps db)) =
      Inr (map_option (\<lambda>n. n\<lparr>tags := norm_tags canon (tags n)\<rparr>)
        (last_written written_node node_id k ps))"
  using pg_server.loads_after [OF server empty] by simp

theorem pg_last_write_witness:
  "fst (pg_load_job run_sql ''j''
      (fold (run_pg run_sql) [SaveJob (new_job ''j'' ''a'' None), SaveJob (new_job ''j'' ''b'' None)] empty_pg))
   = Inr (Some (new_job ''j'' ''b'' None))"
proof -
  have "pg_row tab k empty_pg = None" for tab k
    by (simp add: pg_row_def empty_pg_def)
  from pg_last_write [OF sql_server.pg_server_axioms this,
      of "''j''" "[SaveJob (new_job ''j'' ''a'' None), SaveJob (new_job ''j'' ''b'' None)]"]
  show ?thesis
    by (simp add: last_written_def new_job_def)
qed

text \<open>
  C13: The requests of two drivers are not exclusive: when a request whose lease may be written
  is answered between the two statements of another such request, both drivers are told that
  they lead, and the store names the one that read first; only where there is no lease yet the
  other driver gets an exception.
\<close>

theorem requests_race:
  assumes "pg_server canon cval exec row leader"
    and "lease_open now t (leader db)" and "lease_open now' t' (leader db)"
    and "others = (\<lambda>s. snd (pg_try_acquire exec (\<lambda>s. s) now' d' t' ttl' s))"
  shows "fst (pg_try_acquire exec (\<lambda>s. s) now' d' t' ttl' db) = Inr True
    \<and> (if leader db = None
       then pg_try_acquire exec others now d t ttl db =
              (Inl (RuntimeError ''UniqueViolation''), snd (pg_try_acquire exec others now d t ttl db))
       else fst (pg_try_acquire exec others now d t ttl db) = Inr True
            \<and> leader (snd (pg_try_acquire exec others now d t ttl db)) = Some (d, t, now + ttl))"
  using pg_server.takeover_during_request [OF assms] by (auto simp: prod_eq_iff)

theorem requests_race_witness:
  "fst (pg_try_acquire run_sql
      (\<lambda>s. snd (pg_try_acquire run_sql (\<lambda>s. s) 20 ''b'' 1 10 s)) 20 ''a'' 1 10
      (empty_pg\<lparr>pg_leader := Some (''c'', 5, 15)\<rparr>)) = Inr True"
  using requests_race [OF sql_server.pg_server_axioms, where now = 20 and t = 1 and now' = 20
      and t' = 1 and db = "empty_pg\<lparr>pg_leader := Some (''c'', 5, 15)\<rparr>" and d' = "''b''"
      and ttl' = 10 and d = "''a''" and ttl = 10]
  by simp

text \<open>
  Where no two requests overlap, the election over PostgreSQL has the property it has over SQLite.
\<close>

lemma pg_leader_holds_lease:
  assumes "pg_server canon cval exec row leader"
    and "fresh_drivers E0" and "leader s0 = None"
    and "el_reach (pg_acquire_alone exec) (pg_renew_alone exec) (now0, E0, s0) (now, E, s)"
    and "\<not> stopped (E d)"
    and "renew_tick (pg_acquire_alone exec) (pg_renew_alone exec) now' (E d) s = (ns, e', s')"
  shows "is_leader e' \<longleftrightarrow> holds_lease (leader s') e'"
  by (rule lease_store.leads_iff_holds [OF pg_server.lease_laws [OF assms(1)] assms(2,3) TrueI assms(4-6)])

end
