(* ===== verification/RedisStore.thy ===== *)
theory RedisStore
  imports Election "HOL-Library.Sublist"
begin

section \<open>The Redis store (mesh/state/redis_store.py)\<close>

text \<open>
  The store over a Redis client, which is a parameter: a record of the four commands the code
  uses.  The value of a key is the document its JSON text denotes.  The locale \<open>redis_server\<close>
  states what the code relies on.  As with PostgreSQL, \<open>others\<close> is what other processes do
  between the two commands of a request for the lease.
\<close>

subsection \<open>Commands and operations\<close>

record 'r redis =
  r_get :: "string \<Rightarrow> 'r \<Rightarrow> pyval dict option"
  r_set :: "string \<Rightarrow> pyval dict \<Rightarrow> 'r \<Rightarrow> 'r"
  r_set_nx :: "string \<Rightarrow> pyval dict \<Rightarrow> 'r \<Rightarrow> bool \<times> 'r"
  r_scan :: "string \<Rightarrow> 'r \<Rightarrow> string list"

definition redis_key :: "string \<Rightarrow> string \<Rightarrow> string" where
  "redis_key kind k = ''mesh:'' @ kind @ '':'' @ k"

definition leadership_key :: string where
  "leadership_key = ''mesh:leadership''"

text \<open>The keys that match \<^verbatim>\<open>mesh:kind:*\<close>.\<close>

definition redis_keys :: "'r redis \<Rightarrow> string \<Rightarrow> 'r \<Rightarrow> string list" where
  "redis_keys c kind r = r_scan c (redis_key kind []) r"

definition redis_load :: "'r redis \<Rightarrow> string \<Rightarrow> (pyval dict \<Rightarrow> 'v result) \<Rightarrow> string \<Rightarrow> 'r \<Rightarrow> 'v option result" where
  "redis_load c kind from_doc k r =
     (case r_get c (redis_key kind k) r of
        None \<Rightarrow> Inr None
      | Some d \<Rightarrow> ebind (from_doc d) (\<lambda>v. Inr (Some v)))"

definition redis_list :: "'r redis \<Rightarrow> string \<Rightarrow> (pyval dict \<Rightarrow> 'v result) \<Rightarrow> 'r \<Rightarrow> 'v list result" where
  "redis_list c kind from_doc r =
     map_result from_doc (List.map_filter (\<lambda>k. r_get c k r) (redis_keys c kind r))"

definition redis_save_job :: "'r redis \<Rightarrow> job \<Rightarrow> 'r \<Rightarrow> 'r" where
  "redis_save_job c j r = r_set c (redis_key ''job'' (job_id j)) (job_to_dict j) r"

definition redis_load_job :: "'r redis \<Rightarrow> string \<Rightarrow> 'r \<Rightarrow> job option result" where
  "redis_load_job c jid r = redis_load c ''job'' job_from_dict jid r"

definition redis_list_jobs :: "'r redis \<Rightarrow> 'r \<Rightarrow> job list result" where
  "redis_list_jobs c r = redis_list c ''job'' job_from_dict r"

definition redis_save_task :: "'r redis \<Rightarrow> task_spec \<Rightarrow> 'r \<Rightarrow> 'r" where
  "redis_save_task c t r = r_set c (redis_key ''task'' (task_id t)) (task_to_dict t) r"

definition redis_load_task :: "'r redis \<Rightarrow> string \<Rightarrow> 'r \<Rightarrow> task_spec option result" where
  "redis_load_task c tid r = redis_load c ''task'' task_from_dict tid r"

definition redis_list_tasks :: "'r redis \<Rightarrow> 'r \<Rightarrow> task_spec list result" where
  "redis_list_tasks c r = redis_list c ''task'' task_from_dict r"

definition redis_save_checkpoint :: "'r redis \<Rightarrow> checkpoint \<Rightarrow> 'r \<Rightarrow> 'r" where
  "redis_save_checkpoint c cp r = r_set c (redis_key ''cp'' (cp_task_id cp)) (checkpoint_to_dict cp) r"

definition redis_load_checkpoint :: "'r redis \<Rightarrow> string \<Rightarrow> 'r \<Rightarrow> checkpoint option result" where
  "redis_load_checkpoint c tid r = redis_load c ''cp'' checkpoint_from_dict tid r"

definition redis_save_node :: "'r redis \<Rightarrow> node \<Rightarrow> 'r \<Rightarrow> 'r" where
  "redis_save_node c n r = r_set c (redis_key ''node'' (node_id n)) (node_to_dict n) r"

definition redis_load_node :: "'r redis \<Rightarrow> string \<Rightarrow> 'r \<Rightarrow> node option result" where
  "redis_load_node c nid r = redis_load c ''node'' node_from_dict nid r"

definition redis_list_nodes :: "'r redis \<Rightarrow> 'r \<Rightarrow> node list result" where
  "redis_list_nodes c r = redis_list c ''node'' node_from_dict r"

definition lease_doc :: "string \<Rightarrow> int \<Rightarrow> real \<Rightarrow> pyval dict" where
  "lease_doc driver trm expires =
     [(''driver_id'', PStr driver), (''term'', PInt trm), (''expires_at'', PFloat expires)]"

definition redis_try_acquire ::
  "'r redis \<Rightarrow> ('r \<Rightarrow> 'r) \<Rightarrow> real \<Rightarrow> string \<Rightarrow> int \<Rightarrow> real \<Rightarrow> ('r, bool) py" where
  "redis_try_acquire c others now driver trm ttl = (\<lambda>r.
     let payload = lease_doc driver trm (now + ttl) in
     case r_get c leadership_key r of
       None \<Rightarrow> (case r_set_nx c leadership_key payload (others r) of (won, r1) \<Rightarrow> (Inr won, r1))
     | Some data \<Rightarrow>
         sbind (slift (item data ''expires_at'' as_real)) (\<lambda>expires_at.
         sbind (if expires_at < now then sret True
                else slift (ebind (item data ''term'' as_int) (\<lambda>current. Inr (current < trm)))) (\<lambda>open.
         if open
         then sbind (smodify others) (\<lambda>_.
              sbind (smodify (r_set c leadership_key payload)) (\<lambda>_. sret True))
         else slift (ebind (item data ''driver_id'' as_str) (\<lambda>holder.
                if holder = driver
                then ebind (item data ''term'' as_int) (\<lambda>current. Inr (current \<le> trm))
                else Inr False)))) r)"

definition redis_renew ::
  "'r redis \<Rightarrow> ('r \<Rightarrow> 'r) \<Rightarrow> real \<Rightarrow> string \<Rightarrow> int \<Rightarrow> real \<Rightarrow> ('r, bool) py" where
  "redis_renew c others now driver trm ttl = (\<lambda>r.
     let expires = now + ttl in
     case r_get c leadership_key r of
       None \<Rightarrow> (Inr False, r)
     | Some data \<Rightarrow>
         sbind (slift (item data ''driver_id'' as_str)) (\<lambda>holder.
         sbind (if holder \<noteq> driver then sret True
                else slift (ebind (item data ''term'' as_int) (\<lambda>current. Inr (current \<noteq> trm)))) (\<lambda>lost.
         if lost then sret False
         else sbind (smodify others) (\<lambda>_.
              sbind (smodify (r_set c leadership_key (dict_set ''expires_at'' (PFloat expires) data))) (\<lambda>_.
              sret True)))) r)"

definition redis_get_leader :: "'r redis \<Rightarrow> real \<Rightarrow> 'r \<Rightarrow> (string \<times> int) option result" where
  "redis_get_leader c now r =
     (case r_get c leadership_key r of
        None \<Rightarrow> Inr None
      | Some data \<Rightarrow>
          ebind (item data ''expires_at'' as_real) (\<lambda>expires_at.
          if now \<le> expires_at
          then ebind (item data ''driver_id'' as_str) (\<lambda>holder.
               ebind (item data ''term'' as_int) (\<lambda>trm. Inr (Some (holder, trm))))
          else Inr None))"

text \<open>Requests without interference, as the lease store sees them.\<close>

definition redis_acquire_alone :: "'r redis \<Rightarrow> 'r lease_call" where
  "redis_acquire_alone c now d t ttl r =
     (case redis_try_acquire c (\<lambda>r. r) now d t ttl r of (x, r1) \<Rightarrow> (x = Inr True, r1))"

definition redis_renew_alone :: "'r redis \<Rightarrow> 'r lease_call" where
  "redis_renew_alone c now d t ttl r =
     (case redis_renew c (\<lambda>r. r) now d t ttl r of (x, r1) \<Rightarrow> (x = Inr True, r1))"

fun run_redis :: "'r redis \<Rightarrow> store_op \<Rightarrow> 'r \<Rightarrow> 'r" where
  "run_redis c (SaveJob j) r = redis_save_job c j r"
| "run_redis c (SaveTask t) r = redis_save_task c t r"
| "run_redis c (SaveCheckpoint cp) r = redis_save_checkpoint c cp r"
| "run_redis c (SaveNode n) r = redis_save_node c n r"
| "run_redis c (TryAcquire now d t ttl) r = snd (redis_acquire_alone c now d t ttl r)"
| "run_redis c (Renew now d t ttl) r = snd (redis_renew_alone c now d t ttl r)"

lemmas redis_save_defs =
  redis_save_job_def redis_save_task_def redis_save_checkpoint_def redis_save_node_def

lemmas redis_load_defs =
  redis_load_job_def redis_load_task_def redis_load_checkpoint_def redis_load_node_def redis_load_def

subsection \<open>What the code relies on\<close>

text \<open>A scan gives every key of the pattern at least once, in any order.\<close>

locale redis_server =
  fixes c :: "'r redis"
  assumes get_set: "r_get c k' (r_set c k v r) = (if k' = k then Some v else r_get c k' r)"
    and set_nx_result: "fst (r_set_nx c k v r) \<longleftrightarrow> r_get c k r = None"
    and get_set_nx: "r_get c k' (snd (r_set_nx c k v r)) =
      (if k' = k \<and> r_get c k r = None then Some v else r_get c k' r)"
    and scan: "set (r_scan c p r) = {k. prefix p k \<and> r_get c k r \<noteq> None}"

text \<open>The lease in the store; only the store's own documents are there.\<close>

definition redis_lease :: "'r redis \<Rightarrow> 'r \<Rightarrow> lease option" where
  "redis_lease c r =
     (case r_get c leadership_key r of
        None \<Rightarrow> None
      | Some data \<Rightarrow>
          (case (dict_get data ''driver_id'', dict_get data ''term'', dict_get data ''expires_at'') of
             (Some (PStr d), Some (PInt t), Some (PFloat e)) \<Rightarrow> Some (d, t, e)
           | _ \<Rightarrow> None))"

definition lease_written :: "'r redis \<Rightarrow> 'r \<Rightarrow> bool" where
  "lease_written c r =
     (case r_get c leadership_key r of
        None \<Rightarrow> True
      | Some data \<Rightarrow> (\<exists>d t e. data = lease_doc d t e))"

lemma redis_key_eq [simp]:
  "redis_key kind k = redis_key kind k' \<longleftrightarrow> k = k'"
  by (simp add: redis_key_def)

lemma redis_key_kinds [simp]:
  "redis_key ''job'' k \<noteq> redis_key ''task'' k'" "redis_key ''task'' k \<noteq> redis_key ''job'' k'"
  "redis_key ''job'' k \<noteq> redis_key ''cp'' k'" "redis_key ''cp'' k \<noteq> redis_key ''job'' k'"
  "redis_key ''job'' k \<noteq> redis_key ''node'' k'" "redis_key ''node'' k \<noteq> redis_key ''job'' k'"
  "redis_key ''task'' k \<noteq> redis_key ''cp'' k'" "redis_key ''cp'' k \<noteq> redis_key ''task'' k'"
  "redis_key ''task'' k \<noteq> redis_key ''node'' k'" "redis_key ''node'' k \<noteq> redis_key ''task'' k'"
  "redis_key ''cp'' k \<noteq> redis_key ''node'' k'" "redis_key ''node'' k \<noteq> redis_key ''cp'' k'"
  by (simp_all add: redis_key_def)

lemma redis_key_leadership [simp]:
  "kind \<in> {''job'', ''task'', ''cp'', ''node''} \<Longrightarrow> redis_key kind k \<noteq> leadership_key"
  "kind \<in> {''job'', ''task'', ''cp'', ''node''} \<Longrightarrow> leadership_key \<noteq> redis_key kind k"
  by (auto simp: redis_key_def leadership_key_def)

context redis_server
begin

lemma lease_get:
  assumes "lease_written c r"
  shows "r_get c leadership_key r = map_option (\<lambda>(d, t, e). lease_doc d t e) (redis_lease c r)"
  using assms by (auto simp: lease_written_def redis_lease_def lease_doc_def split: option.splits)

lemma lease_of_get:
  "r_get c leadership_key r = Some (lease_doc d t e) \<Longrightarrow> redis_lease c r = Some (d, t, e)"
  by (simp add: redis_lease_def lease_doc_def)

lemma try_acquire_eq:
  assumes "lease_written c r"
  shows "redis_try_acquire c others now d t ttl r =
     (case redis_lease c r of
        None \<Rightarrow> (Inr (fst (r_set_nx c leadership_key (lease_doc d t (now + ttl)) (others r))),
                 snd (r_set_nx c leadership_key (lease_doc d t (now + ttl)) (others r)))
      | Some (h, t', e) \<Rightarrow>
          if lease_open now t (redis_lease c r)
          then (Inr True, r_set c leadership_key (lease_doc d t (now + ttl)) (others r))
          else (Inr (h = d \<and> t' \<le> t), r))"
  using lease_get [OF assms]
  by (auto simp: redis_try_acquire_def Let_def lease_doc_def sbind_def case_prod_beta
      split: option.splits)

lemma renew_eq:
  assumes "lease_written c r"
  shows "redis_renew c others now d t ttl r =
     (if lease_of d t (redis_lease c r)
      then (Inr True, r_set c leadership_key (lease_doc d t (now + ttl)) (others r))
      else (Inr False, r))"
  using lease_get [OF assms]
  by (auto simp: redis_renew_def Let_def lease_doc_def sbind_def lease_of_def split: option.splits)

lemma lease_after_set:
  "redis_lease c (r_set c leadership_key (lease_doc d t e) r) = Some (d, t, e)"
  "lease_written c (r_set c leadership_key (lease_doc d t e) r)"
  by (auto simp: lease_of_get get_set lease_written_def)

lemma lease_after_nx:
  assumes "redis_lease c r = None" and "lease_written c r"
  shows "fst (r_set_nx c leadership_key (lease_doc d t e) r)"
    and "redis_lease c (snd (r_set_nx c leadership_key (lease_doc d t e) r)) = Some (d, t, e)"
    and "lease_written c (snd (r_set_nx c leadership_key (lease_doc d t e) r))"
  using lease_get [OF assms(2)] assms(1)
  by (auto simp: set_nx_result lease_of_get get_set_nx lease_written_def)

lemma acquire_effect:
  assumes "lease_written c r"
  shows "fst (redis_try_acquire c (\<lambda>r. r) now d t ttl r) =
      Inr (lease_open now t (redis_lease c r) \<or> (\<exists>t' e. redis_lease c r = Some (d, t', e) \<and> t' \<le> t))"
    and "redis_lease c (snd (redis_try_acquire c (\<lambda>r. r) now d t ttl r)) =
      (if lease_open now t (redis_lease c r) then Some (d, t, now + ttl) else redis_lease c r)"
    and "lease_written c (snd (redis_try_acquire c (\<lambda>r. r) now d t ttl r))"
  using assms
  by (auto simp: try_acquire_eq lease_after_nx lease_after_set split: option.split)

lemma renew_effect:
  assumes "lease_written c r"
  shows "fst (redis_renew c (\<lambda>r. r) now d t ttl r) = Inr (lease_of d t (redis_lease c r))"
    and "redis_lease c (snd (redis_renew c (\<lambda>r. r) now d t ttl r)) =
      (if lease_of d t (redis_lease c r) then Some (d, t, now + ttl) else redis_lease c r)"
    and "lease_written c (snd (redis_renew c (\<lambda>r. r) now d t ttl r))"
  using assms by (auto simp: renew_eq lease_after_set)

text \<open>A request or a renewal changes no key but its own.\<close>

lemma other_keys:
  assumes "k \<noteq> leadership_key"
  shows "r_get c k (snd (redis_acquire_alone c now d t ttl r)) = r_get c k r"
    and "r_get c k (snd (redis_renew_alone c now d t ttl r)) = r_get c k r"
  using assms
  by (auto simp: redis_acquire_alone_def redis_renew_alone_def redis_try_acquire_def redis_renew_def
      Let_def sbind_def get_set get_set_nx split: option.split prod.split sum.split)
    (metis get_set_nx snd_conv)+

end

sublocale redis_server \<subseteq> redis_jobs: object_table "run_redis c" written_job job_id "\<lambda>j. j" "redis_load_job c"
proof unfold_locales
  fix k p s
  show "redis_load_job c k (run_redis c p s) = (case written_job p of None \<Rightarrow> redis_load_job c k s
      | Some v \<Rightarrow> if job_id v = k then Inr (Some v) else redis_load_job c k s)"
    by (cases p) (auto simp: redis_load_defs redis_save_defs get_set other_keys)
qed

sublocale redis_server \<subseteq> redis_tasks:
  object_table "run_redis c" written_task task_id "\<lambda>t. t\<lparr>task_fn := None\<rparr>" "redis_load_task c"
proof unfold_locales
  fix k p s
  show "redis_load_task c k (run_redis c p s) = (case written_task p of None \<Rightarrow> redis_load_task c k s
      | Some v \<Rightarrow> if task_id v = k then Inr (Some (v\<lparr>task_fn := None\<rparr>)) else redis_load_task c k s)"
    by (cases p) (auto simp: redis_load_defs redis_save_defs get_set other_keys)
qed

sublocale redis_server \<subseteq> redis_checkpoints:
  object_table "run_redis c" written_checkpoint cp_task_id "\<lambda>cp. cp" "redis_load_checkpoint c"
proof unfold_locales
  fix k p s
  show "redis_load_checkpoint c k (run_redis c p s) = (case written_checkpoint p of
        None \<Rightarrow> redis_load_checkpoint c k s
      | Some v \<Rightarrow> if cp_task_id v = k then Inr (Some v) else redis_load_checkpoint c k s)"
    by (cases p) (auto simp: redis_load_defs redis_save_defs get_set other_keys)
qed

sublocale redis_server \<subseteq> redis_nodes: object_table "run_redis c" written_node node_id "\<lambda>n. n" "redis_load_node c"
proof unfold_locales
  fix k p s
  show "redis_load_node c k (run_redis c p s) = (case written_node p of None \<Rightarrow> redis_load_node c k s
      | Some v \<Rightarrow> if node_id v = k then Inr (Some v) else redis_load_node c k s)"
    by (cases p) (auto simp: redis_load_defs redis_save_defs get_set other_keys)
qed

sublocale redis_server \<subseteq> redis_lease: lease_store "redis_acquire_alone c" "redis_renew_alone c" "redis_lease c" "lease_written c"
proof -
  have acq: "redis_acquire_alone c now d t ttl r =
      (fst (redis_try_acquire c (\<lambda>r. r) now d t ttl r) = Inr True,
       snd (redis_try_acquire c (\<lambda>r. r) now d t ttl r))" for now d t ttl r
    by (simp add: redis_acquire_alone_def split: prod.split)
  have ren: "redis_renew_alone c now d t ttl r =
      (fst (redis_renew c (\<lambda>r. r) now d t ttl r) = Inr True,
       snd (redis_renew c (\<lambda>r. r) now d t ttl r))" for now d t ttl r
    by (simp add: redis_renew_alone_def split: prod.split)
  show "lease_store (redis_acquire_alone c) (redis_renew_alone c) (redis_lease c) (lease_written c)"
    by unfold_locales (simp_all add: acq ren acquire_effect renew_effect)
qed

text \<open>Loads, lists and requests.\<close>

lemma redis_key_prefix: "prefix (redis_key kind []) k \<longleftrightarrow> (\<exists>i. k = redis_key kind i)"
  by (auto simp: redis_key_def prefix_def)

context redis_server
begin

lemma redis_loads_after:
  assumes "\<And>kind k. r_get c (redis_key kind k) r = None"
  shows "redis_load_job c k (fold (run_redis c) ps r) = Inr (last_written written_job job_id k ps)"
    and "redis_load_task c k (fold (run_redis c) ps r) =
      Inr (map_option (\<lambda>t. t\<lparr>task_fn := None\<rparr>) (last_written written_task task_id k ps))"
    and "redis_load_checkpoint c k (fold (run_redis c) ps r) =
      Inr (last_written written_checkpoint cp_task_id k ps)"
    and "redis_load_node c k (fold (run_redis c) ps r) = Inr (last_written written_node node_id k ps)"
  using redis_jobs.load_fold [of k r ps] redis_tasks.load_fold [of k r ps]
    redis_checkpoints.load_fold [of k r ps] redis_nodes.load_fold [of k r ps]
  by (simp_all add: redis_load_defs assms option.map_ident)

lemma redis_lease_laws:
  "lease_store (redis_acquire_alone c) (redis_renew_alone c) (redis_lease c) (lease_written c)"
  by (rule redis_lease.lease_store_axioms)

text \<open>A list gives what the loads of its keys give.\<close>

lemma list_of_loads:
  assumes "\<And>k. redis_load c kind from_doc k r = Inr (L k)"
  shows "\<exists>vs. redis_list c kind from_doc r = Inr vs \<and> set vs = {v. \<exists>k. L k = Some v}"
proof -
  let ?docs = "List.map_filter (\<lambda>k. r_get c k r) (redis_keys c kind r)"
  have docs: "set ?docs = {d. \<exists>i. r_get c (redis_key kind i) r = Some d}"
    by (auto simp: map_filter_def redis_keys_def scan redis_key_prefix)
      (force intro: rev_image_eqI)
  have doc: "\<exists>v. from_doc d = Inr v \<and> L i = Some v" if "r_get c (redis_key kind i) r = Some d" for i d
    using assms [of i] that by (auto simp: redis_load_def)
  define g where "g d = (case from_doc d of Inr v \<Rightarrow> v | Inl e \<Rightarrow> undefined)" for d
  have "from_doc d = Inr (g d)" if "d \<in> set ?docs" for d
    using that docs doc by (fastforce simp: g_def)
  then have "redis_list c kind from_doc r = Inr (map g ?docs)"
    unfolding redis_list_def by (rule map_result_total)
  moreover have "g ` set ?docs = {v. \<exists>k. L k = Some v}"
  proof (intro equalityI subsetI)
    fix v assume "v \<in> g ` set ?docs"
    then show "v \<in> {v. \<exists>k. L k = Some v}"
      using docs doc by (fastforce simp: g_def)
  next
    fix v assume "v \<in> {v. \<exists>k. L k = Some v}"
    then obtain k where "L k = Some v" by auto
    then obtain d where "r_get c (redis_key kind k) r = Some d" "from_doc d = Inr v"
      using assms [of k] by (auto simp: redis_load_def split: option.splits)
    then show "v \<in> g ` set ?docs"
      using docs by (force simp: g_def)
  qed
  ultimately show ?thesis by simp
qed

text \<open>Two requests for a lease that may be written, the second one inside the first.\<close>

lemma redis_takeover_during_request:
  assumes "lease_written c r"
    and "lease_open now t (redis_lease c r)" and "lease_open now' t' (redis_lease c r)"
    and "others = (\<lambda>r. snd (redis_try_acquire c (\<lambda>r. r) now' d' t' ttl' r))"
  shows "fst (redis_try_acquire c (\<lambda>r. r) now' d' t' ttl' r) = Inr True"
    and "fst (redis_try_acquire c others now d t ttl r) = Inr (redis_lease c r \<noteq> None)"
    and "redis_lease c (snd (redis_try_acquire c others now d t ttl r)) =
      (if redis_lease c r = None then Some (d', t', now' + ttl') else Some (d, t, now + ttl))"
proof -
  let ?r' = "others r"
  have r': "redis_lease c ?r' = Some (d', t', now' + ttl')" "lease_written c ?r'"
    using acquire_effect [OF assms(1), of now' d' t' ttl'] assms(3,4) by simp_all
  then have got: "r_get c leadership_key ?r' = Some (lease_doc d' t' (now' + ttl'))"
    using lease_get by simp
  show "fst (redis_try_acquire c (\<lambda>r. r) now' d' t' ttl' r) = Inr True"
    using acquire_effect [OF assms(1), of now' d' t' ttl'] assms(3) by simp
  show "fst (redis_try_acquire c others now d t ttl r) = Inr (redis_lease c r \<noteq> None)"
    using assms(2) got by (auto simp: try_acquire_eq [OF assms(1)] set_nx_result split: option.split)
  show "redis_lease c (snd (redis_try_acquire c others now d t ttl r)) =
      (if redis_lease c r = None then Some (d', t', now' + ttl') else Some (d, t, now + ttl))"
    using assms(2) got
    by (auto simp: try_acquire_eq [OF assms(1)] lease_after_set lease_of_get get_set_nx
        split: option.split)
qed

text \<open>A renewal writes its own lease back, whoever has taken it over meanwhile.\<close>

lemma redis_renewal_overwrites:
  assumes "lease_written c r" and "lease_of d t (redis_lease c r)"
  shows "fst (redis_renew c others now d t ttl r) = Inr True"
    and "redis_lease c (snd (redis_renew c others now d t ttl r)) = Some (d, t, now + ttl)"
  using assms by (simp_all add: renew_eq lease_after_set)

end

subsection \<open>A server with these laws\<close>

definition dict_redis :: "pyval dict dict redis" where
  "dict_redis =
     \<lparr>r_get = (\<lambda>k r. dict_get r k), r_set = (\<lambda>k v r. dict_set k v r),
      r_set_nx = (\<lambda>k v r. if dict_get r k = None then (True, dict_set k v r) else (False, r)),
      r_scan = (\<lambda>p r. filter (prefix p) (dict_keys r))\<rparr>"

interpretation dict_server: redis_server dict_redis
  by unfold_locales (auto simp: dict_redis_def map_of_eq_None_iff image_iff)

subsection \<open>Properties\<close>

text \<open>
  C14: Of two overlapping requests for the lease in Redis exactly one is granted where there is
  no lease yet, because the first writes only an absent key; but where a lease has expired or
  has a smaller term both are granted, and the store names the one that read first.
\<close>

theorem redis_requests:
  assumes "redis_server c" and "lease_written c r"
    and "lease_open now t (redis_lease c r)" and "lease_open now' t' (redis_lease c r)"
    and "others = (\<lambda>r. snd (redis_try_acquire c (\<lambda>r. r) now' d' t' ttl' r))"
  shows "fst (redis_try_acquire c (\<lambda>r. r) now' d' t' ttl' r) = Inr True
    \<and> fst (redis_try_acquire c others now d t ttl r) = Inr (redis_lease c r \<noteq> None)
    \<and> redis_lease c (snd (redis_try_acquire c others now d t ttl r)) =
        (if redis_lease c r = None then Some (d', t', now' + ttl') else Some (d, t, now + ttl))"
  using redis_server.redis_takeover_during_request [OF assms] by simp

theorem redis_requests_witness:
  "fst (redis_try_acquire dict_redis
      (\<lambda>r. snd (redis_try_acquire dict_redis (\<lambda>r. r) 20 ''b'' 1 10 r)) 20 ''a'' 1 10 []) = Inr False"
proof -
  have "lease_written dict_redis []" "redis_lease dict_redis [] = None"
    by (simp_all add: lease_written_def redis_lease_def dict_redis_def)
  then show ?thesis
    using redis_requests [OF dict_server.redis_server_axioms, where r = "[]" and now = 20 and t = 1
        and now' = 20 and t' = 1 and d' = "''b''" and ttl' = 10 and d = "''a''" and ttl = 10]
    by simp
qed

text \<open>What is loaded and listed is what was saved last.\<close>

lemma redis_last_write:
  assumes "redis_server c" and "\<And>kind k. r_get c (redis_key kind k) r = None"
  shows "redis_load_job c k (fold (run_redis c) ps r) = Inr (last_written written_job job_id k ps)"
    and "\<exists>js. redis_list_jobs c (fold (run_redis c) ps r) = Inr js
      \<and> set js = {j. \<exists>k. last_written written_job job_id k ps = Some j}"
proof -
  note loads = redis_server.redis_loads_after [OF assms]
  show "redis_load_job c k (fold (run_redis c) ps r) = Inr (last_written written_job job_id k ps)"
    by (rule loads)
  show "\<exists>js. redis_list_jobs c (fold (run_redis c) ps r) = Inr js
      \<and> set js = {j. \<exists>k. last_written written_job job_id k ps = Some j}"
    unfolding redis_list_jobs_def
    by (rule redis_server.list_of_loads [OF assms(1)])
      (simp add: loads(1) [unfolded redis_load_job_def])
qed

lemma redis_leader_holds_lease:
  assumes "redis_server c" and "fresh_drivers E0"
    and "redis_lease c r0 = None" and "lease_written c r0"
    and "el_reach (redis_acquire_alone c) (redis_renew_alone c) (now0, E0, r0) (now, E, r)"
    and "\<not> stopped (E d)"
    and "renew_tick (redis_acquire_alone c) (redis_renew_alone c) now' (E d) r = (ns, e', r')"
  shows "is_leader e' \<longleftrightarrow> holds_lease (redis_lease c r') e'"
  by (rule lease_store.leads_iff_holds [OF redis_server.redis_lease_laws [OF assms(1)] assms(2-7)])

end
