(* ===== verification/StoreFactory.thy ===== *)
theory StoreFactory
  imports PostgresStore RedisStore
begin

section \<open>Choice of the store (mesh/state/factory.py)\<close>

text \<open>
  \<^verbatim>\<open>create_state_store\<close> reads the kind of store and its address off a URL; the environment
  variable \<^verbatim>\<open>MESH_STATE_URL\<close> is an argument.
\<close>

datatype state_store = SQLiteStore string | PostgresServer string | RedisServer string

definition sqlite_path :: "string \<Rightarrow> string" where
  "sqlite_path dsn =
     (let path =
        if prefix ''sqlite:////'' dsn then ''/'' @ drop (length ''sqlite:////'') dsn
        else if prefix ''sqlite:///'' dsn then drop (length ''sqlite:///'') dsn
        else drop (length ''sqlite://'') dsn
      in if path = [] \<or> path = '':memory:'' \<or> suffix '':memory:'' path then '':memory:'' else path)"

definition create_state_store :: "string option \<Rightarrow> string option \<Rightarrow> state_store result" where
  "create_state_store url env =
     (let dsn = (case url of
                   Some u \<Rightarrow> if u \<noteq> [] then u else (case env of Some e \<Rightarrow> e | None \<Rightarrow> ''sqlite:///clustermesh.db'')
                 | None \<Rightarrow> (case env of Some e \<Rightarrow> e | None \<Rightarrow> ''sqlite:///clustermesh.db''))
      in if prefix ''sqlite://'' dsn then Inr (SQLiteStore (sqlite_path dsn))
         else if prefix ''postgres://'' dsn \<or> prefix ''postgresql://'' dsn then Inr (PostgresServer dsn)
         else if prefix ''redis://'' dsn \<or> prefix ''rediss://'' dsn then Inr (RedisServer dsn)
         else Inl ValueError)"

text \<open>Without a URL it is a file beside the program; an absolute path has four slashes.\<close>

lemma default_store: "create_state_store None None = Inr (SQLiteStore ''clustermesh.db'')"
  by (simp add: create_state_store_def sqlite_path_def suffix_def)

lemma relative_path:
  assumes "p \<noteq> []" and "hd p \<noteq> CHR ''/''" and "\<not> suffix '':memory:'' p"
  shows "create_state_store (Some (''sqlite:///'' @ p)) env = Inr (SQLiteStore p)"
  using assms by (cases p) (auto simp: create_state_store_def sqlite_path_def)

lemma absolute_path:
  assumes "\<not> suffix '':memory:'' (CHR ''/'' # p)"
  shows "create_state_store (Some (''sqlite:////'' @ p)) env = Inr (SQLiteStore (CHR ''/'' # p))"
  using assms by (auto simp: create_state_store_def sqlite_path_def)

text \<open>An empty variable is not the default, and is refused.\<close>

lemma empty_variable: "create_state_store None (Some []) = Inl ValueError"
  by (simp add: create_state_store_def)

end
