(* ===== verification/Libraries.thy ===== *)
theory Libraries
  imports Text Worker DriverService "HOL-Library.Multiset"
begin

section \<open>Libraries (mesh/libraries/manager.py, mesh/driver/library_installer.py)\<close>

text \<open>
  \<^verbatim>\<open>LibraryManager\<close>, which runs pip, and \<^verbatim>\<open>LibraryInstaller\<close>, which installs a package on the driver
  and on agents.  What pip and the agents answer is part of the environment, where an exception
  is an error value.  The code installs on all targets in parallel; here it does so one after
  the other in the order in which they finish, which is an argument: they change the tags of
  different nodes.  A dash in the text of two messages is a hyphen.
\<close>

subsection \<open>Library manager\<close>

record library_manager =
  lib_installed :: "string dict"

text \<open>\<^verbatim>\<open>line.split("==", 1)\<close> on a line with \<^verbatim>\<open>==\<close>.\<close>

fun split_pin :: "string \<Rightarrow> (string \<times> string) option" where
  "split_pin (a # b # s) =
     (if a = CHR ''='' \<and> b = CHR ''='' then Some ([], s)
      else map_option (\<lambda>(n, v). (a # n, v)) (split_pin (b # s)))"
| "split_pin _ = None"

definition scanned :: "string \<Rightarrow> (string \<times> string) list" where
  "scanned out =
     List.map_filter (\<lambda>l. map_option (\<lambda>(n, v). (lower n, v)) (split_pin l))
       (split_on CHR 0x0A (strip out))"

text \<open>The output of \<^verbatim>\<open>pip list\<close>; an exception leaves what is known.\<close>

definition scan_libraries :: "string result \<Rightarrow> library_manager \<Rightarrow> (string \<times> string) list \<times> library_manager" where
  "scan_libraries out m =
     (case out of
        Inl _ \<Rightarrow> (lib_installed m, m)
      | Inr txt \<Rightarrow>
          (scanned txt, m\<lparr>lib_installed := fold (\<lambda>(n, v). dict_set n v) (scanned txt) (lib_installed m)\<rparr>))"

record pip_env =
  pip_install :: "string \<Rightarrow> nat \<Rightarrow> (int \<times> string \<times> string) result"
  pip_list :: "string result"

definition heavy_packages :: "string list" where
  "heavy_packages = [''pyspark'', ''tensorflow'', ''torch'', ''torchvision'', ''torchaudio'']"

definition pip_spec :: "string \<Rightarrow> string \<Rightarrow> string" where
  "pip_spec package ver =
     (if lower ver \<in> {''latest'', ''*'', []} then package else package @ ''=='' @ ver)"

definition pyspark_hint :: string where
  "pyspark_hint = [CHR 0x0A, CHR 0x0A] @
     ''PySpark tips: install Java 11+ on the worker '' @
     ''(brew install openjdk@17), ensure pip can reach PyPI, '' @
     ''and retry: pip install pyspark''"

definition install_package ::
  "pip_env \<Rightarrow> string \<Rightarrow> string \<Rightarrow> (library_manager, (string \<times> string) \<times> string) py" where
  "install_package env package version m =
     (let ver = strip version;
          timeout = (if lower package \<in> set heavy_packages then 900 else 300)
      in case pip_install env (pip_spec package ver) timeout of
           Inl e \<Rightarrow> (Inl e, m)
         | Inr (code, out, err) \<Rightarrow>
             let txt = join_with [CHR 0x0A] (filter (\<lambda>s. s \<noteq> []) [strip out, strip err])
             in if code \<noteq> 0
                then (Inl (RuntimeError ((if txt = [] then ''pip install failed (exit '' @ int_text code @ '')'' else txt)
                        @ (if lower package = ''pyspark'' then pyspark_hint else []))), m)
                else
                  let m1 = snd (scan_libraries (pip_list env) m);
                      name = lower package;
                      version' = (case dict_get (lib_installed m1) name of
                                    Some v \<Rightarrow> v
                                  | None \<Rightarrow> if ver = [] then ''latest'' else ver)
                  in (Inr ((name, version'), txt),
                      m1\<lparr>lib_installed := dict_set name version' (lib_installed m1)\<rparr>))"

definition list_names :: "string result \<Rightarrow> library_manager \<Rightarrow> string list \<times> library_manager" where
  "list_names out m =
     (let m1 = (if lib_installed m = [] then snd (scan_libraries out m) else m)
      in (sort (remdups (dict_keys (lib_installed m1))), m1))"

definition has_library :: "string result \<Rightarrow> string \<Rightarrow> library_manager \<Rightarrow> bool \<times> library_manager" where
  "has_library out name m =
     (let m1 = (if lib_installed m = [] then snd (scan_libraries out m) else m)
      in (dict_get (lib_installed m1) (lower name) \<noteq> None, m1))"

subsection \<open>Targets\<close>

record ('c) installer =
  in_cluster :: "'c"
  in_bus :: event_bus
  in_events :: nat
  in_libraries :: library_manager
  in_router :: pool_router

text \<open>A target: the driver, or an agent by its node; the second part is the host.\<close>

datatype target_kind = OnDriver | OnAgent string

type_synonym install_target = "target_kind \<times> string"

record install_env =
  i_now :: real
  i_hour :: int
  i_host :: string
  i_id :: string
  i_stamp :: "nat \<Rightarrow> string \<times> string"
  i_pip :: pip_env
  i_remote :: "string \<Rightarrow> string \<Rightarrow> string \<Rightarrow> (bool \<times> string) result"
  i_handle :: "string \<Rightarrow> string"
  i_text :: "py_error \<Rightarrow> string"
  i_order :: "install_target list \<Rightarrow> install_target list"

definition pool_filter :: "string \<Rightarrow> resource_pool option" where
  "pool_filter pool =
     (if pool = [] \<or> lower pool \<in> {''all'', []} then None
      else case pool_of (upper pool) of Inl _ \<Rightarrow> None | Inr p \<Rightarrow> Some p)"

definition resolve_targets ::
  "install_env \<Rightarrow> string \<Rightarrow> string list option \<Rightarrow> bool \<Rightarrow> 'a cluster_scheme installer
     \<Rightarrow> install_target list \<times> 'a cluster_scheme installer" where
  "resolve_targets env pool node_ids include_driver s =
     (case live_nodes (i_now env) (in_cluster s) of (live, c) \<Rightarrow>
        let named = (case node_ids of
                       Some (i # is) \<Rightarrow> filter (\<lambda>n. node_id n \<in> set (i # is)) live
                     | _ \<Rightarrow> live);
            ns = (case pool_filter pool of
                    None \<Rightarrow> named
                  | Some p \<Rightarrow> eligible_nodes (in_router s) (i_hour env) named (Some p));
            agents = map (\<lambda>n. (OnAgent (node_id n), hostname n))
              (filter (\<lambda>n. node_state n \<noteq> DEAD \<and> get_remote (node_id n) c \<noteq> None) ns)
        in ((if include_driver \<and> i_host env \<notin> hostname ` set ns then [(OnDriver, i_host env)] else [])
              @ agents, s\<lparr>in_cluster := c\<rparr>))"

subsection \<open>Installation\<close>

record target_result =
  tr_target :: string
  tr_hostname :: string
  tr_ok :: bool
  tr_message :: string
  tr_log :: string

definition target_result_to_dict :: "target_result \<Rightarrow> pyval dict" where
  "target_result_to_dict r =
     [(''target'', PStr (tr_target r)), (''hostname'', PStr (tr_hostname r)),
      (''ok'', PBool (tr_ok r)), (''message'', PStr (tr_message r)), (''log'', PStr (tr_log r))]"

definition tell :: "install_env \<Rightarrow> log_level \<Rightarrow> string \<Rightarrow> pyval dict \<Rightarrow> 'c installer \<Rightarrow> 'c installer" where
  "tell env l message metadata s =
     (case i_stamp env (in_events s) of (eid, ts) \<Rightarrow>
        s\<lparr>in_bus := publish (create_event eid ts l ''libraries'' message
                     (Some ((''install_id'', PStr (i_id env)) # metadata))) (in_bus s),
          in_events := in_events s + 1\<rparr>)"

text \<open>The packages a tag names, and the tag with one more.\<close>

definition tag_libraries :: "string \<Rightarrow> string list" where
  "tag_libraries raw = map (\<lambda>p. lower (strip p)) (filter (\<lambda>p. strip p \<noteq> []) (split_on CHR '','' raw))"

definition merge_library_tag :: "string \<Rightarrow> string \<Rightarrow> 'a cluster_scheme \<Rightarrow> 'a cluster_scheme" where
  "merge_library_tag nid package c =
     (case get_node nid c of
        None \<Rightarrow> c
      | Some n \<Rightarrow>
          let libs = sort (remdups (lower package # tag_libraries (dict_get_default (tags n) ''libraries'' [])))
          in c\<lparr>nodes := dict_set nid (n\<lparr>tags := dict_set ''libraries'' (join_with '','' libs) (tags n)\<rparr>)
                (nodes c)\<rparr>)"

definition or_text :: "string \<Rightarrow> string \<Rightarrow> string" where
  "or_text s d = (if s = [] then d else s)"

fun run_one ::
  "install_env \<Rightarrow> string \<Rightarrow> string \<Rightarrow> install_target \<Rightarrow> 'a cluster_scheme installer
     \<Rightarrow> target_result \<times> 'a cluster_scheme installer" where
  "run_one env pkg ver (OnDriver, host) s =
     (let s1 = tell env INFO (''Starting pip install on '' @ host @ '' (driver)'')
                 [(''target'', PStr ''driver''), (''hostname'', PStr host)] s
      in case install_package (i_pip env) pkg ver (in_libraries s1) of
           (Inl e, m) \<Rightarrow>
             (\<lparr>tr_target = ''driver'', tr_hostname = host, tr_ok = False, tr_message = i_text env e,
               tr_log = i_text env e\<rparr>,
              tell env ERROR (''Failed on '' @ host @ '' (driver): '' @ i_text env e)
                [(''target'', PStr ''driver'')] (s1\<lparr>in_libraries := m\<rparr>))
         | (Inr ((name, v), txt), m) \<Rightarrow>
             let msg = ''Installed '' @ name @ '' '' @ v
             in (\<lparr>tr_target = ''driver'', tr_hostname = host, tr_ok = True, tr_message = msg, tr_log = txt\<rparr>,
                 tell env INFO (''Success on driver: '' @ msg) [(''target'', PStr ''driver'')]
                   (s1\<lparr>in_libraries := m\<rparr>)))"
| "run_one env pkg ver (OnAgent nid, host) s =
     (let s1 = tell env INFO (''Starting pip install on '' @ host @ '' (agent)'')
                 [(''target'', PStr ''agent''), (''hostname'', PStr host)] s
      in case i_remote env nid pkg ver of
           Inl e \<Rightarrow>
             (\<lparr>tr_target = i_handle env nid, tr_hostname = host, tr_ok = False, tr_message = i_text env e,
               tr_log = i_text env e\<rparr>,
              tell env ERROR (''Failed on '' @ host @ '' (agent): '' @ i_text env e)
                [(''target'', PStr ''agent'')] s1)
         | Inr (True, txt) \<Rightarrow>
             (\<lparr>tr_target = nid, tr_hostname = host, tr_ok = True, tr_message = or_text txt ''installed'',
               tr_log = txt\<rparr>,
              tell env INFO (''Success on '' @ host @ '': '' @ take 200 txt)
                [(''target'', PStr nid), (''node_id'', PStr nid)]
                (s1\<lparr>in_cluster := merge_library_tag nid pkg (in_cluster s1)\<rparr>))
         | Inr (False, txt) \<Rightarrow>
             (\<lparr>tr_target = nid, tr_hostname = host, tr_ok = False,
               tr_message = or_text txt ''install failed'', tr_log = txt\<rparr>,
              tell env ERROR (''Failed on '' @ host @ '': '' @ take 300 txt) [(''target'', PStr nid)] s1))"

fun run_targets ::
  "install_env \<Rightarrow> string \<Rightarrow> string \<Rightarrow> nat \<Rightarrow> install_target list \<Rightarrow> nat \<Rightarrow> 'a cluster_scheme installer
     \<Rightarrow> target_result list \<times> 'a cluster_scheme installer" where
  "run_targets env pkg ver cnt [] completed s = ([], s)"
| "run_targets env pkg ver cnt (x # xs) completed s =
     (case run_one env pkg ver x s of (r, s1) \<Rightarrow>
        let step = completed + 1;
            s2 = tell env INFO
              (''Progress '' @ nat_digits step @ ''/'' @ nat_digits cnt @ '' - ''
                 @ (if tr_ok r then ''ok'' else ''failed'') @ '' on '' @ tr_hostname r)
              [(''step'', PInt (int step)), (''total'', PInt (int cnt))] s1
        in case run_targets env pkg ver cnt xs step s2 of (rs, s3) \<Rightarrow> (r # rs, s3))"

text \<open>The version asked for, empty for the newest.\<close>

definition wanted_version :: "string \<Rightarrow> string" where
  "wanted_version version =
     (let ver = strip version in if lower ver \<in> {''latest'', ''*''} then [] else ver)"

definition install_answer :: "install_env \<Rightarrow> bool \<Rightarrow> string \<Rightarrow> string \<Rightarrow> pyval dict" where
  "install_answer env ok pkg ver =
     [(''ok'', PBool ok), (''install_id'', PStr (i_id env)), (''package'', PStr pkg),
      (''version'', PStr (or_text ver ''latest''))]"

definition install_on ::
  "install_env \<Rightarrow> string \<Rightarrow> string \<Rightarrow> install_target list \<Rightarrow> 'a cluster_scheme installer
     \<Rightarrow> pyval dict \<times> 'a cluster_scheme installer" where
  "install_on env pkg ver targets s =
     (let cnt = length targets in
      case run_targets env pkg ver cnt (i_order env targets) 0 s of (results, s1) \<Rightarrow>
        let ok_count = length (filter tr_ok results);
            all_ok = (ok_count = cnt);
            summary = ''Installed on '' @ nat_digits ok_count @ ''/'' @ nat_digits cnt @ '' targets''
        in (install_answer env all_ok pkg ver @
              [(''total_targets'', PInt (int cnt)),
               (''results'', PList (map (\<lambda>r. PDict (target_result_to_dict r)) results)),
               (''message'', PStr summary)],
            tell env (if all_ok then INFO else WARN) summary [(''package'', PStr pkg)] s1))"

definition install ::
  "install_env \<Rightarrow> string \<Rightarrow> string \<Rightarrow> string \<Rightarrow> bool \<Rightarrow> string list option \<Rightarrow> 'a cluster_scheme installer
     \<Rightarrow> pyval dict \<times> 'a cluster_scheme installer" where
  "install env package version pool include_driver node_ids s =
     (let pkg = strip package;
          ver = wanted_version version
      in case resolve_targets env pool node_ids include_driver s of (targets, s0) \<Rightarrow>
           let cnt = length targets;
               s1 = tell env INFO (''Installing '' @ pkg @ (if ver = [] then [] else ''=='' @ ver) @ '' on ''
                      @ nat_digits cnt @ '' target(s)'')
                      [(''package'', PStr pkg), (''version'', PStr (or_text ver ''latest'')),
                       (''total'', PInt (int cnt))] s0
           in if cnt = 0
              then (install_answer env False pkg ver @
                     [(''results'', PList []),
                      (''message'', PStr ''No targets available - start mesh-agent or enable driver install'')],
                    tell env WARN ''No install targets available'' [] s1)
              else install_on env pkg ver targets s1)"

definition driver_library_names :: "string result \<Rightarrow> 'c installer \<Rightarrow> string list \<times> 'c installer" where
  "driver_library_names out s =
     (case list_names out (in_libraries s) of (ns, m) \<Rightarrow>
        (remdups (map lower ns), s\<lparr>in_libraries := m\<rparr>))"

subsection \<open>Names in a tag\<close>

definition lower_char :: "char \<Rightarrow> char" where
  "lower_char c = (if is_upper c then char_of (of_char c + (32::nat)) else c)"

lemma lower_map: "lower s = map lower_char s"
  by (simp add: lower_def lower_char_def)

lemma lower_char_code: "of_char (lower_char c) = (if is_upper c then of_char c + 32 else of_char c :: nat)"
  by (simp add: lower_char_def is_upper_def)

lemma lower_char_upper [simp]: "\<not> is_upper (lower_char c)"
  by (simp only: is_upper_def lower_char_code) (auto simp: is_upper_def)

lemma lower_char_space [simp]: "is_space (lower_char c) = is_space c"
  by (simp only: is_space_def lower_char_code) (auto simp: is_upper_def)

lemma lower_char_comma [simp]: "lower_char c = CHR '','' \<longleftrightarrow> c = CHR '',''"
proof -
  have "of_char (lower_char c) = (44::nat) \<longleftrightarrow> of_char c = (44::nat)"
    by (simp only: lower_char_code) (auto simp: is_upper_def)
  moreover have "d = CHR '','' \<longleftrightarrow> of_char d = (44::nat)" for d
    using of_char_eq_iff [of d "CHR '',''", where ?'a = nat] by simp
  ultimately show ?thesis
    by simp
qed

lemma lower_lower [simp]: "lower (lower s) = lower s"
proof -
  have "lower_char (lower_char c) = lower_char c" for c
    using lower_char_upper [of c] by (subst lower_char_def) simp
  then show ?thesis
    by (simp add: lower_map)
qed

lemma lower_Nil [simp]: "lower s = [] \<longleftrightarrow> s = []"
  by (simp add: lower_map)

lemma comma_lower [simp]: "CHR '','' \<in> set (lower s) \<longleftrightarrow> CHR '','' \<in> set s"
proof -
  have "CHR '','' = lower_char c \<longleftrightarrow> c = CHR '',''" for c
    using lower_char_comma [of c] by metis
  then show ?thesis
    by (auto simp: lower_map image_iff)
qed

lemma strip_lower: "strip (lower s) = lower (strip s)"
proof -
  have "is_space \<circ> lower_char = is_space"
    by (simp add: fun_eq_iff)
  then show ?thesis
    by (simp add: strip_def lower_map dropWhile_map rev_map)
qed

lemma strip_strip [simp]: "strip (strip s) = strip s"
proof -
  let ?d = "dropWhile is_space"
  have front: "?d (rev (?d (rev u))) = rev (?d (rev u))" if "?d u = u" for u
  proof (cases "rev (?d (rev u))")
    case Nil
    then show ?thesis by (simp only: dropWhile.simps)
  next
    case (Cons x xs)
    have "u = rev (?d (rev u)) @ rev (takeWhile is_space (rev u))"
      by (metis rev_append rev_rev_ident takeWhile_dropWhile_id)
    then have "hd u = x" and "u \<noteq> []"
      unfolding Cons by (metis append_Cons list.sel(1), metis append_Cons list.simps(3))
    then have "\<not> is_space x"
      using that by (metis hd_dropWhile)
    then show ?thesis
      unfolding Cons by simp
  qed
  have "?d (?d s) = ?d s"
    by (rule dropWhile_idem)
  from front [OF this] show ?thesis
    by (simp add: strip_def)
qed

lemma set_split_on: "w \<in> set (split_on c s) \<Longrightarrow> c \<notin> set w \<and> set w \<subseteq> set s"
proof (induction s arbitrary: w)
  case (Cons x s)
  then show ?case
    by (cases "split_on c s") (fastforce split: if_splits)+
qed simp

lemma set_strip: "set (strip s) \<subseteq> set s"
  unfolding strip_def by (auto dest!: set_dropWhileD)

text \<open>A name without comma, trimmed and not empty.\<close>

definition plain_name :: "string \<Rightarrow> bool" where
  "plain_name p \<longleftrightarrow> p \<noteq> [] \<and> strip p = p \<and> CHR '','' \<notin> set p"

lemma tag_names_plain: "w \<in> set (tag_libraries raw) \<Longrightarrow> plain_name w \<and> lower w = w"
  using set_split_on [of _ "CHR '',''" raw] set_strip
  by (fastforce simp: tag_libraries_def plain_name_def strip_lower)

lemma tag_of_names:
  assumes "ws \<noteq> []" and "\<forall>w \<in> set ws. plain_name w \<and> lower w = w"
  shows "tag_libraries (join_with '','' ws) = ws"
proof -
  have "split_on CHR '','' (join_with '','' ws) = ws"
    using assms by (intro split_join) (auto simp: plain_name_def)
  moreover have "filter (\<lambda>p. strip p \<noteq> []) ws = ws" and "map (\<lambda>p. lower (strip p)) ws = ws"
    using assms(2) by (auto simp: plain_name_def filter_id_conv intro: map_idI)
  ultimately show ?thesis
    by (simp add: tag_libraries_def)
qed

text \<open>The libraries a node is known to have.\<close>

definition libraries_of :: "node \<Rightarrow> string set" where
  "libraries_of n = set (tag_libraries (dict_get_default (tags n) ''libraries'' []))"

definition with_library :: "string \<Rightarrow> node \<Rightarrow> node" where
  "with_library pkg n =
     n\<lparr>tags := dict_set ''libraries'' (join_with '','' (sort (remdups (lower pkg #
        tag_libraries (dict_get_default (tags n) ''libraries'' []))))) (tags n)\<rparr>"

lemma get_merged:
  "dict_get (nodes (merge_library_tag nid pkg c)) nid' =
     (if nid' = nid then map_option (with_library pkg) (dict_get (nodes c) nid)
      else dict_get (nodes c) nid')"
  by (simp add: merge_library_tag_def get_node_def with_library_def Let_def split: option.split)

lemma libraries_of_with:
  assumes "plain_name pkg"
  shows "libraries_of (with_library pkg n) = insert (lower pkg) (libraries_of n)"
proof -
  let ?old = "tag_libraries (dict_get_default (tags n) ''libraries'' [])"
  let ?ws = "sort (remdups (lower pkg # ?old))"
  have "plain_name (lower pkg)"
    using assms by (simp add: plain_name_def strip_lower)
  then have "\<forall>w \<in> set ?ws. plain_name w \<and> lower w = w"
    using tag_names_plain [of _ "dict_get_default (tags n) ''libraries'' []"]
    by (simp only: set_sort set_remdups list.set) (simp add: ball_Un)
  moreover have "set ?ws \<noteq> {}"
    by (simp only: set_sort set_remdups) simp
  then have "?ws \<noteq> []"
    by (metis set_empty)
  ultimately have "tag_libraries (join_with '','' ?ws) = ?ws"
    by (intro tag_of_names)
  moreover have "libraries_of (with_library pkg n) = set (tag_libraries (join_with '','' ?ws))"
    by (simp add: libraries_of_def with_library_def)
  ultimately show ?thesis
    by (simp only: libraries_of_def set_sort set_remdups list.set)
qed

subsection \<open>What an installation does\<close>

definition agent_ok :: "install_env \<Rightarrow> string \<Rightarrow> string \<Rightarrow> string \<Rightarrow> bool" where
  "agent_ok env pkg ver nid = (case i_remote env nid pkg ver of Inr (b, _) \<Rightarrow> b | Inl _ \<Rightarrow> False)"

definition driver_ok :: "install_env \<Rightarrow> string \<Rightarrow> string \<Rightarrow> bool" where
  "driver_ok env pkg ver =
     (case pip_install (i_pip env) (pip_spec pkg (strip ver)) (if lower pkg \<in> set heavy_packages then 900 else 300) of
        Inr (code, _) \<Rightarrow> code = 0
      | Inl _ \<Rightarrow> False)"

fun target_ok :: "install_env \<Rightarrow> string \<Rightarrow> string \<Rightarrow> install_target \<Rightarrow> bool" where
  "target_ok env pkg ver (OnDriver, h) = driver_ok env pkg ver"
| "target_ok env pkg ver (OnAgent nid, h) = agent_ok env pkg ver nid"

definition served :: "install_env \<Rightarrow> string \<Rightarrow> string \<Rightarrow> install_target list \<Rightarrow> string \<Rightarrow> bool" where
  "served env pkg ver xs nid \<longleftrightarrow> (\<exists>h. (OnAgent nid, h) \<in> set xs) \<and> agent_ok env pkg ver nid"

lemma tell_frame [simp]:
  "in_cluster (tell env l msg md s) = in_cluster s"
  "in_libraries (tell env l msg md s) = in_libraries s"
  by (simp_all add: tell_def split: prod.split)

lemma install_package_ok:
  "(\<exists>x. fst (install_package (i_pip env) pkg ver m) = Inr x) \<longleftrightarrow> driver_ok env pkg ver"
proof (cases "pip_install (i_pip env) (pip_spec pkg (strip ver)) (if lower pkg \<in> set heavy_packages then 900 else 300)")
  case (Inr r)
  then show ?thesis
    by (cases r; cases "fst r = 0") (simp_all add: install_package_def driver_ok_def Let_def)
qed (simp add: install_package_def driver_ok_def Let_def)

lemma run_one_ok: "tr_ok (fst (run_one env pkg ver x s)) = target_ok env pkg ver x"
proof (cases x)
  case (Pair kind h)
  show ?thesis
  proof (cases kind)
    case OnDriver
    then show ?thesis
      using install_package_ok [of env pkg ver "in_libraries s", symmetric] Pair
      by (simp add: Let_def split: sum.split prod.split)
  next
    case (OnAgent nid)
    then show ?thesis
      using Pair by (simp add: agent_ok_def Let_def split: sum.split prod.split bool.split)
  qed
qed

lemma run_one_nodes:
  "dict_get (nodes (in_cluster (snd (run_one env pkg ver x s)))) nid =
     (if served env pkg ver [x] nid then map_option (with_library pkg) (dict_get (nodes (in_cluster s)) nid)
      else dict_get (nodes (in_cluster s)) nid)"
  by (cases x; cases "fst x")
    (auto simp: served_def agent_ok_def get_merged Let_def split: sum.splits prod.splits bool.splits)

lemma run_targets_ok:
  "map tr_ok (fst (run_targets env pkg ver n xs k s)) = map (target_ok env pkg ver) xs"
proof (induction xs arbitrary: k s)
  case (Cons x xs)
  have "fst (run_targets env pkg ver n (x # xs) k s) =
      fst (run_one env pkg ver x s) # fst (run_targets env pkg ver n xs (k + 1) s')"
    if "s' = snd (run_targets env pkg ver n [x] k s)" for s'
    using that by (simp add: Let_def split: prod.split)
  then show ?case
    by (simp add: Cons.IH run_one_ok)
qed simp

text \<open>An installation on targets keeps every node and adds the package where it succeeded.\<close>

lemma run_targets_nodes:
  assumes "plain_name pkg" and "dict_get (nodes (in_cluster s)) nid = Some n"
  shows "\<exists>n'. dict_get (nodes (in_cluster (snd (run_targets env pkg ver m xs k s)))) nid = Some n'
    \<and> n'\<lparr>tags := tags n\<rparr> = n
    \<and> libraries_of n' = (if served env pkg ver xs nid then insert (lower pkg) (libraries_of n) else libraries_of n)"
  using assms(2)
proof (induction xs arbitrary: k s n)
  case Nil
  then show ?case by (simp add: served_def)
next
  case (Cons x xs)
  obtain r s1 where one: "run_one env pkg ver x s = (r, s1)" by fastforce
  define n1 where "n1 = (if served env pkg ver [x] nid then with_library pkg n else n)"
  have n1: "dict_get (nodes (in_cluster s1)) nid = Some n1"
    using run_one_nodes [of env pkg ver x s nid] one Cons.prems by (simp add: n1_def)
  have same: "n1\<lparr>tags := tags n\<rparr> = n"
    and libs: "libraries_of n1 = (if served env pkg ver [x] nid then insert (lower pkg) (libraries_of n) else libraries_of n)"
    using libraries_of_with [OF assms(1), of n] by (simp_all add: n1_def with_library_def)
  let ?s2 = "tell env INFO
      (''Progress '' @ nat_digits (k + 1) @ ''/'' @ nat_digits m @ '' - ''
         @ (if tr_ok r then ''ok'' else ''failed'') @ '' on '' @ tr_hostname r)
      [(''step'', PInt (int (k + 1))), (''total'', PInt (int m))] s1"
  have "dict_get (nodes (in_cluster ?s2)) nid = Some n1"
    using n1 by simp
  from Cons.IH [OF this, of "k + 1"] obtain n' where n':
    "dict_get (nodes (in_cluster (snd (run_targets env pkg ver m xs (k + 1) ?s2)))) nid = Some n'"
    "n'\<lparr>tags := tags n1\<rparr> = n1"
    "libraries_of n' = (if served env pkg ver xs nid then insert (lower pkg) (libraries_of n1) else libraries_of n1)"
    by blast
  have "snd (run_targets env pkg ver m (x # xs) k s) = snd (run_targets env pkg ver m xs (k + 1) ?s2)"
    by (simp add: one Let_def split: prod.split)
  moreover have "n'\<lparr>tags := tags n\<rparr> = n"
    using n'(2) same by (metis node.update_convs(10) node.surjective)
  moreover have "served env pkg ver (x # xs) nid \<longleftrightarrow> served env pkg ver [x] nid \<or> served env pkg ver xs nid"
    by (auto simp: served_def)
  ultimately show ?case
    using n' libs by auto
qed

lemma resolved_nodes: "resolve_targets env pool ids incl s = (targets, s0) \<Longrightarrow>
    nodes (in_cluster s0) = nodes (in_cluster s)"
proof -
  assume resolved: "resolve_targets env pool ids incl s = (targets, s0)"
  obtain live c where live: "live_nodes (i_now env) (in_cluster s) = (live, c)"
    by fastforce
  have "nodes c = nodes (in_cluster s)"
    using live_nodes_frame(2) live by (metis snd_conv)
  then show ?thesis
    using resolved live by (auto simp: resolve_targets_def Let_def)
qed

lemma count_true: "length (filter id (map f xs)) = length (filter f xs)"
  by (induction xs) auto

lemma all_counted: "length (filter P xs) = length xs \<longleftrightarrow> (\<forall>x \<in> set xs. P x)"
  by (metis filter_True filter_id_conv length_filter_less order_less_irrefl)


definition sample_install_env :: "string \<Rightarrow> install_env" where
  "sample_install_env host =
     \<lparr>i_now = 1, i_hour = 12, i_host = host, i_id = ''i'', i_stamp = (\<lambda>k. (''e'', ''ts'')),
      i_pip = \<lparr>pip_install = (\<lambda>spec timeout. Inr (1, [], ''no network'')), pip_list = Inr []\<rparr>,
      i_remote = (\<lambda>nid pkg ver. Inr (True, [])), i_handle = (\<lambda>nid. nid), i_text = (\<lambda>e. ''error''),
      i_order = rev\<rparr>"

definition sample_installer :: "cluster installer" where
  "sample_installer =
     \<lparr>in_cluster = register_node 0 (sample_node ''a'' 4) (Some ''host-a'') (new_cluster 2),
      in_bus = new_bus 10, in_events = 0, in_libraries = \<lparr>lib_installed = []\<rparr>,
      in_router = default_router\<rparr>"


end
