(* ===== verification/Auth.thy ===== *)
theory Auth
  imports Text Prelude "HOL-Library.Sublist"
begin

section \<open>Authentication (mesh/api/auth.py)\<close>

text \<open>
  \<^verbatim>\<open>AuthConfig\<close>, the key a request carries, and the middleware.  Environment variables and
  request headers are functions; header names are those the code asks for.  The context variable
  with the tenant is a state; the rest of the application is an argument that reads it.
\<close>

record auth_config =
  api_key :: "string option"
  auth_enabled :: bool

definition auth_from_env :: "(string \<Rightarrow> string option) \<Rightarrow> auth_config" where
  "auth_from_env env =
     (let key = env ''MESH_API_KEY'';
          flag = lower (case env ''MESH_AUTH_ENABLED'' of None \<Rightarrow> [] | Some v \<Rightarrow> v) \<in> {''1'', ''true'', ''yes''}
      in \<lparr>api_key = key, auth_enabled = (flag \<or> (key \<noteq> None \<and> key \<noteq> Some []))\<rparr>)"

text \<open>The comparison in constant time refuses text that is not ASCII.\<close>

definition ascii :: "string \<Rightarrow> bool" where
  "ascii s \<longleftrightarrow> list_all (\<lambda>c. of_char c < (128::nat)) s"

definition compare_digest :: "string \<Rightarrow> string \<Rightarrow> bool result" where
  "compare_digest a b = (if ascii a \<and> ascii b then Inr (a = b) else Inl TypeError)"

definition validate_key :: "auth_config \<Rightarrow> string option \<Rightarrow> bool result" where
  "validate_key cfg provided =
     (if \<not> auth_enabled cfg then Inr True
      else case (api_key cfg, provided) of
             (Some (k # ks), Some (p # ps)) \<Rightarrow> compare_digest (p # ps) (k # ks)
           | _ \<Rightarrow> Inr False)"

record request =
  rq_path :: string
  rq_header :: "string \<Rightarrow> string option"

definition extract_api_key :: "request \<Rightarrow> string option" where
  "extract_api_key q =
     (let auth = (case rq_header q ''Authorization'' of None \<Rightarrow> [] | Some v \<Rightarrow> v)
      in if prefix ''bearer '' (lower auth) then Some (strip (drop 7 auth))
         else rq_header q ''X-API-Key'')"

datatype 'a response = Unauthorized | Passed 'a

text \<open>
  The refusal leaves the tenant of the request in the context variable, the normal way out puts
  back what was there, also when the application raises.
\<close>

definition auth_dispatch ::
  "auth_config \<Rightarrow> request \<Rightarrow> (string option \<Rightarrow> 'a result) \<Rightarrow> string option \<Rightarrow> 'a response result \<times> string option" where
  "auth_dispatch cfg q call_next tenant_before =
     (let tenant = rq_header q ''X-Tenant-Id'' in
      case (if prefix ''/api/'' (rq_path q) \<and> auth_enabled cfg
            then validate_key cfg (extract_api_key q) else Inr True) of
        Inl e \<Rightarrow> (Inl e, tenant)
      | Inr False \<Rightarrow> (Inr Unauthorized, tenant)
      | Inr True \<Rightarrow> (ebind (call_next tenant) (\<lambda>x. Inr (Passed x)), tenant_before))"

subsection \<open>The gate\<close>

lemma validate_key_iff:
  assumes "auth_enabled cfg"
  shows "validate_key cfg p = Inr True \<longleftrightarrow> (\<exists>k. api_key cfg = Some k \<and> k \<noteq> [] \<and> ascii k \<and> p = Some k)"
  using assms by (auto simp: validate_key_def compare_digest_def split: option.splits list.splits if_splits)

text \<open>A key in the environment switches authentication on; a flag alone locks everybody out.\<close>

lemma key_enables: "env ''MESH_API_KEY'' = Some k \<Longrightarrow> k \<noteq> [] \<Longrightarrow> auth_enabled (auth_from_env env)"
  by (simp add: auth_from_env_def Let_def)

lemma flag_without_key:
  assumes "env ''MESH_API_KEY'' \<in> {None, Some []}" and "auth_enabled (auth_from_env env)"
  shows "validate_key (auth_from_env env) p = Inr False"
  using assms by (auto simp: validate_key_def auth_from_env_def Let_def split: option.split list.split)


definition sample_request_with :: "string \<Rightarrow> request" where
  "sample_request_with key =
     \<lparr>rq_path = ''/api/v1/jobs'',
      rq_header = (\<lambda>h. if h = ''Authorization'' then Some (''Bearer '' @ key) else None)\<rparr>"


end
