(* ===== verification/Monitor.thy ===== *)
theory Monitor
  imports Text DriverService
begin

section \<open>Monitor of the host (mesh/agent/monitor.py, mesh/agent/host_metrics.py)\<close>

text \<open>
  \<^verbatim>\<open>ResourceMonitor\<close> with its cache and its moving average, and the document of host metrics it
  attaches to a snapshot.  What the operating system answers is a record of readings; a
  subprocess that fails or prints nothing useful is \<open>None\<close>.  The caches of \<^verbatim>\<open>host_metrics.py\<close>,
  module variables there, are a record that is passed along.
\<close>

subsection \<open>Readings of the host\<close>

record cpu_times =
  t_user :: real
  t_system :: real
  t_idle :: real

text \<open>A process of an iteration; \<open>pr_gone\<close> when reading its figures raises.\<close>

record process =
  p_pid :: int
  p_name :: string
  p_threads :: int
  p_cpu_pct :: real
  p_rss :: int
  p_gone_at_prime :: bool
  p_gone :: bool

text \<open>
  \<open>h_psutil\<close> is false when the package is missing.  \<open>h_processes\<close> is \<open>None\<close> when the iteration
  raises.  \<open>h_nvidia\<close> and \<open>h_chipsets\<close> are what the two programs print, \<open>h_hid_idle\<close> the
  nanoseconds \<^verbatim>\<open>ioreg\<close> names, \<open>h_pages\<close> the lines of \<^verbatim>\<open>vm_stat\<close> as names and counts.
\<close>

record host =
  h_psutil :: bool
  h_system :: string
  h_release :: string
  h_brand :: string
  h_logical :: "int option"
  h_physical :: "int option"
  h_cpu_percent :: real
  h_times :: cpu_times
  h_load_avg :: "real list"
  h_mem_total :: int
  h_mem_available :: int
  h_mem_used :: int
  h_mem_percent :: real
  h_swap_used :: int
  h_battery :: "real option"
  h_hid_idle :: "nat option"
  h_nvidia :: "string option"
  h_chipsets :: "string list"
  h_page_size :: "int option"
  h_pages :: "int dict option"
  h_thread_counts :: "int list"
  h_processes :: "process list option"
  h_monotonic :: real
  h_time :: real

definition gib :: "int \<Rightarrow> real" where
  "gib b = of_int b / 1024 ^ 3"

text \<open>\<^verbatim>\<open>cpu_count(logical=True) or 1\<close>, and \<^verbatim>\<open>cpu_count(logical=False) or logical\<close>.\<close>

definition or_int :: "int option \<Rightarrow> int \<Rightarrow> int" where
  "or_int x d = (case x of None \<Rightarrow> d | Some n \<Rightarrow> if n = 0 then d else n)"

definition logical_cores :: "host \<Rightarrow> int" where
  "logical_cores h = or_int (h_logical h) 1"

definition physical_cores :: "host \<Rightarrow> int" where
  "physical_cores h = or_int (h_physical h) (logical_cores h)"

subsection \<open>Host metrics\<close>

record host_cache =
  hc_primed :: bool
  hc_processes :: "pyval list"
  hc_processes_at :: real
  hc_gpu :: "pyval dict option"

definition new_cache :: host_cache where
  "new_cache = \<lparr>hc_primed = False, hc_processes = [], hc_processes_at = 0, hc_gpu = None\<rparr>"

definition process_entry :: "process \<Rightarrow> pyval" where
  "process_entry p =
     PDict [(''pid'', PInt (p_pid p)), (''name'', PStr (p_name p)),
            (''cpu_pct'', PFloat (py_round 1 (p_cpu_pct p))), (''threads'', PInt (p_threads p)),
            (''memory_mb'', PFloat (py_round 1 (of_int (p_rss p) / 1024 ^ 2)))]"

definition top_processes :: "bool \<Rightarrow> process list \<Rightarrow> pyval list" where
  "top_processes primed ps =
     (let candidates = filter (\<lambda>p. primed \<or> \<not> p_gone_at_prime p) ps;
          seen = filter (\<lambda>p. \<not> p_gone p) candidates
      in take 12 (map process_entry (sort_key (\<lambda>p. - py_round 1 (p_cpu_pct p)) seen)))"

definition process_stats :: "real \<Rightarrow> host \<Rightarrow> host_cache \<Rightarrow> pyval dict \<times> host_cache" where
  "process_stats interval h c =
     (let now = h_monotonic h;
          c1 = (if now - hc_processes_at c < interval \<and> hc_processes c \<noteq> [] then c
                else case h_processes h of
                       None \<Rightarrow> c
                     | Some ps \<Rightarrow> c\<lparr>hc_primed := True, hc_processes := top_processes (hc_primed c) ps,
                                    hc_processes_at := now\<rparr>)
      in ([(''total'', PInt (int (length (h_thread_counts h)))),
           (''threads_total'', PInt (sum_list (h_thread_counts h))),
           (''top'', PList (hc_processes c1))], c1))"

definition gpu_info :: "host \<Rightarrow> host_cache \<Rightarrow> pyval dict \<times> host_cache" where
  "gpu_info h c =
     (case hc_gpu c of
        Some d \<Rightarrow> (d, c)
      | None \<Rightarrow>
          let names = (if h_system h = ''Darwin'' then h_chipsets h else []);
              d = (case names of
                     [] \<Rightarrow> [(''count'', PInt 0), (''names'', PList []), (''name'', PStr [])]
                   | n # _ \<Rightarrow> [(''count'', PInt (int (length names))),
                               (''names'', PList (map PStr names)), (''name'', PStr n)])
          in (d, c\<lparr>hc_gpu := Some d\<rparr>))"

definition darwin_memory_breakdown :: "host \<Rightarrow> pyval dict" where
  "darwin_memory_breakdown h =
     (case h_pages h of
        None \<Rightarrow> []
      | Some pages \<Rightarrow>
          let page_size = (case h_page_size h of None \<Rightarrow> 4096 | Some n \<Rightarrow> n);
              gb = (\<lambda>k. py_round 2 (gib (dict_get_default pages k 0 * page_size)))
          in [(''wired_gb'', PFloat (gb ''wired_down'')),
              (''compressed_gb'', PFloat (gb ''occupied_by_compressor'')),
              (''active_gb'', PFloat (gb ''active'')), (''inactive_gb'', PFloat (gb ''inactive'')),
              (''free_gb'', PFloat (gb ''free'')),
              (''app_gb'', PFloat (py_round 2 (gb ''active'' + gb ''inactive'')))])"

definition collect_host_metrics ::
  "real \<Rightarrow> cpu_times option \<Rightarrow> real \<Rightarrow> host \<Rightarrow> host_cache \<Rightarrow> pyval dict \<times> host_cache" where
  "collect_host_metrics util ts interval h c =
     (if \<not> h_psutil h
      then ([(''platform'', PStr (h_system h)),
             (''cpu'', PDict [(''utilization_pct'', PFloat (py_round 1 (util * 100)))])], c)
      else
        let cpu = [(''logical_cores'', PInt (logical_cores h)),
                   (''physical_cores'', PInt (physical_cores h)), (''brand'', PStr (h_brand h)),
                   (''utilization_pct'', PFloat (py_round 1 (util * 100))),
                   (''user_pct'', PFloat (case ts of None \<Rightarrow> 0 | Some t \<Rightarrow> py_round 1 (t_user t))),
                   (''system_pct'', PFloat (case ts of None \<Rightarrow> 0 | Some t \<Rightarrow> py_round 1 (t_system t))),
                   (''idle_pct'', PFloat (case ts of None \<Rightarrow> 100 | Some t \<Rightarrow> py_round 1 (t_idle t))),
                   (''load_avg'', PList (map PFloat (h_load_avg h)))];
            mem = [(''total_gb'', PFloat (py_round 2 (gib (h_mem_total h)))),
                   (''used_gb'', PFloat (py_round 2 (gib (h_mem_used h)))),
                   (''available_gb'', PFloat (py_round 2 (gib (h_mem_available h)))),
                   (''percent'', PFloat (py_round 1 (h_mem_percent h))),
                   (''swap_gb'', PFloat (py_round 2 (gib (h_swap_used h))))]
                  @ (if h_system h = ''Darwin'' then darwin_memory_breakdown h else [])
        in case process_stats interval h c of (procs, c1) \<Rightarrow>
           case gpu_info h c1 of (gpu, c2) \<Rightarrow>
             ([(''platform'', PStr (h_system h)), (''platform_release'', PStr (h_release h)),
               (''cpu'', PDict cpu), (''memory'', PDict mem), (''processes'', PDict procs),
               (''gpu'', PDict gpu), (''collected_at'', PFloat (h_time h))], c2))"

subsection \<open>The monitor\<close>

record monitor =
  cpu_reserve_pct :: real
  ema_alpha :: real
  min_sample_interval :: real
  cpu_ema :: "real option"
  last_sample_at :: real
  last_snapshot :: "resource_snapshot option"
  host_state :: host_cache

definition new_monitor :: "real \<Rightarrow> monitor" where
  "new_monitor reserve =
     \<lparr>cpu_reserve_pct = reserve, ema_alpha = 1 / 4, min_sample_interval = 1, cpu_ema = None,
      last_sample_at = 0, last_snapshot = None, host_state = new_cache\<rparr>"

definition sample_cpu_utilization :: "host \<Rightarrow> monitor \<Rightarrow> real \<times> monitor" where
  "sample_cpu_utilization h m =
     (let raw = h_cpu_percent h / 100;
          ema = (case cpu_ema m of None \<Rightarrow> raw | Some x \<Rightarrow> ema_alpha m * raw + (1 - ema_alpha m) * x)
      in (ema, m\<lparr>cpu_ema := Some ema\<rparr>))"

definition detect_user_active :: "host \<Rightarrow> bool" where
  "detect_user_active h =
     (case (if h_system h = ''Darwin'' then h_hid_idle h else None) of
        Some ns \<Rightarrow> of_nat ns / 1000000000 < (60::real)
      | None \<Rightarrow> t_idle (h_times h) < 30)"

text \<open>The first line of \<^verbatim>\<open>nvidia-smi\<close>; any error of the parser means no GPU.\<close>

definition parse_nvidia :: "string \<Rightarrow> (int \<times> real \<times> string option) result" where
  "parse_nvidia out =
     (let parts = map strip (split_on CHR '','' (hd (split_on CHR 0x0A (strip out))))
      in ebind (if 1 < length parts then ebind (py_float (parts ! 1)) (\<lambda>x. Inr (x / 1024)) else Inr 0)
           (\<lambda>vram. Inr (1, vram, if 2 < length parts then Some (split_dot_head (parts ! 2)) else None)))"

definition detect_gpu :: "host \<Rightarrow> int \<times> real \<times> string option" where
  "detect_gpu h =
     (case h_nvidia h of
        None \<Rightarrow> (0, 0, None)
      | Some out \<Rightarrow>
          if strip out = [] then (0, 0, None)
          else case parse_nvidia out of Inl _ \<Rightarrow> (0, 0, None) | Inr g \<Rightarrow> g)"

text \<open>\<^verbatim>\<open>host_detail.get("gpu", {}).get("count", 0)\<close>\<close>

definition gpu_block_count :: "pyval dict \<Rightarrow> int" where
  "gpu_block_count d =
     (case dict_get d ''gpu'' of
        Some (PDict g) \<Rightarrow> (case dict_get g ''count'' of Some (PInt n) \<Rightarrow> n | _ \<Rightarrow> 0)
      | _ \<Rightarrow> 0)"

definition snapshot :: "(pyval dict \<Rightarrow> string) \<Rightarrow> bool \<Rightarrow> host \<Rightarrow> monitor \<Rightarrow> resource_snapshot \<times> monitor" where
  "snapshot dumps force h m =
     (let now = h_monotonic h in
      case (if \<not> force \<and> now - last_sample_at m < min_sample_interval m then last_snapshot m else None) of
        Some s \<Rightarrow> (s, m)
      | None \<Rightarrow>
          if \<not> h_psutil h
          then
            let s = \<lparr>cpu_cores_total = 4, cpu_cores_free = 3, ram_gb_total = 16, ram_gb_free = 8,
                     gpu_count = 0, vram_gb_free = 0, cuda_version = None, network_gbps = 1,
                     battery_pct = None, cpu_utilization = 0, user_active = False,
                     cpu_cores_physical = 4, host_metrics_json = []\<rparr>
            in (s, m\<lparr>last_snapshot := Some s, last_sample_at := now\<rparr>)
          else
            (case sample_cpu_utilization h m of (cpu_pct, m1) \<Rightarrow>
             case detect_gpu h of (gpus, vram, cuda) \<Rightarrow>
             case collect_host_metrics cpu_pct (Some (h_times h)) 3 h (host_state m1) of (detail, c) \<Rightarrow>
               let gname = (case cuda of Some (x # xs) \<Rightarrow> x # xs | _ \<Rightarrow> ''GPU'');
                   detail1 = (if gpus \<noteq> 0 \<and> gpu_block_count detail = 0
                              then dict_set ''gpu'' (PDict [(''count'', PInt gpus), (''name'', PStr gname),
                                     (''names'', PList [PStr gname])]) detail
                              else detail);
                   s = \<lparr>cpu_cores_total = logical_cores h,
                        cpu_cores_free = max 0 (of_int (logical_cores h) * (1 - cpu_pct - cpu_reserve_pct m)),
                        ram_gb_total = gib (h_mem_total h), ram_gb_free = gib (h_mem_available h),
                        gpu_count = max gpus (gpu_block_count detail1), vram_gb_free = vram,
                        cuda_version = cuda, network_gbps = 1, battery_pct = h_battery h,
                        cpu_utilization = cpu_pct, user_active = detect_user_active h,
                        cpu_cores_physical = physical_cores h,
                        host_metrics_json = dumps detail1\<rparr>
               in (s, m1\<lparr>last_snapshot := Some s, last_sample_at := now, host_state := c\<rparr>)))"

subsection \<open>Bounds of the figures\<close>

text \<open>A host with sensible readings, a monitor with sensible parameters.\<close>

definition readings_ok :: "host \<Rightarrow> bool" where
  "readings_ok h \<longleftrightarrow>
     0 \<le> h_cpu_percent h \<and> h_cpu_percent h \<le> 100 \<and> 0 \<le> logical_cores h
     \<and> 0 \<le> h_mem_available h \<and> h_mem_available h \<le> h_mem_total h"

definition snapshot_ok :: "resource_snapshot \<Rightarrow> bool" where
  "snapshot_ok s \<longleftrightarrow>
     0 \<le> cpu_utilization s \<and> cpu_utilization s \<le> 1
     \<and> 0 \<le> cpu_cores_free s \<and> cpu_cores_free s \<le> of_int (cpu_cores_total s)
     \<and> 0 \<le> ram_gb_free s \<and> ram_gb_free s \<le> ram_gb_total s \<and> network_gbps s = 1"

definition monitor_ok :: "monitor \<Rightarrow> bool" where
  "monitor_ok m \<longleftrightarrow>
     0 \<le> ema_alpha m \<and> ema_alpha m \<le> 1 \<and> 0 \<le> cpu_reserve_pct m
     \<and> (case cpu_ema m of None \<Rightarrow> True | Some x \<Rightarrow> 0 \<le> x \<and> x \<le> 1)
     \<and> (case last_snapshot m of None \<Rightarrow> True | Some s \<Rightarrow> snapshot_ok s)"

lemma average_bounds:
  fixes a x y :: real
  assumes "0 \<le> a" "a \<le> 1" "0 \<le> x" "x \<le> 1" "0 \<le> y" "y \<le> 1"
  shows "0 \<le> a * x + (1 - a) * y" and "a * x + (1 - a) * y \<le> 1"
proof -
  show "0 \<le> a * x + (1 - a) * y"
    using assms by simp
  have "a * x + (1 - a) * y \<le> a * 1 + (1 - a) * 1"
    using assms by (intro add_mono mult_left_mono) auto
  then show "a * x + (1 - a) * y \<le> 1"
    by simp
qed

lemma sample_bounds:
  assumes "monitor_ok m" and "readings_ok h" and "sample_cpu_utilization h m = (u, m')"
  shows "0 \<le> u" and "u \<le> 1" and "cpu_ema m' = Some u" and "m'\<lparr>cpu_ema := cpu_ema m\<rparr> = m"
  using assms average_bounds [of "ema_alpha m" "h_cpu_percent h / 100"]
  by (auto simp: sample_cpu_utilization_def monitor_ok_def readings_ok_def Let_def split: option.splits)

lemma free_cores_bounds:
  fixes n :: int and u r :: real
  assumes "0 \<le> n" "0 \<le> u" "0 \<le> r"
  shows "max 0 (of_int n * (1 - u - r)) \<le> of_int n"
proof -
  have "of_int n * (1 - u - r) \<le> of_int n * 1"
    using assms by (intro mult_left_mono) auto
  then show ?thesis
    using assms by simp
qed

lemma snapshot_bounds:
  assumes "monitor_ok m" and "readings_ok h" and "snapshot dumps force h m = (s, m')"
  shows "snapshot_ok s \<and> monitor_ok m'"
proof (cases "if \<not> force \<and> h_monotonic h - last_sample_at m < min_sample_interval m
    then last_snapshot m else None")
  case (Some s0)
  then have "last_snapshot m = Some s0" "s = s0" "m' = m"
    using assms(3) by (auto simp: snapshot_def Let_def split: if_splits)
  then show ?thesis
    using assms(1) by (simp add: monitor_ok_def)
next
  case None
  note fresh = this
  show ?thesis
  proof (cases "h_psutil h")
    case False
    then show ?thesis
      using assms(1,3) fresh by (auto simp: snapshot_def Let_def snapshot_ok_def monitor_ok_def)
  next
    case True
    obtain u m1 where u: "sample_cpu_utilization h m = (u, m1)"
      by fastforce
    note b = sample_bounds [OF assms(1,2) u]
    have "snapshot_ok s \<and> (\<exists>c. m' = m1\<lparr>last_snapshot := Some s, last_sample_at := h_monotonic h, host_state := c\<rparr>)"
      using assms(2,3) fresh True u b free_cores_bounds [of "logical_cores h" u "cpu_reserve_pct m"] assms(1)
      by (auto simp: snapshot_def Let_def snapshot_ok_def readings_ok_def monitor_ok_def gib_def
          divide_right_mono split: prod.splits if_splits)
    moreover have "ema_alpha m1 = ema_alpha m" "cpu_reserve_pct m1 = cpu_reserve_pct m"
      using b(4) by (metis monitor.select_convs(1,2) monitor.surjective monitor.update_convs(4))+
    ultimately show ?thesis
      using assms(1) b by (auto simp: monitor_ok_def)
  qed
qed

subsection \<open>From the host to the score\<close>

definition monitor_step :: "(pyval dict \<Rightarrow> string) \<Rightarrow> bool \<times> host \<Rightarrow> monitor \<Rightarrow> monitor" where
  "monitor_step dumps x m = snd (snapshot dumps (fst x) (snd x) m)"

interpretation monitor_ops: stateful "monitor_step dumps" "\<lambda>x m. readings_ok (snd x)" monitor_ok
  for dumps
proof unfold_locales
  fix m :: monitor and x :: "bool \<times> host"
  assume "monitor_ok m" and "readings_ok (snd x)"
  then show "monitor_ok (monitor_step dumps x m)"
    using snapshot_bounds [of m "snd x" dumps "fst x"] unfolding monitor_step_def
    by (metis prod.collapse)
qed

lemma legal_samples:
  fixes xs :: "(bool \<times> host) list"
  shows "(\<forall>x \<in> set xs. readings_ok (snd x)) \<Longrightarrow> legal_run (monitor_step dumps) (\<lambda>x m. readings_ok (snd x)) xs m"
  by (induction xs arbitrary: m) auto

lemma registered_resources:
  assumes "snapshot_ok s" and "rq_resources q = resource_msg nid s"
  shows "node_ok (registered_node q)
    \<and> cpu_cores_free (resources (registered_node q)) \<le> of_int (cpu_cores_total (resources (registered_node q)))"
proof -
  have "0 \<le> (of_int (cpu_cores_total s) :: real)"
    using assms(1) by (auto simp: snapshot_ok_def intro: order_trans)
  then show ?thesis
    using assms
    by (auto simp: registered_node_def node_ok_def snapshot_to_resources_def resource_msg_def snapshot_ok_def)
qed

text \<open>
  C31: Figures stay sensible from the host to the placement: whatever hosts a new monitor has
  sampled, forced or not, as long as their readings are in range, a node registered with its
  next snapshot is well formed, offers no more cores than it has, and gets a score between 0 and
  1 for every task.
\<close>

theorem monitored_node_scores:
  assumes "0 \<le> reserve" and "\<forall>x \<in> set samples. readings_ok (snd x)" and "readings_ok h"
    and "snapshot dumps force h (fold (monitor_step dumps) samples (new_monitor reserve)) = (s, m)"
    and "rq_resources q = resource_msg nid s"
  shows "node_ok (registered_node q)
    \<and> cpu_cores_free (resources (registered_node q)) \<le> of_int (cpu_cores_total (resources (registered_node q)))
    \<and> 0 \<le> score default_weights (registered_node q) req \<and> score default_weights (registered_node q) req \<le> 1"
proof -
  have "monitor_ok (new_monitor reserve)"
    using assms(1) by (simp add: monitor_ok_def new_monitor_def)
  then have "monitor_ok (fold (monitor_step dumps) samples (new_monitor reserve))"
    by (rule monitor_ops.run_all_ok) (rule legal_samples [OF assms(2)])
  from snapshot_bounds [OF this assms(3,4)] have "snapshot_ok s" ..
  note node = registered_resources [OF this assms(5)]
  then show ?thesis
    using score_bounds [OF default_weights_ok, of "registered_node q" req] by blast
qed

definition sample_host :: "real \<Rightarrow> real \<Rightarrow> host" where
  "sample_host now pct =
     \<lparr>h_psutil = True, h_system = ''Linux'', h_release = ''6.1'', h_brand = ''cpu'',
      h_logical = Some 8, h_physical = None, h_cpu_percent = pct,
      h_times = \<lparr>t_user = pct, t_system = 0, t_idle = 100 - pct\<rparr>, h_load_avg = [0, 0, 0],
      h_mem_total = 16 * 1024 ^ 3, h_mem_available = 8 * 1024 ^ 3, h_mem_used = 8 * 1024 ^ 3,
      h_mem_percent = 50, h_swap_used = 0, h_battery = None, h_hid_idle = None,
      h_nvidia = None, h_chipsets = [], h_page_size = None, h_pages = None,
      h_thread_counts = [1], h_processes = Some [], h_monotonic = now, h_time = now\<rparr>"

definition sample_request :: "resource_snapshot \<Rightarrow> register_request" where
  "sample_request s =
     \<lparr>rq_node_id = ''a'', rq_hostname = ''a'', rq_agent_address = ''host-a'', rq_os_name = ''linux'',
      rq_location = [], rq_preemptible = False, rq_resources = resource_msg ''a'' s,
      rq_libraries = []\<rparr>"

lemma sample_host_ok [simp]: "0 \<le> pct \<Longrightarrow> pct \<le> 100 \<Longrightarrow> readings_ok (sample_host now pct)"
  by (simp add: readings_ok_def sample_host_def logical_cores_def or_int_def)

lemma monitored_node_scores_witness:
  "\<exists>s m. snapshot (\<lambda>_. []) False (sample_host 9 100)
       (fold (monitor_step (\<lambda>_. [])) [(True, sample_host 5 20)] (new_monitor (15 / 100))) = (s, m)
     \<and> 0 \<le> score default_weights
           (registered_node (sample_request s)) default_requirements"
proof -
  obtain s m where s: "snapshot (\<lambda>_. []) False (sample_host 9 100)
      (fold (monitor_step (\<lambda>_. [])) [(True, sample_host 5 20)] (new_monitor (15 / 100))) = (s, m)"
    by fastforce
  have "0 \<le> score default_weights
      (registered_node (sample_request s)) default_requirements"
    using monitored_node_scores [OF _ _ _ s, of "sample_request s" "''a''"]
    by (simp add: sample_request_def)
  with s show ?thesis by blast
qed

end
