(* ===== verification/Api.thy ===== *)
theory Api
  imports Libraries Auth Election MeshVpn Fabric Monitor
begin

section \<open>What the HTTP interface shows (mesh/api/context.py)\<close>

text \<open>
  \<^verbatim>\<open>AppContext\<close>: the parts of a driver process as one state, and the documents it makes of them.
  The environment gives the clock, the host name, the readings of the driver's own CPU, the
  parser of JSON texts, and the tenant of the request.
\<close>

record app =
  ap_manager :: job_manager
  ap_election :: "election option"
  ap_mesh :: "mesh option"
  ap_memory :: fabric
  ap_bus :: event_bus
  ap_events :: nat
  ap_libraries :: "library_manager option"
  ap_router :: pool_router
  ap_snapshot :: "(real \<times> int) option"
  ap_snapshot_at :: real
  ap_driver_ema :: "real option"
  ap_cluster_ema :: "real option"

record api_env =
  a_now :: real
  a_host :: string
  a_cores :: "int option"
  a_percent :: "real option"
  a_loads :: "string \<Rightarrow> pyval result"
  a_tenant :: "string option"
  a_pip_list :: "string result"

subsection \<open>Status of the cluster\<close>

text \<open>A reading is kept for two seconds and enters a moving average; \<open>None\<close> is an exception.\<close>

definition cached_driver_snapshot :: "api_env \<Rightarrow> app \<Rightarrow> (real \<times> int) \<times> app" where
  "cached_driver_snapshot env s =
     (case (if a_now env - ap_snapshot_at s < 2 then ap_snapshot s else None) of
        Some x \<Rightarrow> (x, s)
      | None \<Rightarrow>
          let cores = or_int (a_cores env) 1;
              ema = (case (a_cores env, a_percent env) of
                       (Some _, Some p) \<Rightarrow>
                         Some (case ap_driver_ema s of None \<Rightarrow> p / 100 | Some x \<Rightarrow> 1 / 4 * (p / 100) + 3 / 4 * x)
                     | _ \<Rightarrow> ap_driver_ema s);
              x = (case ema of None \<Rightarrow> 0 | Some u \<Rightarrow> u, cores)
          in (x, s\<lparr>ap_driver_ema := ema, ap_snapshot := Some x, ap_snapshot_at := a_now env\<rparr>))"

definition smooth_cluster :: "real \<Rightarrow> app \<Rightarrow> real \<times> app" where
  "smooth_cluster raw s =
     (let ema = (case ap_cluster_ema s of
                   None \<Rightarrow> raw
                 | Some x \<Rightarrow> py_round 1 (35 / 100 * raw + 65 / 100 * x))
      in (ema, s\<lparr>ap_cluster_ema := Some ema\<rparr>))"

definition leader_doc :: "(string \<times> int) option \<Rightarrow> pyval" where
  "leader_doc l =
     (case l of
        None \<Rightarrow> PNone
      | Some (d, t) \<Rightarrow> PDict [(''driver_id'', PStr d), (''term'', PInt t)])"

definition current_leader :: "real \<Rightarrow> job_manager \<Rightarrow> (string \<times> int) option" where
  "current_leader now m = (case state_store m of None \<Rightarrow> None | Some st \<Rightarrow> sql_get_leader now st)"

definition cluster_status :: "api_env \<Rightarrow> app \<Rightarrow> pyval dict \<times> app" where
  "cluster_status env s =
     (case cluster_stats (a_now env) (ap_manager s) of (stats, m1) \<Rightarrow>
      case live_nodes (a_now env) m1 of (live, m2) \<Rightarrow>
      case cached_driver_snapshot env (s\<lparr>ap_manager := m2\<rparr>) of ((util, cores), s1) \<Rightarrow>
        let include = a_host env \<notin> hostname ` set live;
            raw = aggregate_cpu_utilization_pct live (if include then util else 0) (if include then cores else 0)
        in case smooth_cluster raw s1 of (ema, s2) \<Rightarrow>
          let st1 = dict_set ''cpu_utilization_pct'' (PFloat ema) stats;
              st2 = dict_set ''driver_host_included'' (PBool include) st1;
              st3 = dict_set ''active_jobs'' (PInt (int (length (jobs m2)))) st2;
              st4 = (case ap_election s of
                       None \<Rightarrow> dict_set ''leader'' PNone st3
                     | Some e \<Rightarrow>
                         dict_set ''leader'' (leader_doc (current_leader (a_now env) m2))
                           (dict_set ''is_leader'' (PBool (is_leader e)) st3));
              st5 = (case ap_mesh s of
                       None \<Rightarrow> st4
                     | Some m \<Rightarrow> dict_set ''site_id'' (PStr (mc_site_id (ms_config m))) st4)
          in (st5, s2))"

subsection \<open>Nodes and sites\<close>

fun truthy :: "pyval \<Rightarrow> bool" where
  "truthy PNone = False"
| "truthy (PBool b) = b"
| "truthy (PInt i) = (i \<noteq> 0)"
| "truthy (PFloat x) = (x \<noteq> 0)"
| "truthy (PStr t) = (t \<noteq> [])"
| "truthy (PList xs) = (xs \<noteq> [])"
| "truthy (PDict d) = (d \<noteq> [])"

definition get_val :: "pyval dict \<Rightarrow> string \<Rightarrow> pyval" where
  "get_val d k = dict_get_default d k PNone"

text \<open>Only a JSON object counts; a malformed text is no metrics.\<close>

definition parse_host_metrics :: "(string \<Rightarrow> pyval result) \<Rightarrow> string \<Rightarrow> pyval dict option" where
  "parse_host_metrics loads raw =
     (if raw = [] then None
      else case loads raw of Inr (PDict d) \<Rightarrow> Some d | _ \<Rightarrow> None)"

text \<open>\<^verbatim>\<open>host.get(k, {})\<close> with a method call on the result, where \<open>host\<close> is not empty.\<close>

definition sub_doc :: "pyval dict option \<Rightarrow> string \<Rightarrow> pyval dict result" where
  "sub_doc host k =
     (case host of
        Some (x # xs) \<Rightarrow> item_or (x # xs) k [] as_dict
      | _ \<Rightarrow> Inr [])"

definition gpu_name :: "pyval dict option \<Rightarrow> pyval result" where
  "gpu_name host =
     (case host of
        Some (x # xs) \<Rightarrow>
          (let g = get_val (x # xs) ''gpu''
           in if truthy g then ebind (as_dict g) (\<lambda>d. Inr (get_val d ''name'')) else Inr PNone)
      | _ \<Rightarrow> Inr PNone)"

definition tag_val :: "node \<Rightarrow> string \<Rightarrow> pyval" where
  "tag_val n k = (case dict_get (tags n) k of None \<Rightarrow> PNone | Some v \<Rightarrow> PStr v)"

definition node_tenant :: "node \<Rightarrow> string" where
  "node_tenant n = dict_get_default (tags n) ''tenant'' (location n)"

text \<open>The physical cores, where a text that is no number becomes nothing.\<close>

definition cpu_physical :: "pyval dict \<Rightarrow> node \<Rightarrow> pyval" where
  "cpu_physical cpu n =
     (let v = get_val cpu ''physical_cores'';
          w = (if truthy v then v else tag_val n ''cpu_physical'')
      in case w of
           PStr t \<Rightarrow> (case parse_int t of Inr i \<Rightarrow> PInt i | Inl _ \<Rightarrow> PNone)
         | _ \<Rightarrow> w)"

fun pool_label :: "resource_pool \<Rightarrow> string" where
  "pool_label POOL_CPU = ''cpu''"
| "pool_label POOL_MEMORY = ''memory''"
| "pool_label POOL_GPU = ''gpu''"
| "pool_label POOL_NIGHT = ''night''"

definition node_item :: "(string \<Rightarrow> pyval result) \<Rightarrow> job_manager \<Rightarrow> node \<Rightarrow> pyval dict result" where
  "node_item loads m n =
     (let host = parse_host_metrics loads (dict_get_default (tags n) ''host_metrics'' []);
          r = resources n
      in ebind (sub_doc host ''cpu'') (\<lambda>cpu.
         ebind (sub_doc host ''memory'') (\<lambda>mem.
         ebind (sub_doc host ''processes'') (\<lambda>procs.
         ebind (gpu_name host) (\<lambda>gpu.
           Inr [(''node_id'', PStr (node_id n)), (''hostname'', PStr (hostname n)),
                (''state'', PStr (node_state_name (node_state n))),
                (''cpu_total'', PInt (cpu_cores_total r)), (''cpu_physical'', cpu_physical cpu n),
                (''cpu_free'', PFloat (py_round 1 (cpu_cores_free r))),
                (''cpu_utilization'', PFloat (py_round 1 (cpu_utilization r * 100))),
                (''cpu_user_pct'', get_val cpu ''user_pct''),
                (''cpu_system_pct'', get_val cpu ''system_pct''),
                (''cpu_idle_pct'', get_val cpu ''idle_pct''), (''cpu_brand'', get_val cpu ''brand''),
                (''load_avg'', get_val cpu ''load_avg''),
                (''ram_gb_total'', PFloat (py_round 1 (ram_gb_total r))),
                (''ram_gb_free'', PFloat (py_round 1 (ram_gb_free r))),
                (''memory_used_gb'', get_val mem ''used_gb''),
                (''memory_wired_gb'', get_val mem ''wired_gb''),
                (''memory_compressed_gb'', get_val mem ''compressed_gb''),
                (''memory_swap_gb'', get_val mem ''swap_gb''),
                (''process_count'', get_val procs ''total''),
                (''thread_count'', get_val procs ''threads_total''),
                (''top_processes'', dict_get_default procs ''top'' (PList [])),
                (''gpu_count'', PInt (gpu_count r)), (''gpu_name'', gpu),
                (''battery_pct'', opt_val PFloat (battery_pct r)),
                (''preemptible'', PBool (preemptible n)), (''user_active'', PBool (user_active r)),
                (''location'', PStr (location n)), (''pool'', PStr (pool_label (node_pool n))),
                (''reliability'', PFloat (py_round 2 (reliability_score n))),
                (''is_remote'', PBool (is_remote (node_id n) m)), (''tenant'', PStr (node_tenant n)),
                (''os'', tag_val n ''os''),
                (''host_metrics'', (case host of None \<Rightarrow> PNone | Some d \<Rightarrow> PDict d))])))))"

text \<open>\<^verbatim>\<open>tenant or get_current_tenant()\<close>\<close>

definition wanted_tenant :: "string option \<Rightarrow> string option \<Rightarrow> string option" where
  "wanted_tenant arg ctx = (case arg of Some (c # cs) \<Rightarrow> arg | _ \<Rightarrow> ctx)"

definition nodes_payload :: "api_env \<Rightarrow> string option \<Rightarrow> (app, pyval dict list) py" where
  "nodes_payload env tenant s =
     (case live_nodes (a_now env) (ap_manager s) of (live, m) \<Rightarrow>
        (ebind (map_result (node_item (a_loads env) m) live) (\<lambda>items.
           Inr (case wanted_tenant tenant (a_tenant env) of
                  Some (c # cs) \<Rightarrow> filter (\<lambda>d. get_val d ''tenant'' = PStr (c # cs)) items
                | _ \<Rightarrow> items)),
         s\<lparr>ap_manager := m\<rparr>))"

record site_row =
  sr_nodes :: int
  sr_healthy :: int
  sr_tenant :: string

definition count_site :: "node \<Rightarrow> site_row dict \<Rightarrow> site_row dict" where
  "count_site n d =
     (let site = or_text (location n) ''default'';
          row = dict_get_default d site
                  \<lparr>sr_nodes = 0, sr_healthy = 0, sr_tenant = dict_get_default (tags n) ''tenant'' site\<rparr>
      in dict_set site (row\<lparr>sr_nodes := sr_nodes row + 1,
           sr_healthy := (if node_state n = HEALTHY then sr_healthy row + 1 else sr_healthy row)\<rparr>) d)"

definition sites_payload :: "api_env \<Rightarrow> app \<Rightarrow> pyval dict list \<times> app" where
  "sites_payload env s =
     (case live_nodes (a_now env) (ap_manager s) of (live, m) \<Rightarrow>
        (map (\<lambda>(site, row). [(''site'', PStr site), (''nodes'', PInt (sr_nodes row)),
                (''healthy'', PInt (sr_healthy row)), (''tenant'', PStr (sr_tenant row))])
           (fold count_site live []), s\<lparr>ap_manager := m\<rparr>))"

subsection \<open>Jobs, tasks and libraries\<close>

definition job_task_item :: "task_spec \<Rightarrow> pyval" where
  "job_task_item t =
     PDict [(''task_id'', PStr (task_id t)), (''name'', PStr (task_name t)),
            (''state'', PStr (task_state_name (task_state t))),
            (''progress'', PFloat (py_round 1 (progress_pct t))),
            (''assigned_node'', opt_val PStr (assigned_node t)),
            (''checkpoint'', PBool (task_checkpoint t))]"

definition job_item :: "job_manager \<Rightarrow> job \<Rightarrow> pyval dict" where
  "job_item m j =
     (let ts = map (deref m) (specs_of (job_id j) m)
      in [(''job_id'', PStr (job_id j)), (''name'', PStr (job_name j)),
          (''state'', PStr (job_state_name (job_state j))), (''task_count'', PInt (int (length ts))),
          (''tasks'', PList (map job_task_item ts)), (''error'', opt_val PStr (job_error j)),
          (''created'', PStr (take 8 (job_id j)))])"

definition jobs_payload :: "app \<Rightarrow> pyval dict list" where
  "jobs_payload s =
     map (\<lambda>jr. job_item (ap_manager s) (job_at (ap_manager s) jr)) (dict_values (jobs (ap_manager s)))"

definition task_item :: "task_spec \<Rightarrow> pyval dict" where
  "task_item t =
     [(''task_id'', PStr (task_id t)), (''job_id'', opt_val PStr (task_job_id t)),
      (''name'', PStr (task_name t)), (''state'', PStr (task_state_name (task_state t))),
      (''progress'', PFloat (py_round 1 (progress_pct t))),
      (''assigned_node'', opt_val PStr (assigned_node t)),
      (''cpu_cores'', PFloat (cpu_cores_req (task_requirements t))),
      (''ram_gb'', PFloat (ram_gb_req (task_requirements t)))]"

definition tasks_payload :: "app \<Rightarrow> pyval dict list" where
  "tasks_payload s = map (\<lambda>r. task_item (deref (ap_manager s) r)) (dict_values (tasks (ap_manager s)))"

text \<open>
  Which nodes report a package: a set of names per package, kept as a list without repetition.
  The driver counts as one more node.
\<close>

definition add_reporter :: "string \<Rightarrow> string \<Rightarrow> string list dict \<Rightarrow> string list dict" where
  "add_reporter who pkg d = dict_set pkg (List.insert who (dict_get_default d pkg [])) d"

definition report_tag :: "node \<Rightarrow> string list dict \<Rightarrow> string list dict" where
  "report_tag n d =
     fold (add_reporter (node_id n))
       (filter (\<lambda>p. p \<noteq> []) (map (\<lambda>p. lower (strip p))
          (split_on CHR '','' (dict_get_default (tags n) ''libraries'' [])))) d"

definition library_reporters :: "node list \<Rightarrow> string list \<Rightarrow> string list dict" where
  "library_reporters live driver_libs =
     fold (add_reporter ''driver'') driver_libs (fold report_tag live [])"

definition libraries_payload :: "api_env \<Rightarrow> app \<Rightarrow> pyval dict list \<times> app" where
  "libraries_payload env s =
     (case live_nodes (a_now env) (ap_manager s) of (live, m) \<Rightarrow>
        let s1 = s\<lparr>ap_manager := m\<rparr>;
            r = (case ap_libraries s of
                   None \<Rightarrow> ([], s1)
                 | Some lm \<Rightarrow>
                     (case list_names (a_pip_list env) lm of (ns, lm1) \<Rightarrow>
                        (remdups (map lower ns), s1\<lparr>ap_libraries := Some lm1\<rparr>)))
        in (map (\<lambda>(name, who). [(''name'', PStr name), (''version'', PStr []),
                    (''nodes'', PInt (int (length who))), (''pool'', PStr ''cluster'')])
              (sort_key fst (library_reporters live (fst r))), snd r))"

subsection \<open>Mesh, memory and savings\<close>

definition app_mesh_payload :: "app \<Rightarrow> pyval dict" where
  "app_mesh_payload s =
     (case ap_mesh s of
        Some m \<Rightarrow> mesh_payload m
      | None \<Rightarrow> [(''site_id'', PStr ''default''), (''relay'', PNone), (''peers'', PList [])])"

definition memory_pool_payload :: "api_env \<Rightarrow> app \<Rightarrow> pyval \<times> app" where
  "memory_pool_payload env s =
     (case live_nodes (a_now env) (ap_manager s) of (live, m) \<Rightarrow>
        (stats_to_dict (pool_stats live (ap_memory s)), s\<lparr>ap_manager := m\<rparr>))"

definition memory_allocations_payload :: "app \<Rightarrow> pyval list" where
  "memory_allocations_payload s = map allocation_to_dict (list_allocations (ap_memory s))"

definition estimate_savings :: "real \<Rightarrow> int" where
  "estimate_savings free = py_trunc (free * (5 / 100) * 730 * 24)"

subsection \<open>Tenants\<close>

lemma map_resultD:
  "map_result f xs = Inr ys \<Longrightarrow> list_all2 (\<lambda>x y. f x = Inr y) xs ys"
  by (induction xs arbitrary: ys) (auto simp: list_all2_Cons1)

lemma node_item_tenant:
  "node_item loads m n = Inr d \<Longrightarrow>
     get_val d ''tenant'' = PStr (node_tenant n) \<and> get_val d ''node_id'' = PStr (node_id n)"
  by (auto simp: node_item_def get_val_def dict_get_default_def Let_def)

lemma filter_list_all2:
  assumes "list_all2 R xs ys" and "\<And>x y. R x y \<Longrightarrow> Q y \<longleftrightarrow> P x"
  shows "list_all2 R (filter P xs) (filter Q ys)"
  using assms by (induction rule: list_all2_induct) auto

text \<open>
  A request of a tenant sees exactly the live nodes of that tenant, in their order: the
  tenant of a node is its tag, or its location without one, and a header goes before the tenant
  of the session; without either every node is shown.
\<close>

lemma nodes_of_tenant:
  assumes "nodes_payload env hdr s = (Inr items, s')"
  shows "map (\<lambda>d. get_val d ''node_id'') items =
     map (\<lambda>n. PStr (node_id n))
       (filter (\<lambda>n. case wanted_tenant hdr (a_tenant env) of
                      Some (c # cs) \<Rightarrow> node_tenant n = c # cs
                    | _ \<Rightarrow> True) (fst (live_nodes (a_now env) (ap_manager s))))"
proof -
  obtain live m where live: "live_nodes (a_now env) (ap_manager s) = (live, m)" by fastforce
  obtain all where all: "map_result (node_item (a_loads env) m) live = Inr all"
    and items: "items = (case wanted_tenant hdr (a_tenant env) of
        Some (c # cs) \<Rightarrow> filter (\<lambda>d. get_val d ''tenant'' = PStr (c # cs)) all | _ \<Rightarrow> all)"
    using assms live by (auto simp: nodes_payload_def)
  let ?P = "\<lambda>n. case wanted_tenant hdr (a_tenant env) of Some (c # cs) \<Rightarrow> node_tenant n = c # cs | _ \<Rightarrow> True"
  let ?Q = "\<lambda>d. case wanted_tenant hdr (a_tenant env) of
      Some (c # cs) \<Rightarrow> get_val d ''tenant'' = PStr (c # cs) | _ \<Rightarrow> True"
  have "list_all2 (\<lambda>n d. node_item (a_loads env) m n = Inr d) (filter ?P live) (filter ?Q all)"
    by (rule filter_list_all2 [OF map_resultD [OF all]])
      (auto dest: node_item_tenant split: option.split list.split)
  moreover have "items = filter ?Q all"
    by (simp add: items split: option.split list.split)
  ultimately have "list_all2 (\<lambda>n d. node_item (a_loads env) m n = Inr d) (filter ?P live) items"
    by simp
  then have "map (\<lambda>d. get_val d ''node_id'') items = map (\<lambda>n. PStr (node_id n)) (filter ?P live)"
    by (induction rule: list_all2_induct) (auto dest: node_item_tenant)
  then show ?thesis
    by (simp add: live)
qed

subsection \<open>Libraries are counted\<close>

lemma add_reporters:
  "set (dict_get_default (fold (add_reporter who) ps d) pkg []) =
     set (dict_get_default d pkg []) \<union> (if pkg \<in> set ps then {who} else {})"
  by (induction ps arbitrary: d) (auto simp: add_reporter_def)

lemma report_tag_set:
  "set (dict_get_default (report_tag n d) pkg []) =
     set (dict_get_default d pkg []) \<union> (if pkg \<in> libraries_of n then {node_id n} else {})"
proof -
  have "filter (\<lambda>p. p \<noteq> []) (map (\<lambda>p. lower (strip p)) ws) = map (\<lambda>p. lower (strip p)) (filter (\<lambda>p. strip p \<noteq> []) ws)" for ws
    by (induction ws) auto
  then show ?thesis
    unfolding report_tag_def add_reporters libraries_of_def tag_libraries_def by simp
qed

definition listing :: "node list \<Rightarrow> string \<Rightarrow> string set" where
  "listing ns pkg = node_id ` {n \<in> set ns. pkg \<in> libraries_of n}"

lemma listing_Cons:
  "listing (n # ns) pkg = (if pkg \<in> libraries_of n then {node_id n} else {}) \<union> listing ns pkg"
  unfolding listing_def by auto

lemma report_tags_set:
  "set (dict_get_default (fold report_tag ns d) pkg []) = set (dict_get_default d pkg []) \<union> listing ns pkg"
proof (induction ns arbitrary: d)
  case Nil
  then show ?case by (simp add: listing_def)
next
  case (Cons n ns)
  show ?case
    by (simp only: fold_Cons comp_apply Cons.IH report_tag_set listing_Cons Un_assoc)
qed

definition reporters_ok :: "string list dict \<Rightarrow> bool" where
  "reporters_ok d \<longleftrightarrow> dict_ok d \<and> (\<forall>k. case dict_get d k of None \<Rightarrow> True | Some v \<Rightarrow> distinct v \<and> v \<noteq> [])"

lemma reporters_okD: "reporters_ok d \<Longrightarrow> dict_get d k = Some v \<Longrightarrow> distinct v \<and> v \<noteq> []"
proof -
  assume "reporters_ok d" and v: "dict_get d k = Some v"
  then have "case dict_get d k of None \<Rightarrow> True | Some v \<Rightarrow> distinct v \<and> v \<noteq> []"
    unfolding reporters_ok_def by (elim conjE allE)
  with v show ?thesis by simp
qed

lemma add_reporter_ok: "reporters_ok d \<Longrightarrow> reporters_ok (add_reporter who pkg d)"
proof -
  assume ok: "reporters_ok d"
  have "distinct (dict_get_default d pkg [])"
  proof (cases "dict_get d pkg")
    case (Some v)
    with reporters_okD [OF ok Some] show ?thesis by (simp add: dict_get_default_def)
  qed (simp add: dict_get_default_def)
  moreover have "List.insert who xs \<noteq> []" for xs :: "string list"
    by (auto simp: List.insert_def)
  ultimately show ?thesis
    using ok by (simp add: reporters_ok_def add_reporter_def)
qed

lemma fold_ok:
  "(\<And>x d. reporters_ok d \<Longrightarrow> reporters_ok (f x d)) \<Longrightarrow> reporters_ok d \<Longrightarrow> reporters_ok (fold f xs d)"
  by (induction xs arbitrary: d) auto

lemma report_tag_ok: "reporters_ok d \<Longrightarrow> reporters_ok (report_tag n d)"
  unfolding report_tag_def by (rule fold_ok) (rule add_reporter_ok)

lemma library_reporters_ok: "reporters_ok (library_reporters live drv)"
proof -
  have "reporters_ok (fold report_tag live [])"
    by (rule fold_ok [OF report_tag_ok]) (simp_all add: reporters_ok_def)
  from fold_ok [OF add_reporter_ok this] show ?thesis
    unfolding library_reporters_def .
qed

lemma library_reporters_set:
  "set (dict_get_default (library_reporters live drv) pkg []) =
     listing live pkg \<union> (if pkg \<in> set drv then {''driver''} else {})"
  by (simp add: library_reporters_def add_reporters report_tags_set)

text \<open>The packages known to the driver host, as the payload asks for them.\<close>

definition driver_packages :: "api_env \<Rightarrow> app \<Rightarrow> string set" where
  "driver_packages env s =
     (case ap_libraries s of None \<Rightarrow> {} | Some lm \<Rightarrow> lower ` set (fst (list_names (a_pip_list env) lm)))"

lemma libraries_payload_eq:
  "\<exists>drv. fst (libraries_payload env s) =
      map (\<lambda>(name, who). [(''name'', PStr name), (''version'', PStr []),
             (''nodes'', PInt (int (length who))), (''pool'', PStr ''cluster'')])
        (sort_key fst (library_reporters (fst (live_nodes (a_now env) (ap_manager s))) drv))
    \<and> set drv = driver_packages env s"
proof (cases "ap_libraries s")
  case None
  then show ?thesis
    by (auto simp: libraries_payload_def driver_packages_def Let_def intro: exI [of _ "[]"] split: prod.split)
next
  case (Some lm)
  then show ?thesis
    by (intro exI [of _ "remdups (map lower (fst (list_names (a_pip_list env) lm)))"])
      (auto simp: libraries_payload_def driver_packages_def Let_def split: prod.split)
qed

text \<open>
  The library page lists a package exactly when a live node or the driver has it, each
  package once, and the number it shows is the number of different live nodes that list it, the
  driver counting as one more.
\<close>

lemma libraries_counted:
  "distinct (map (\<lambda>d. get_val d ''name'') (fst (libraries_payload env s)))
   \<and> (\<forall>pkg. let who = listing (fst (live_nodes (a_now env) (ap_manager s))) pkg \<union> (if pkg \<in> driver_packages env s then {''driver''} else {})
       in (\<exists>d \<in> set (fst (libraries_payload env s)). get_val d ''name'' = PStr pkg) = (who \<noteq> {})
          \<and> (\<forall>d \<in> set (fst (libraries_payload env s)). get_val d ''name'' = PStr pkg \<longrightarrow>
                get_val d ''nodes'' = PInt (int (card who))))"
proof -
  obtain drv where
    pay: "fst (libraries_payload env s) =
      map (\<lambda>(name, who). [(''name'', PStr name), (''version'', PStr []),
             (''nodes'', PInt (int (length who))), (''pool'', PStr ''cluster'')])
        (sort_key fst (library_reporters (fst (live_nodes (a_now env) (ap_manager s))) drv))"
    and drv: "set drv = driver_packages env s"
    using libraries_payload_eq by blast
  let ?live = "fst (live_nodes (a_now env) (ap_manager s))"
  let ?d = "library_reporters ?live drv"
  note ok = library_reporters_ok [of ?live drv]
  have dist: "distinct (map fst (sort_key fst ?d))"
    using ok by (simp add: reporters_ok_def dict_ok_def distinct_map)
  have entry: "(k, v) \<in> set ?d \<longleftrightarrow> dict_get ?d k = Some v" for k v
    using ok by (simp add: reporters_ok_def dict_ok_def)
  have who: "set (dict_get_default ?d pkg []) =
      listing ?live pkg \<union> (if pkg \<in> driver_packages env s then {''driver''} else {})" for pkg
    using drv by (simp add: library_reporters_set)
  have items: "map (\<lambda>d. get_val d ''name'') (fst (libraries_payload env s)) =
      map (\<lambda>x. PStr (fst x)) (sort_key fst ?d)"
    by (simp add: pay case_prod_beta get_val_def dict_get_default_def)
  have "distinct (map PStr (map fst (sort_key fst ?d)))"
    using dist by (simp add: distinct_map inj_on_def)
  then have "distinct (map (\<lambda>d. get_val d ''name'') (fst (libraries_payload env s)))"
    by (simp add: items o_def)
  moreover have "(\<exists>d \<in> set (fst (libraries_payload env s)). get_val d ''name'' = PStr pkg) \<longleftrightarrow>
      set (dict_get_default ?d pkg []) \<noteq> {}" for pkg
  proof -
    have "(\<exists>d \<in> set (fst (libraries_payload env s)). get_val d ''name'' = PStr pkg) \<longleftrightarrow>
        PStr pkg \<in> set (map (\<lambda>d. get_val d ''name'') (fst (libraries_payload env s)))"
      by (metis (no_types, lifting) image_eqI imageE list.set_map)
    also have "\<dots> \<longleftrightarrow> (\<exists>v. (pkg, v) \<in> set ?d)"
      unfolding items by force
    also have "\<dots> \<longleftrightarrow> set (dict_get_default ?d pkg []) \<noteq> {}"
    proof (cases "dict_get ?d pkg")
      case (Some v)
      with reporters_okD [OF ok Some] show ?thesis by (simp add: entry dict_get_default_def)
    qed (simp add: entry dict_get_default_def)
    finally show ?thesis .
  qed
  moreover have "get_val d ''nodes'' = PInt (int (card (set (dict_get_default ?d pkg []))))"
    if d: "d \<in> set (fst (libraries_payload env s))" "get_val d ''name'' = PStr pkg" for d pkg
  proof -
    obtain name v where v: "(name, v) \<in> set ?d"
      and dv: "d = [(''name'', PStr name), (''version'', PStr []), (''nodes'', PInt (int (length v))), (''pool'', PStr ''cluster'')]"
      using d(1) by (auto simp: pay)
    have "name = pkg"
      using d(2) by (simp add: dv get_val_def dict_get_default_def)
    then show ?thesis
      using v reporters_okD [OF ok, of name v] by (simp add: dv get_val_def dict_get_default_def entry distinct_card)
  qed
  ultimately show ?thesis
    unfolding Let_def who [symmetric] by (intro conjI allI ballI impI)
qed

text \<open>
  The estimate of the savings is twenty-four times what its description gives.
\<close>

lemma savings_factor: "estimate_savings free = py_trunc (24 * (free * (5 / 100) * 730))"
  by (simp add: estimate_savings_def algebra_simps)

end
