(* ===== verification/Shell.thy ===== *)
theory Shell
  imports Libraries Agent
begin

section \<open>Shell and library calls of an agent (mesh/agent/shell.py, mesh/agent/server.py)\<close>

text \<open>
  \<^verbatim>\<open>run_shell_command\<close>, where what the operating system does is an argument, and the two handlers
  of the agent's service that do not concern tasks.  The ellipsis of a truncated text is three
  dots.
\<close>

datatype shell_outcome = Finished int string string | TimedOut string string | Crashed string

record shell_env =
  sh_home :: string
  sh_isdir :: "string \<Rightarrow> bool"
  sh_run :: "string \<Rightarrow> string \<Rightarrow> int \<Rightarrow> shell_outcome"
  sh_duration :: real

record shell_result =
  so_ok :: bool
  so_exit_code :: int
  so_stdout :: string
  so_stderr :: string
  so_message :: string
  so_duration :: real
  so_cwd :: "string option"

definition max_output :: nat where
  "max_output = 65536"

definition truncate_output :: "string \<Rightarrow> string" where
  "truncate_output s =
     (if length s \<le> max_output then s
      else take max_output s @ [CHR 0x0A] @ ''... truncated ('' @ nat_digits (length s) @ '' chars total)'')"

definition shell_timeout :: "int \<Rightarrow> int" where
  "shell_timeout t = max 1 (min (if t = 0 then 60 else t) 300)"

definition shell_cwd :: "shell_env \<Rightarrow> string \<Rightarrow> string" where
  "shell_cwd env dir =
     (let cwd = or_text (strip dir) (sh_home env) in if sh_isdir env cwd then cwd else sh_home env)"

definition run_shell_command :: "shell_env \<Rightarrow> string \<Rightarrow> string \<Rightarrow> int \<Rightarrow> shell_result" where
  "run_shell_command env command working_dir timeout_seconds =
     (let cmd = strip command in
      if cmd = []
      then \<lparr>so_ok = False, so_exit_code = -1, so_stdout = [], so_stderr = [],
            so_message = ''empty command'', so_duration = 0, so_cwd = None\<rparr>
      else
        let timeout = shell_timeout timeout_seconds;
            cwd = shell_cwd env working_dir;
            base = \<lparr>so_ok = False, so_exit_code = -1, so_stdout = [], so_stderr = [], so_message = [],
                    so_duration = py_round 3 (sh_duration env), so_cwd = Some cwd\<rparr>
        in case sh_run env cmd cwd timeout of
             Finished code out err \<Rightarrow>
               base\<lparr>so_ok := (code = 0), so_exit_code := code, so_stdout := truncate_output out,
                    so_stderr := truncate_output err,
                    so_message := (if code = 0 then ''completed'' else ''exit '' @ int_text code)\<rparr>
           | TimedOut out err \<Rightarrow>
               base\<lparr>so_stdout := truncate_output out, so_stderr := truncate_output err,
                    so_message := ''timed out after '' @ int_text timeout @ ''s''\<rparr>
           | Crashed txt \<Rightarrow> base\<lparr>so_stderr := txt, so_message := txt\<rparr>)"

text \<open>The handlers.\<close>

definition RunShellCommand :: "shell_env \<Rightarrow> string \<Rightarrow> string \<Rightarrow> int \<Rightarrow> shell_result" where
  "RunShellCommand env command working_dir timeout_seconds =
     run_shell_command env command working_dir (if timeout_seconds = 0 then 60 else timeout_seconds)"

definition InstallLibrary ::
  "pip_env \<Rightarrow> (py_error \<Rightarrow> string) \<Rightarrow> string \<Rightarrow> string \<Rightarrow> library_manager \<Rightarrow> (bool \<times> string) \<times> library_manager" where
  "InstallLibrary env exc_text package version m =
     (case install_package env package (wanted_version version) m of
        (Inl e, m1) \<Rightarrow> ((False, exc_text e), m1)
      | (Inr ((name, ver), txt), m1) \<Rightarrow>
          let tail = (if 4000 < length txt then drop (length txt - 4000) txt else txt)
          in ((True, strip (''Installed '' @ name @ '' '' @ ver @ [CHR 0x0A] @ tail)), m1))"

subsection \<open>Deadlines of the calls a driver makes\<close>

datatype agent_call = CallAssign | CallCancel | CallPause | CallInstall | CallShell int

fun call_deadline :: "agent_call \<Rightarrow> int" where
  "call_deadline CallAssign = 10"
| "call_deadline CallCancel = 5"
| "call_deadline CallPause = 5"
| "call_deadline CallInstall = 120"
| "call_deadline (CallShell t) = max 10 ((if t = 0 then 60 else t) + 5)"

subsection \<open>Bounds\<close>

text \<open>The agent ends a command at least five seconds before the driver gives up on its answer.\<close>

lemma shell_answers_in_time: "shell_timeout t + 5 \<le> call_deadline (CallShell t)"
  by (simp add: shell_timeout_def max_def)

lemma shell_timeout_bounds: "1 \<le> shell_timeout t \<and> shell_timeout t \<le> 300"
  by (simp add: shell_timeout_def)

lemma truncated: "length s \<le> max_output \<Longrightarrow> truncate_output s = s"
  "max_output < length s \<Longrightarrow> take max_output (truncate_output s) = take max_output s"
  by (simp_all add: truncate_output_def)

text \<open>
  A command succeeds exactly when it is not blank and the process ends with exit code zero in
  time; no process is started for a blank one.
\<close>

lemma shell_ok_iff:
  "so_ok (run_shell_command env command dir t) \<longleftrightarrow>
     strip command \<noteq> [] \<and> (\<exists>out err. sh_run env (strip command) (shell_cwd env dir) (shell_timeout t) = Finished 0 out err)"
  by (auto simp: run_shell_command_def Let_def split: shell_outcome.split)

lemma library_call_ok:
  "fst (fst (InstallLibrary (i_pip env) exc_text package version m)) = driver_ok env package (wanted_version version)"
  using install_package_ok [of env package "wanted_version version" m]
  by (auto simp: InstallLibrary_def Let_def split: sum.split prod.split)

end
