(* ===== verification/Notebook.thy ===== *)
theory Notebook
  imports AgentWitnesses Text
begin

section \<open>Notebook cells (mesh/notebook/runner.py, mesh/tasks/builtins.py)\<close>

text \<open>
  The execution of a cell, the form in which its result is handed out, and the built-in task that
  runs a cell on an agent.  What the source text of a cell does when it is executed, what it
  prints, raises or leaves in \<^verbatim>\<open>_result\<close>, and whether a Spark session can be made are arguments.
\<close>

subsection \<open>Results\<close>

text \<open>
  The values a cell can leave: an object of another type is its \<^verbatim>\<open>repr\<close>, which may raise;
  \<^verbatim>\<open>json.dumps\<close> refuses each of these, so that the code always comes to the \<^verbatim>\<open>repr\<close>.
\<close>

datatype pyobj =
    ONone
  | OBool bool
  | OInt int
  | OFloat real
  | OStr string
  | OList "pyobj list"
  | OTuple "pyobj list"
  | ODict "(pyobj \<times> pyobj) list"
  | OOther "string result"

text \<open>\<^verbatim>\<open>str(k)\<close>; \<open>sh\<close> gives the text of keys that are neither texts, numbers, truth values nor \<^verbatim>\<open>None\<close>.\<close>

fun key_text :: "(pyobj \<Rightarrow> string result) \<Rightarrow> pyobj \<Rightarrow> string result" where
  "key_text sh (OStr s) = Inr s"
| "key_text sh (OInt i) = Inr (int_text i)"
| "key_text sh (OBool b) = Inr (if b then ''True'' else ''False'')"
| "key_text sh ONone = Inr ''None''"
| "key_text sh k = sh k"

lemma in_take_size:
  "x \<in> set (take n xs) \<Longrightarrow> size x < Suc (size_list size xs)"
  "(k, y) \<in> set (take n kvs) \<Longrightarrow> size y < Suc (size_list (size_prod size size) kvs)"
  by (auto dest!: in_set_takeD simp: less_Suc_eq_le intro: size_list_estimation'
      elim!: size_list_estimation' [where y = "size y"])

function serialize :: "(pyobj \<Rightarrow> string result) \<Rightarrow> pyobj \<Rightarrow> pyval result" where
  "serialize sh ONone = Inr PNone"
| "serialize sh (OBool b) = Inr (PBool b)"
| "serialize sh (OInt i) = Inr (PInt i)"
| "serialize sh (OFloat x) = Inr (PFloat x)"
| "serialize sh (OStr s) = Inr (PStr s)"
| "serialize sh (OList vs) = ebind (map_result (serialize sh) (take 100 vs)) (\<lambda>ws. Inr (PList ws))"
| "serialize sh (OTuple vs) = ebind (map_result (serialize sh) (take 100 vs)) (\<lambda>ws. Inr (PList ws))"
| "serialize sh (ODict kvs) =
     ebind (map_result (\<lambda>(k, v). ebind (key_text sh k) (\<lambda>s. ebind (serialize sh v) (\<lambda>w. Inr (s, w))))
              (take 50 kvs)) (\<lambda>ps. Inr (PDict (fold (\<lambda>(k, w). dict_set k w) ps [])))"
| "serialize sh (OOther r) = map_sum id PStr r"
  by pat_completeness auto

termination serialize
  by (relation "measure (size \<circ> snd)") (auto intro: in_take_size)

text \<open>The limits of a document, at every depth, and a document as the value it is.\<close>

fun in_limits :: "pyval \<Rightarrow> bool" where
  "in_limits (PList vs) \<longleftrightarrow> length vs \<le> 100 \<and> list_all in_limits vs"
| "in_limits (PDict kvs) \<longleftrightarrow> length kvs \<le> 50 \<and> dict_ok kvs \<and> list_all (\<lambda>(k, v). in_limits v) kvs"
| "in_limits _ \<longleftrightarrow> True"

fun embed :: "pyval \<Rightarrow> pyobj" where
  "embed PNone = ONone"
| "embed (PBool b) = OBool b"
| "embed (PInt i) = OInt i"
| "embed (PFloat x) = OFloat x"
| "embed (PStr s) = OStr s"
| "embed (PList vs) = OList (map embed vs)"
| "embed (PDict kvs) = ODict (map (\<lambda>(k, v). (OStr k, embed v)) kvs)"

lemma fold_set_within:
  assumes "length d + length ps \<le> n" and "dict_ok d" and "list_all (\<lambda>(k, v). P v) (d @ ps)"
  shows "length (fold (\<lambda>(k, w). dict_set k w) ps d) \<le> n \<and> dict_ok (fold (\<lambda>(k, w). dict_set k w) ps d)
    \<and> list_all (\<lambda>(k, v). P v) (fold (\<lambda>(k, w). dict_set k w) ps d)"
  using assms
proof (induction ps arbitrary: d)
  case (Cons p ps)
  obtain k v where p: "p = (k, v)" by fastforce
  have "length (dict_set k v d) \<le> Suc (length d)"
    by (induction d) auto
  moreover have "list_all (\<lambda>(k, v). P v) (dict_set k v d)"
    using Cons.prems(3) by (induction d) (auto simp: p)
  ultimately show ?case
    using Cons.IH [of "dict_set k v d"] Cons.prems by (simp add: p)
qed simp

lemma serialize_within: "serialize sh v = Inr w \<Longrightarrow> in_limits w"
proof (induction sh v arbitrary: w rule: serialize.induct)
  case (6 sh vs)
  then show ?case
    by (fastforce simp: list_all_iff dest!: map_result_Inr)
next
  case (7 sh vs)
  then show ?case
    by (fastforce simp: list_all_iff dest!: map_result_Inr)
next
  case (8 sh kvs)
  then obtain ps where ps: "map_result (\<lambda>(k, v). ebind (key_text sh k)
      (\<lambda>s. ebind (serialize sh v) (\<lambda>w. Inr (s, w)))) (take 50 kvs) = Inr ps"
    and w: "w = PDict (fold (\<lambda>(k, w). dict_set k w) ps [])"
    by auto
  have "list_all (\<lambda>(k, v). in_limits v) ps"
    using map_result_Inr [OF ps] "8.IH" by (fastforce simp: list_all_iff)
  moreover have "length ps \<le> 50"
    using map_result_Inr [OF ps] by simp
  ultimately show ?case
    using fold_set_within [of "[]" ps 50 in_limits] by (simp add: w)
next
  case (9 sh r)
  then show ?case
    by (cases r) auto
qed auto

lemma fold_set_distinct: "distinct (map fst (d @ ps)) \<Longrightarrow> fold (\<lambda>(k, w). dict_set k w) ps d = d @ ps"
proof (induction ps arbitrary: d)
  case (Cons p ps)
  obtain k v where p: "p = (k, v)" by fastforce
  have "dict_set k v d = d @ [(k, v)]"
    using Cons.prems by (induction d) (auto simp: p)
  then show ?case
    using Cons.IH [of "d @ [(k, v)]"] Cons.prems by (simp add: p)
qed simp

lemma map_result_map: "(\<And>x. x \<in> set xs \<Longrightarrow> f (g x) = Inr x) \<Longrightarrow> map_result f (map g xs) = Inr xs"
  by (induction xs) auto

lemma serialize_embed: "in_limits w \<Longrightarrow> serialize sh (embed w) = Inr w"
proof (induction w rule: in_limits.induct)
  case (1 vs)
  then show ?case
    by (simp add: list_all_iff map_result_map)
next
  case (2 kvs)
  then have "map_result (\<lambda>(k, v). ebind (key_text sh k) (\<lambda>s. ebind (serialize sh v) (\<lambda>w. Inr (s, w))))
      (map (\<lambda>(k, v). (OStr k, embed v)) kvs) = Inr kvs"
    by (intro map_result_map) (fastforce simp: list_all_iff)
  with 2 show ?case
    using fold_set_distinct [of "[]" kvs] by (simp add: dict_ok_def)
qed simp_all

text \<open>
  What a cell hands out is a document within its limits, and handing it out again changes nothing:
  every list has at most 100 and every dictionary at most 50 entries under distinct keys, and a
  document that keeps to this comes back as it is.
\<close>

lemma serialize_settles:
  assumes "serialize sh v = Inr w"
  shows "in_limits w \<and> serialize sh (embed w) = Inr w"
  using serialize_within serialize_embed assms by blast

subsection \<open>Execution of a cell\<close>

text \<open>
  How the source text of a cell ends: without an exception, where \<^verbatim>\<open>_result\<close> may be set, or with one,
  of which the text of its traceback is kept.  The output so far comes with it.  A cell that asks
  the interpreter to exit is left out.
\<close>

datatype cell_end = Ended "pyobj option" | Failed_with string

record cell_env =
  ce_spark :: "unit result"
  ce_run :: "string \<Rightarrow> string \<Rightarrow> string \<times> string \<times> cell_end"
  ce_show :: "pyobj \<Rightarrow> string result"

definition no_pyspark :: string where
  "no_pyspark = ''PySpark not installed on this worker. Install with: pip install pyspark''"

definition cell_doc :: "string \<Rightarrow> string \<Rightarrow> pyval \<Rightarrow> pyval \<Rightarrow> pyval dict" where
  "cell_doc out err e r =
     [(''stdout'', PStr out), (''stderr'', PStr err), (''error'', e), (''result'', r)]"

text \<open>
  \<^verbatim>\<open>execute_code\<close>.  Only a missing library is caught where the session is made, and the result is
  brought into its form outside of the \<^verbatim>\<open>try\<close>.
\<close>

definition run_cell :: "cell_env \<Rightarrow> string \<Rightarrow> string \<Rightarrow> pyval dict result" where
  "run_cell env code language =
     (case ce_run env code language of (out, err, how) \<Rightarrow>
        case how of
          Failed_with tb \<Rightarrow> Inr (cell_doc out err (PStr tb) PNone)
        | Ended r \<Rightarrow>
            ebind (serialize (ce_show env) (case r of None \<Rightarrow> ONone | Some v \<Rightarrow> v)) (\<lambda>w.
              Inr (cell_doc out err PNone w)))"

definition execute_code :: "cell_env \<Rightarrow> string \<Rightarrow> string \<Rightarrow> pyval dict result" where
  "execute_code env code language =
     (if language \<noteq> ''pyspark'' then run_cell env code language
      else
        case ce_spark env of
          Inl ImportError \<Rightarrow> Inr (cell_doc [] no_pyspark (PStr no_pyspark) PNone)
        | Inl e \<Rightarrow> Inl e
        | Inr _ \<Rightarrow> run_cell env code language)"

text \<open>
  A document is always answered for a cell in plain Python whose text ends by itself or with an
  exception, as long as the texts of its result can be made.
\<close>

lemma execute_code_shape:
  "execute_code env code language = Inr d \<Longrightarrow>
     \<exists>out err e r. d = cell_doc out err e r \<and> in_limits r \<and> (e \<noteq> PNone \<longrightarrow> r = PNone)"
  by (auto simp: execute_code_def run_cell_def cell_doc_def dest: serialize_within
      split: if_splits prod.splits cell_end.splits sum.splits py_error.splits)

subsection \<open>The cell as a task\<close>

text \<open>What a task context has: its fields, properties and methods.\<close>

definition context_members :: "string list" where
  "context_members =
     [''task_spec'', ''checkpoint_manager'', ''total_work'', ''interrupt'', ''_progress'', ''_state'',
      ''_last_checkpoint_at'', ''task_id'', ''progress'', ''state'', ''restore_from_checkpoint'',
      ''set_progress'', ''checkpoint'', ''get'', ''_check_interrupt'', ''_current_time'']"

text \<open>\<^verbatim>\<open>ctx.name\<close>, for a name under which a context would have its state.\<close>

definition with_member :: "string \<Rightarrow> (pyval dict \<Rightarrow> body) \<Rightarrow> body" where
  "with_member name k = (if name \<in> set context_members then ReadState k else Raise AttributeError)"

definition text_in :: "pyval dict \<Rightarrow> string \<Rightarrow> string \<Rightarrow> string result" where
  "text_in d k v =
     (case dict_get_default d k (PStr v) of PStr s \<Rightarrow> Inr s | _ \<Rightarrow> Inl AttributeError)"

definition cell_body :: "cell_env \<Rightarrow> string \<Rightarrow> string \<Rightarrow> body" where
  "cell_body env code language =
     (if strip code = [] then Return (PDict (cell_doc [] [] (PStr ''Empty cell'') PNone))
      else case execute_code env code language of
             Inl e \<Rightarrow> Raise e
           | Inr d \<Rightarrow> SetProgress 1 [] (Return (PDict d)))"

definition notebook_exec :: "cell_env \<Rightarrow> body" where
  "notebook_exec env =
     with_member ''state_data'' (\<lambda>st.
       case text_in st ''code'' [] of
         Inl e \<Rightarrow> Raise e
       | Inr code \<Rightarrow>
           with_member ''state_data'' (\<lambda>st.
             case text_in st ''language'' ''python'' of
               Inl e \<Rightarrow> Raise e
             | Inr language \<Rightarrow> cell_body env code language))"

definition notebook_callable :: "cell_env \<Rightarrow> task_callable" where
  "notebook_callable env =
     \<lparr>fn_params = Some [(''ctx'', Some ''TaskContext'')], fn_body = notebook_exec env,
      fn_plain = Inl TypeError\<rparr>"

subsection \<open>No cell runs on an agent\<close>

lemma no_state_data: "notebook_exec env = Raise AttributeError"
  by (simp add: notebook_exec_def with_member_def context_members_def)

lemma task_failure_lands:
  assumes "dr_attached d" and "dict_get (tasks (dr_manager d)) (cr_task_id q) = Some r"
    and "find_job_for_task (dr_manager d) r = Some jr" and "jr < length (job_heap (dr_manager d))"
    and "length (specs_of (job_id (job_at (dr_manager d) jr)) (dr_manager d)) \<le> 1" and "\<not> cr_success q"
  shows "\<exists>d'. TaskComplete env q d = (Inr (Ack True []), d')
    \<and> job_state (job_at (dr_manager d') jr) = J_FAILED
    \<and> job_error (job_at (dr_manager d') jr) = Some (cr_error q)"
proof -
  let ?s = "update_task r (\<lambda>t. t\<lparr>task_state := T_FAILED\<rparr>) (dr_manager d)"
  have job: "job_at ?s jr = job_at (dr_manager d) jr"
    by (simp add: job_at_def update_task_def)
  have small: "jr < length (job_heap ?s)" "length (specs_of (job_id (job_at ?s jr)) ?s) \<le> 1"
    using assms(4,5) by (simp_all add: job specs_of_def)
  obtain s' where s': "on_task_failed r jr (cr_error q) ?s = (Inr (), s')"
      "job_state (job_at s' jr) = J_FAILED" "job_error (job_at s' jr) = Some (cr_error q)"
    using failure_result [OF small] by blast
  have "find_job_for_task ?s r = Some jr"
    using assms(3) by (simp add: find_job_update)
  then have "TaskComplete env q d = (Inr (Ack True []), d\<lparr>dr_manager := s'\<rparr>)"
    using assms(1,2,6) s'(1) by (simp add: TaskComplete_def sbind_def on_manager_def report_outcome_def)
  then show ?thesis
    using s' by (intro exI [of _ "d\<lparr>dr_manager := s'\<rparr>"]) simp
qed

text \<open>
  C32: no cell runs on an agent: the task of a cell reads an attribute that a task context does not
  have.  Whatever the cell, wherever it is assigned and whatever executing it would do, the agent
  reports no progress and a failure with the text of that error, the driver fails the job,
  and waiting for the job raises it.
\<close>

theorem no_cell_runs_on_agents:
  assumes "run_thread clock message (spec, notebook_callable cell) s = (reports, report, s')"
    and "message AttributeError \<noteq> []" and "message AttributeError \<noteq> ''interrupted''" and "dr_attached d"
    and "dict_get (tasks (dr_manager d)) (task_id spec) = Some r"
    and "find_job_for_task (dr_manager d) r = Some jr" and "jr < length (job_heap (dr_manager d))"
    and "length (specs_of (job_id (job_at (dr_manager d) jr)) (dr_manager d)) \<le> 1"
  shows "reports = [] \<and> (\<exists>q d'. report = Some q \<and> TaskComplete env q d = (Inr (Ack True []), d')
    \<and> job_state (job_at (dr_manager d') jr) = J_FAILED
    \<and> wait_for_job deadline ((Some (job_at (dr_manager d') jr), now) # obs)
        = Some (Inl (RuntimeError (message AttributeError))))"
proof -
  let ?q = "\<lparr>cr_task_id = task_id spec, cr_success = False, cr_result = None, cr_error = message AttributeError\<rparr>"
  have id: "task_id (ctx_spec (thread_ctx spec s)) = task_id spec"
    by (simp add: thread_ctx_def start_ctx_def restore_from_checkpoint_def new_ctx_def split: option.split)
  have "run_assigned clock (notebook_callable cell) (thread_ctx spec s)
      = ([], Raised AttributeError, thread_ctx spec s)"
    by (simp add: run_assigned_def accepts_context_def notebook_callable_def no_state_data)
  then have rep: "reports = []" "report = Some ?q"
    using assms(1-3) by (auto simp: run_thread_def on_complete_def id split: list.split)
  obtain d' where d': "TaskComplete env ?q d = (Inr (Ack True []), d')"
    "job_state (job_at (dr_manager d') jr) = J_FAILED"
    "job_error (job_at (dr_manager d') jr) = Some (message AttributeError)"
    using task_failure_lands [of d ?q r jr env] assms(4-8) by auto
  then have "wait_for_job deadline ((Some (job_at (dr_manager d') jr), now) # obs)
      = Some (Inl (RuntimeError (message AttributeError)))"
    using assms(2) by (auto simp: is_terminal_def job_outcome_def split: list.split)
  with rep d' show ?thesis by blast
qed

subsection \<open>A cell\<close>

text \<open>It prints \<^verbatim>\<open>1\<close> and leaves a tuple and a dictionary with two keys of the same text.\<close>

definition sample_value :: pyobj where
  "sample_value = OTuple [OInt 1, ODict [(OInt 1, OStr ''a''), (OStr ''1'', ONone)], OOther (Inr ''<set>'')]"

definition sample_cell :: cell_env where
  "sample_cell =
     \<lparr>ce_spark = Inl ImportError, ce_run = (\<lambda>_ _. (''1'', [], Ended (Some sample_value))),
      ce_show = (\<lambda>_. Inl ValueError)\<rparr>"

lemma serialize_settles_witness:
  "serialize (ce_show sample_cell) sample_value = Inr (PList [PInt 1, PDict [(''1'', PNone)], PStr ''<set>''])
   \<and> in_limits (PList [PInt 1, PDict [(''1'', PNone)], PStr ''<set>''])"
proof -
  have "serialize (ce_show sample_cell) sample_value = Inr (PList [PInt 1, PDict [(''1'', PNone)], PStr ''<set>''])"
    by (simp add: sample_value_def int_text_def nat_digits.simps) code_simp
  with serialize_settles [OF this] show ?thesis by blast
qed

lemma no_cell_runs_on_agents_witness:
  "\<exists>q d'. fst (snd (run_thread (\<lambda>_. 0) (\<lambda>_. ''no attribute'')
         (deref (one_job J_RUNNING) 0, notebook_callable sample_cell) new_agent)) = Some q
     \<and> TaskComplete (sample_driver_env 1) q sample_driver = (Inr (Ack True []), d')
     \<and> job_state (job_at (dr_manager d') 0) = J_FAILED"
proof -
  let ?spec = "deref (one_job J_RUNNING) 0" and ?msg = "\<lambda>_ :: py_error. ''no attribute''"
  obtain reports report s' where
    run: "run_thread (\<lambda>_. 0) ?msg (?spec, notebook_callable sample_cell) new_agent = (reports, report, s')"
    by (metis surj_pair)
  have id: "task_id ?spec = ''t''"
    by code_simp
  have "dr_attached sample_driver" "dict_get (tasks (dr_manager sample_driver)) (task_id ?spec) = Some 0"
    "find_job_for_task (dr_manager sample_driver) 0 = Some 0" "0 < length (job_heap (dr_manager sample_driver))"
    "length (specs_of (job_id (job_at (dr_manager sample_driver) 0)) (dr_manager sample_driver)) \<le> 1"
    unfolding id by code_simp+
  from no_cell_runs_on_agents [OF run _ _ this, where env = "sample_driver_env 1" and deadline = None and now = 0 and obs = "[]"]
  show ?thesis
    using run by auto
qed

end
