(* ===== verification/App.thy ===== *)
theory App
  imports Api Shell Notebook
begin

section \<open>Routes of the HTTP interface (mesh/api/app.py)\<close>

text \<open>
  The handlers behind the routes, over the state of \<open>Api\<close>.  The body of a request is the arguments
  of the handler; an answer is a document.  The environment adds to the one of \<open>Api\<close> what the job
  manager, the fabric, the installer and the shell need, and the stamps of the events.
\<close>

record app_env =
  x_api :: api_env
  x_jm :: jm_env
  x_install :: install_env
  x_shell :: shell_env
  x_remote_shell :: "string \<Rightarrow> string \<Rightarrow> string \<Rightarrow> int \<Rightarrow> shell_result result"
  x_stamp :: "nat \<Rightarrow> string \<times> string"
  x_text :: "py_error \<Rightarrow> string"
  x_uid :: string
  x_task_uid :: string
  x_connect :: "string \<Rightarrow> int \<Rightarrow> real option"
  x_cell :: cell_env

type_synonym 'a route = "(app, 'a) py"

definition note_event :: "app_env \<Rightarrow> log_level \<Rightarrow> string \<Rightarrow> string \<Rightarrow> pyval dict \<Rightarrow> app \<Rightarrow> app" where
  "note_event env l source message metadata s =
     (case x_stamp env (ap_events s) of (eid, ts) \<Rightarrow>
        s\<lparr>ap_bus := publish (create_event eid ts l source message (Some metadata)) (ap_bus s),
          ap_events := ap_events s + 1\<rparr>)"

definition with_manager :: "(job_manager, 'a) py \<Rightarrow> 'a route" where
  "with_manager m s = (case m (ap_manager s) of (r, m1) \<Rightarrow> (r, s\<lparr>ap_manager := m1\<rparr>))"

definition not_found :: "pyval dict" where
  "not_found = [(''error'', PStr ''not found'')]"

definition find_item :: "string \<Rightarrow> string \<Rightarrow> pyval dict list \<Rightarrow> pyval dict" where
  "find_item k v ds = (case List.find (\<lambda>d. get_val d k = PStr v) ds of None \<Rightarrow> not_found | Some d \<Rightarrow> d)"

subsection \<open>Nodes\<close>

definition get_node_route :: "app_env \<Rightarrow> string \<Rightarrow> pyval dict route" where
  "get_node_route env nid =
     sbind (nodes_payload (x_api env) None) (\<lambda>items. sret (find_item ''node_id'' nid items))"

definition action_answer :: "string \<Rightarrow> string \<Rightarrow> pyval dict" where
  "action_answer action nid =
     [(''ok'', PBool True), (''action'', PStr action), (''node_id'', PStr nid)]"

definition pause_node :: "app_env \<Rightarrow> string \<Rightarrow> pyval dict route" where
  "pause_node env nid =
     sbind (smodify (note_event env WARN ''cluster'' (''Pause requested for node '' @ nid)
       [(''node_id'', PStr nid)])) (\<lambda>_. sret (action_answer ''pause'' nid))"

definition drain_node :: "app_env \<Rightarrow> string \<Rightarrow> pyval dict route" where
  "drain_node env nid =
     sbind (smodify (note_event env INFO ''cluster'' (''Drain started for node '' @ nid)
       [(''node_id'', PStr nid)])) (\<lambda>_. sret (action_answer ''drain'' nid))"

definition shell_error :: "string \<Rightarrow> string option \<Rightarrow> pyval dict" where
  "shell_error msg nid =
     [(''ok'', PBool False), (''error'', PStr msg)]
       @ (case nid of None \<Rightarrow> [] | Some i \<Rightarrow> [(''node_id'', PStr i)])"

definition shell_answer :: "shell_result \<Rightarrow> bool \<Rightarrow> string \<Rightarrow> string \<Rightarrow> pyval dict" where
  "shell_answer r local host nid =
     [(''ok'', PBool (so_ok r)), (''exit_code'', PInt (so_exit_code r)),
      (''stdout'', PStr (so_stdout r)), (''stderr'', PStr (so_stderr r)),
      (''message'', PStr (so_message r)), (''duration_seconds'', PFloat (so_duration r))]
     @ (case so_cwd r of Some c \<Rightarrow> if local then [(''cwd'', PStr c)] else [] | None \<Rightarrow> [])
     @ [(''hostname'', PStr host), (''node_id'', PStr nid)]"

definition run_node_shell :: "app_env \<Rightarrow> string \<Rightarrow> string \<Rightarrow> string \<Rightarrow> int \<Rightarrow> pyval dict route" where
  "run_node_shell env nid command0 cwd timeout0 s =
     (let command = strip command0; timeout = (if timeout0 = 0 then 60 else timeout0) in
      if command = [] then (Inr (shell_error ''command required'' None), s)
      else case get_node nid (ap_manager s) of
        None \<Rightarrow> (Inr (shell_error ''node not found'' None), s)
      | Some n \<Rightarrow>
          if get_remote nid (ap_manager s) \<noteq> None
          then case x_remote_shell env nid command cwd timeout of
                 Inl e \<Rightarrow>
                   (Inr (shell_error (x_text env e) (Some nid)),
                    note_event env ERROR ''shell'' (''Failed on '' @ hostname n @ '': '' @ x_text env e)
                      [(''node_id'', PStr nid)] s)
               | Inr r \<Rightarrow>
                   (Inr (shell_answer r False (hostname n) nid),
                    note_event env INFO ''shell'' (''Ran on '' @ hostname n @ '': '' @ take 120 command)
                      [(''node_id'', PStr nid), (''exit_code'', PInt (so_exit_code r))] s)
          else if hostname n = a_host (x_api env)
          then let r = run_shell_command (x_shell env) command cwd timeout
               in (Inr (shell_answer r True (hostname n) nid),
                   note_event env INFO ''shell'' (''Ran locally on '' @ hostname n @ '': '' @ take 120 command)
                     [(''node_id'', PStr nid), (''exit_code'', PInt (so_exit_code r))] s)
          else (Inr (shell_error ''node has no remote agent connection'' (Some nid)), s))"

subsection \<open>Jobs, libraries, rebalancing, savings\<close>

definition get_job_route :: "string \<Rightarrow> app \<Rightarrow> pyval dict" where
  "get_job_route jid s = find_item ''job_id'' jid (jobs_payload s)"

definition cancel_job_route :: "app_env \<Rightarrow> string \<Rightarrow> pyval dict route" where
  "cancel_job_route env jid =
     sbind (with_manager (cancel_job (x_jm env) jid)) (\<lambda>_.
     sbind (smodify (note_event env INFO ''jobs'' (''Job cancelled: '' @ jid) [(''job_id'', PStr jid)])) (\<lambda>_.
       sret [(''ok'', PBool True)]))"

text \<open>The installer shares cluster and event bus with the application; it is made when first used.\<close>

definition install_route ::
  "app_env \<Rightarrow> string \<Rightarrow> string \<Rightarrow> string \<Rightarrow> bool \<Rightarrow> string list option \<Rightarrow> app \<Rightarrow> pyval dict \<times> app" where
  "install_route env package version pool include_driver node_ids s =
     (case install (x_install env) package version pool include_driver node_ids
             \<lparr>in_cluster = ap_manager s, in_bus = ap_bus s, in_events = ap_events s,
              in_libraries = (case ap_libraries s of None \<Rightarrow> \<lparr>lib_installed = []\<rparr> | Some m \<Rightarrow> m),
              in_router = ap_router s\<rparr> of
        (answer, i) \<Rightarrow>
          (answer, s\<lparr>ap_manager := in_cluster i, ap_bus := in_bus i, ap_events := in_events i,
                     ap_libraries := Some (in_libraries i), ap_router := in_router i\<rparr>))"

definition trigger_rebalance :: "app_env \<Rightarrow> pyval dict route" where
  "trigger_rebalance env =
     sbind (with_manager (run_rebalance (x_jm env))) (\<lambda>count.
     sbind (smodify (note_event env INFO ''scheduler''
        (''Rebalance triggered - '' @ int_text count @ '' tasks migrated'') [])) (\<lambda>_.
       sret [(''ok'', PBool True), (''migrations'', PInt count)]))"

fun num_of :: "pyval \<Rightarrow> real" where
  "num_of (PInt i) = of_int i"
| "num_of (PFloat x) = x"
| "num_of _ = 0"

definition savings_metrics :: "app_env \<Rightarrow> app \<Rightarrow> pyval dict \<times> app" where
  "savings_metrics env s =
     (case cluster_status (x_api env) s of (stats, s1) \<Rightarrow>
        let free = num_of (dict_get_default stats ''free_cpu_cores'' (PInt 0));
            cores = dict_get_default stats ''total_cpu_cores'' (PInt 0)
        in ([(''estimated_monthly_savings_usd'', PInt (if 0 < free then estimate_savings free else 0)),
             (''utilized_cores'', PFloat (num_of cores - free)), (''idle_cores'', PFloat free),
             (''total_cores'', cores),
             (''has_data'', PBool (0 < num_of (dict_get_default stats ''total_nodes'' (PInt 0))))], s1))"

subsection \<open>Notebooks\<close>

definition notebook_spec :: task_spec where
  "notebook_spec =
     (new_task_spec ''notebook.exec'' [])\<lparr>task_requirements := default_requirements\<lparr>ram_gb_req := 1 / 2\<rparr>\<rparr>"

text \<open>The healthy nodes that could take a cell, each asked alone.\<close>

definition notebook_runnable :: "app_env \<Rightarrow> node list route" where
  "notebook_runnable env s =
     (case live_nodes (a_now (x_api env)) (ap_manager s) of (live, m) \<Rightarrow>
        (filter_result (\<lambda>n. ebind (e_place (x_jm env) notebook_spec [n]) (\<lambda>p. Inr (p \<noteq> None)))
           (filter (\<lambda>n. node_state n = HEALTHY) live), s\<lparr>ap_manager := m\<rparr>))"

text \<open>
  A cell on the mesh: \<open>outcome\<close> is what waiting for its job gives.  A result that is no dictionary
  is shown as text.
\<close>

definition mesh_cell :: "app_env \<Rightarrow> (pyval \<Rightarrow> string) \<Rightarrow> pyval result \<Rightarrow> string \<Rightarrow> string \<Rightarrow> pyval dict route" where
  "mesh_cell env shown outcome code language =
     sbind (with_manager (submit_notebook_cell (x_jm env) code language (x_uid env) (x_task_uid env))) (\<lambda>_.
     sbind (slift outcome) (\<lambda>r.
       sret (case r of
               PDict d \<Rightarrow> d
             | v \<Rightarrow> [(''stdout'', PStr (shown v)), (''stderr'', PStr []), (''error'', PNone), (''result'', v)])))"

definition local_cell :: "app_env \<Rightarrow> string \<Rightarrow> string \<Rightarrow> pyval dict result" where
  "local_cell env code language =
     ebind (execute_code (x_cell env) code language) (\<lambda>out.
       Inr (dict_set ''node'' (PStr ''driver'') (dict_set ''mode'' (PStr ''local'') out)))"

definition notebook_execute ::
  "app_env \<Rightarrow> (pyval \<Rightarrow> string) \<Rightarrow> pyval result \<Rightarrow> string \<Rightarrow> string \<Rightarrow> string \<Rightarrow> pyval dict route" where
  "notebook_execute env shown outcome code language mode =
     sbind (notebook_runnable env) (\<lambda>runnable s.
       if mode \<noteq> ''local'' \<and> runnable \<noteq> []
       then case mesh_cell env shown outcome code language s of
              (Inr out, s1) \<Rightarrow>
                let host = hostname (hd runnable)
                in (Inr (dict_set ''node'' (PStr host) (dict_set ''mode'' (PStr ''mesh'') out)),
                    note_event env INFO ''notebook'' (''Cell executed on '' @ host @ '' ('' @ language @ '')'') [] s1)
            | (Inl e, s1) \<Rightarrow>
                (local_cell env code language,
                 note_event env WARN ''notebook''
                   (''Mesh execution failed ('' @ x_text env e @ '') - running locally on driver'') [] s1)
       else
         let s1 = (if mode = ''mesh'' \<and> runnable = []
                   then note_event env INFO ''notebook''
                          ''No mesh workers ready - running cell locally on driver'' [] s
                   else s)
         in (local_cell env code language, s1))"

definition notebook_status :: "app_env \<Rightarrow> pyval dict route" where
  "notebook_status env =
     sbind (notebook_runnable env) (\<lambda>runnable s.
       case live_nodes (a_now (x_api env)) (ap_manager s) of (live, m) \<Rightarrow>
         (Inr [(''workers_available'', PInt (int (length runnable))),
               (''workers'', PList (map (\<lambda>n. PDict [(''hostname'', PStr (hostname n)),
                  (''location'', PStr (location n))]) runnable)),
               (''local_available'', PBool True),
               (''pyspark_ready'', PBool (list_ex (\<lambda>n. contains ''pyspark''
                  (lower (dict_get_default (tags n) ''libraries'' []))) live))],
          s\<lparr>ap_manager := m\<rparr>))"

subsection \<open>Mesh and memory\<close>

definition add_mesh_peer :: "app_env \<Rightarrow> site_peer \<Rightarrow> pyval dict route" where
  "add_mesh_peer env p s =
     (Inr [(''ok'', PBool True), (''peer'', PDict (peer_to_dict p))],
      case ap_mesh s of
        None \<Rightarrow> s
      | Some m \<Rightarrow>
          note_event env INFO ''mesh'' (''Peer added: '' @ sp_site_id p) [(''site'', PStr (sp_site_id p))]
            (s\<lparr>ap_mesh := Some (add_peer p m)\<rparr>))"

definition probe_mesh_peers :: "app_env \<Rightarrow> pyval dict route" where
  "probe_mesh_peers env s =
     (case ap_mesh s of
        None \<Rightarrow> (Inr (app_mesh_payload s), s)
      | Some m \<Rightarrow>
          (case probe_peers (x_connect env) m of
             (Inl e, m1) \<Rightarrow> (Inl e, s\<lparr>ap_mesh := Some m1\<rparr>)
           | (Inr _, m1) \<Rightarrow>
               let s1 = note_event env INFO ''mesh'' ''Peer probe completed'' [] (s\<lparr>ap_mesh := Some m1\<rparr>)
               in (Inr (app_mesh_payload s1), s1)))"

definition memory_allocate :: "app_env \<Rightarrow> (real \<Rightarrow> string) \<Rightarrow> real \<Rightarrow> string \<Rightarrow> pyval dict route" where
  "memory_allocate env shown gb own s =
     (case live_nodes (a_now (x_api env)) (ap_manager s) of (live, m) \<Rightarrow>
      case allocate gb live own 1 (x_uid env) (ap_memory s) of
        (None, f) \<Rightarrow>
          (Inr [(''ok'', PBool False), (''error'', PStr ''insufficient memory'')],
           s\<lparr>ap_manager := m, ap_memory := f\<rparr>)
      | (Some a, f) \<Rightarrow>
          (Inr [(''ok'', PBool True), (''allocation'', allocation_to_dict a)],
           note_event env INFO ''memory'' (''Allocated '' @ shown gb @ ''GB logical memory'')
             [(''allocation_id'', PStr (allocation_id a))] (s\<lparr>ap_manager := m, ap_memory := f\<rparr>)))"

definition memory_release :: "app_env \<Rightarrow> string \<Rightarrow> pyval dict route" where
  "memory_release env aid s =
     (case release aid (ap_memory s) of (ok, f) \<Rightarrow>
        (Inr [(''ok'', PBool ok)],
         if ok then note_event env INFO ''memory'' (''Released allocation '' @ aid) [] (s\<lparr>ap_memory := f\<rparr>)
         else s\<lparr>ap_memory := f\<rparr>))"

subsection \<open>Listings\<close>

definition listed_under :: "string \<Rightarrow> pyval dict list \<Rightarrow> pyval dict" where
  "listed_under k items = [(k, PList (map PDict items))]"

definition list_nodes_route :: "app_env \<Rightarrow> string option \<Rightarrow> pyval dict route" where
  "list_nodes_route env tenant =
     sbind (nodes_payload (x_api env) tenant) (\<lambda>items. sret (listed_under ''nodes'' items))"

definition list_jobs_route :: "app \<Rightarrow> pyval dict" where
  "list_jobs_route s = listed_under ''jobs'' (jobs_payload s)"

definition list_tasks_route :: "app \<Rightarrow> pyval dict" where
  "list_tasks_route s = listed_under ''tasks'' (tasks_payload s)"

definition logs_route ::
  "int \<Rightarrow> string option \<Rightarrow> string option \<Rightarrow> string option \<Rightarrow> app \<Rightarrow> pyval dict" where
  "logs_route limit level source q s = listed_under ''logs'' (get_logs limit level source q (ap_bus s))"

definition list_libraries_route :: "app_env \<Rightarrow> app \<Rightarrow> pyval dict \<times> app" where
  "list_libraries_route env s =
     (case libraries_payload (x_api env) s of (items, s1) \<Rightarrow> (listed_under ''libraries'' items, s1))"

definition list_sites_route :: "app_env \<Rightarrow> app \<Rightarrow> pyval dict \<times> app" where
  "list_sites_route env s = (case sites_payload (x_api env) s of (items, s1) \<Rightarrow> (listed_under ''sites'' items, s1))"

definition mesh_peers_route :: "app \<Rightarrow> pyval dict" where
  "mesh_peers_route s = [(''peers'', dict_get_default (app_mesh_payload s) ''peers'' (PList []))]"

definition memory_allocations_route :: "app \<Rightarrow> pyval dict" where
  "memory_allocations_route s = [(''allocations'', PList (memory_allocations_payload s))]"

definition auth_status :: "auth_config \<Rightarrow> string option \<Rightarrow> pyval dict" where
  "auth_status cfg tenant = [(''auth_enabled'', PBool (auth_enabled cfg)), (''tenant'', opt_str tenant)]"

definition join_info :: "pyval dict" where
  "join_info =
     [(''driver_grpc'', PStr ''50050''), (''agent_grpc'', PStr ''50051''), (''dashboard_port'', PInt 8080),
      (''relay_port'', PInt 6000),
      (''install'', PStr ''pip install -e . && mesh-agent --driver DRIVER_HOST:50050 --location SITE''),
      (''requirements'', PList [PStr ''Python 3.11+'', PStr ''pip'', PStr ''network access to driver port 50050'']),
      (''docs'', PStr ''/docs/join-mesh.md'')]"

subsection \<open>What routes keep and answer\<close>

lemma note_event_manager [simp]:
  "ap_manager (note_event env l src msg md s) = ap_manager s"
  "ap_memory (note_event env l src msg md s) = ap_memory s"
  by (simp_all add: note_event_def split: prod.split)

text \<open>
  A cell that fails on the mesh runs again on the driver: when the placement raises nothing, the
  answer is that of the mesh exactly if the mesh was asked for, some node could take the cell, and
  its job was submitted and gave a result; otherwise it is what the driver's own execution of
  the code gives or raises, and what a failed attempt left in the job manager, the running
  job and the assignment sent to an agent, stays there.
\<close>

lemma notebook_answer:
  assumes "notebook_runnable env s = (Inr runnable, s0)"
    and "with_manager (submit_notebook_cell (x_jm env) code language (x_uid env) (x_task_uid env)) s0 = (sent, s1)"
  shows "if mode \<noteq> ''local'' \<and> runnable \<noteq> []
    then (case (sent, outcome) of
        (Inr jid, Inr v) \<Rightarrow> \<exists>out s'. notebook_execute env shown outcome code language mode s = (Inr out, s')
            \<and> get_val out ''mode'' = PStr ''mesh'' \<and> get_val out ''node'' = PStr (hostname (hd runnable))
            \<and> ap_manager s' = ap_manager s1
      | _ \<Rightarrow> \<exists>s'. notebook_execute env shown outcome code language mode s = (local_cell env code language, s')
            \<and> ap_manager s' = ap_manager s1)
    else \<exists>s'. notebook_execute env shown outcome code language mode s = (local_cell env code language, s')
            \<and> ap_manager s' = ap_manager s0"
proof (cases "mode \<noteq> ''local'' \<and> runnable \<noteq> []")
  case False
  then show ?thesis
    unfolding notebook_execute_def sbind_Inr [of "notebook_runnable env", OF assms(1)]
    by (auto simp: Let_def)
next
  case True
  show ?thesis
    using True assms(2)
    unfolding notebook_execute_def sbind_Inr [of "notebook_runnable env", OF assms(1)]
    by (cases sent; cases outcome)
      (simp_all add: mesh_cell_def sbind_def Let_def get_val_def dict_get_default_def)
qed

text \<open>A release through the interface gives the memory back, or changes nothing.\<close>

lemma memory_release_route:
  "memory_release env aid s = (Inr [(''ok'', PBool ok)], s') \<Longrightarrow>
     ap_memory s' = snd (release aid (ap_memory s)) \<and> ap_manager s' = ap_manager s"
  by (auto simp: memory_release_def split: prod.splits if_splits)

subsection \<open>A sample process\<close>

definition sample_app :: app where
  "sample_app =
     \<lparr>ap_manager = two_agents None None, ap_election = None, ap_mesh = None, ap_memory = empty_fabric,
      ap_bus = new_bus 10, ap_events = 0, ap_libraries = None, ap_router = default_router,
      ap_snapshot = None, ap_snapshot_at = 0, ap_driver_ema = None, ap_cluster_ema = None\<rparr>"

definition sample_api_env :: "string option \<Rightarrow> api_env" where
  "sample_api_env tenant =
     \<lparr>a_now = 1, a_host = ''d'', a_cores = Some 4, a_percent = Some 10, a_loads = (\<lambda>_. Inl ValueError),
      a_tenant = tenant, a_pip_list = Inr []\<rparr>"

definition sample_app_env :: app_env where
  "sample_app_env =
     \<lparr>x_api = sample_api_env None, x_jm = sample_env 1, x_install = sample_install_env ''d'',
      x_shell = \<lparr>sh_home = ''/'', sh_isdir = (\<lambda>_. True), sh_run = (\<lambda>_ _ _. Finished 0 [] []), sh_duration = 0\<rparr>,
      x_remote_shell = (\<lambda>_ _ _ _. Inl TimeoutError), x_stamp = (\<lambda>_. (''e'', ''ts'')),
      x_text = (\<lambda>_. ''error''), x_uid = ''j'', x_task_uid = ''t'', x_connect = (\<lambda>_ _. None),
      x_cell = sample_cell\<rparr>"

text \<open>The job of the cell times out on the mesh.\<close>

lemma notebook_answer_witness:
  "\<exists>s'. notebook_execute sample_app_env (\<lambda>_. []) (Inl TimeoutError) ''x = 1'' ''python'' ''mesh'' sample_app =
     (local_cell sample_app_env ''x = 1'' ''python'', s')"
proof -
  have "map_sum id (map hostname) (fst (notebook_runnable sample_app_env sample_app)) = Inr [''a'', ''b'']"
    by code_simp
  then obtain runnable s0 where run: "notebook_runnable sample_app_env sample_app = (Inr runnable, s0)"
    by (cases "notebook_runnable sample_app_env sample_app"; cases "fst (notebook_runnable sample_app_env sample_app)") auto
  obtain sent s1 where sent: "with_manager (submit_notebook_cell (x_jm sample_app_env) ''x = 1'' ''python''
      (x_uid sample_app_env) (x_task_uid sample_app_env)) s0 = (sent, s1)"
    by fastforce
  from notebook_answer [OF run sent, where mode = "''mesh''" and outcome = "Inl TimeoutError"
      and shown = "\<lambda>_. []"] show ?thesis
    by (cases sent) (auto split: if_splits)
qed

lemma nodes_of_tenant_witness:
  "\<exists>items s'. nodes_payload (sample_api_env None) (Some ''office'') sample_app = (Inr items, s') \<and> items = []"
proof -
  have "fst (nodes_payload (sample_api_env None) (Some ''office'') sample_app) = Inr []"
    by code_simp
  then obtain s' where pay: "nodes_payload (sample_api_env None) (Some ''office'') sample_app = (Inr [], s')"
    by (metis prod.collapse)
  have "filter (\<lambda>n. case wanted_tenant (Some ''office'') (a_tenant (sample_api_env None)) of
      Some (c # cs) \<Rightarrow> node_tenant n = c # cs | _ \<Rightarrow> True)
      (fst (live_nodes (a_now (sample_api_env None)) (ap_manager sample_app))) = []"
    using nodes_of_tenant [OF pay] by simp
  with pay show ?thesis by blast
qed

end
