(* ===== verification/Relay.thy ===== *)
theory Relay
  imports MeshVpn "HOL-Library.Sublist"
begin

section \<open>Connections of the TCP relay (mesh/meshvpn/relay.py)\<close>

text \<open>
  The accept loop of the relay, and a relayed connection: two sockets and two threads that run
  \<^verbatim>\<open>_pipe\<close>, one in each direction.  A socket keeps every byte that has arrived from its peer, how
  many of them have been read, and every byte written to it.  The steps of the threads and of the
  two peers interleave.  A call that raises \<^verbatim>\<open>OSError\<close> is a step of its own: a failed write may
  have written a part of its bytes, and a read gives up on a socket with a time limit.
\<close>

subsection \<open>Sockets and pipes\<close>

datatype side = Client | Upstream

fun opposite :: "side \<Rightarrow> side" where
  "opposite Client = Upstream"
| "opposite Upstream = Client"

record 'b tcp_socket =
  sk_open :: bool
  sk_arrived :: "'b list"
  sk_read :: nat
  sk_eof :: bool
  sk_sent :: "'b list"
  sk_limit :: "real option"

text \<open>Between two calls a pipe either reads next, or holds what it has read, or has ended.\<close>

datatype 'b pipe_state = Reading | Holding "'b list" | Ended

record 'b link =
  socket :: "side \<Rightarrow> 'b tcp_socket"
  pipe :: "side \<Rightarrow> 'b pipe_state"

definition fresh_socket :: "real option \<Rightarrow> 'b tcp_socket" where
  "fresh_socket limit =
     \<lparr>sk_open = True, sk_arrived = [], sk_read = 0, sk_eof = False, sk_sent = [], sk_limit = limit\<rparr>"

text \<open>\<^verbatim>\<open>create_connection\<close> leaves its time limit on the socket; an accepted socket has none.\<close>

definition new_link :: "'b link" where
  "new_link =
     \<lparr>socket = (\<lambda>d. fresh_socket (case d of Client \<Rightarrow> None | Upstream \<Rightarrow> Some 10)), pipe = (\<lambda>_. Reading)\<rparr>"

definition change_socket :: "side \<Rightarrow> ('b tcp_socket \<Rightarrow> 'b tcp_socket) \<Rightarrow> 'b link \<Rightarrow> 'b link" where
  "change_socket d f l = l\<lparr>socket := (socket l)(d := f (socket l d))\<rparr>"

definition set_pipe :: "side \<Rightarrow> 'b pipe_state \<Rightarrow> 'b link \<Rightarrow> 'b link" where
  "set_pipe d p l = l\<lparr>pipe := (pipe l)(d := p)\<rparr>"

definition unread :: "'b tcp_socket \<Rightarrow> 'b list" where
  "unread s = drop (sk_read s) (sk_arrived s)"

text \<open>The \<^verbatim>\<open>finally\<close> clause shuts both sockets down, in both directions, and closes them.\<close>

definition finish_pipe :: "side \<Rightarrow> 'b link \<Rightarrow> 'b link" where
  "finish_pipe d l =
     set_pipe d Ended (l\<lparr>socket := (\<lambda>x. (socket l x)\<lparr>sk_open := False\<rparr>)\<rparr>)"

text \<open>
  A read of at most \<open>65536\<close> bytes, of which the system gives at least one; \<open>None\<close> where the call
  blocks.  On a closed socket and at the end of the stream the loop ends.
\<close>

definition pipe_recv :: "side \<Rightarrow> nat \<Rightarrow> 'b link \<Rightarrow> 'b link option" where
  "pipe_recv d n l =
     (let s = socket l d in
      if pipe l d \<noteq> Reading then None
      else if \<not> sk_open s then Some (finish_pipe d l)
      else if unread s \<noteq> [] then
        let chunk = take (max 1 (min n 65536)) (unread s)
        in Some (set_pipe d (Holding chunk) (change_socket d (\<lambda>s. s\<lparr>sk_read := sk_read s + length chunk\<rparr>) l))
      else if sk_eof s then Some (finish_pipe d l)
      else None)"

text \<open>A read that waited as long as the limit of the socket.\<close>

definition pipe_timeout :: "side \<Rightarrow> real \<Rightarrow> 'b link \<Rightarrow> 'b link option" where
  "pipe_timeout d waited l =
     (let s = socket l d in
      if pipe l d = Reading \<and> sk_open s \<and> unread s = [] \<and> \<not> sk_eof s
         \<and> (case sk_limit s of None \<Rightarrow> False | Some t \<Rightarrow> t \<le> waited)
      then Some (finish_pipe d l) else None)"

text \<open>\<^verbatim>\<open>sendall\<close>; a failure after \<open>k\<close> bytes, or on a closed socket, ends the loop.\<close>

definition pipe_send :: "side \<Rightarrow> nat option \<Rightarrow> 'b link \<Rightarrow> 'b link option" where
  "pipe_send d failure l =
     (case pipe l d of
        Holding chunk \<Rightarrow>
          let dst = opposite d in
          if \<not> sk_open (socket l dst) then Some (finish_pipe d l)
          else (case failure of
                  None \<Rightarrow> Some (set_pipe d Reading (change_socket dst (\<lambda>s. s\<lparr>sk_sent := sk_sent s @ chunk\<rparr>) l))
                | Some k \<Rightarrow>
                    Some (finish_pipe d (change_socket dst (\<lambda>s. s\<lparr>sk_sent := sk_sent s @ take k chunk\<rparr>) l)))
      | _ \<Rightarrow> None)"

text \<open>What the peer of a socket does: bytes arrive, or it has no more to send.\<close>

definition peer_sends :: "side \<Rightarrow> 'b list \<Rightarrow> 'b link \<Rightarrow> 'b link option" where
  "peer_sends d bs l =
     (if sk_open (socket l d) \<and> \<not> sk_eof (socket l d)
      then Some (change_socket d (\<lambda>s. s\<lparr>sk_arrived := sk_arrived s @ bs\<rparr>) l) else None)"

definition peer_ends :: "side \<Rightarrow> 'b link \<Rightarrow> 'b link option" where
  "peer_ends d l =
     (if sk_open (socket l d) then Some (change_socket d (\<lambda>s. s\<lparr>sk_eof := True\<rparr>) l) else None)"

subsection \<open>Interleaved steps\<close>

datatype 'b link_event =
    Recv side nat
  | Timeout side real
  | Send side "nat option"
  | Arrive side "'b list"
  | EndOf side

fun do_event :: "'b link_event \<Rightarrow> 'b link \<Rightarrow> 'b link option" where
  "do_event (Recv d n) l = pipe_recv d n l"
| "do_event (Timeout d t) l = pipe_timeout d t l"
| "do_event (Send d k) l = pipe_send d k l"
| "do_event (Arrive d bs) l = peer_sends d bs l"
| "do_event (EndOf d) l = peer_ends d l"

inductive link_reach :: "'b link \<Rightarrow> 'b link \<Rightarrow> bool" for l0 where
  start: "link_reach l0 l0"
| step: "link_reach l0 l \<Longrightarrow> do_event e l = Some l' \<Longrightarrow> link_reach l0 l'"

inductive_cases link_reachE: "link_reach l0 l"

lemma link_reach_trans: "link_reach l1 l2 \<Longrightarrow> link_reach l0 l1 \<Longrightarrow> link_reach l0 l2"
  by (induction rule: link_reach.induct) (auto intro: link_reach.step)

lemmas link_defs =
  change_socket_def set_pipe_def finish_pipe_def unread_def pipe_recv_def pipe_timeout_def
  pipe_send_def peer_sends_def peer_ends_def

lemma opposite_simps [simp]:
  "opposite (opposite d) = d" "opposite d \<noteq> d" "d \<noteq> opposite d" "opposite d = x \<longleftrightarrow> d = opposite x"
  by (cases d; cases x; simp)+

subsection \<open>Accepting connections\<close>

text \<open>
  An iteration of the accept loop, with the flag it looks at and what \<^verbatim>\<open>accept\<close> and the connection
  to the target give; the result is whether the loop goes on.  Any error of \<^verbatim>\<open>accept\<close> other than its
  timeout ends it.
\<close>

datatype accepted = AcceptTimeout | AcceptError | NoUpstream | Connected

datatype relay_action = CloseClient | StartPipes

definition serve_round :: "bool \<Rightarrow> accepted \<Rightarrow> relay \<Rightarrow> bool \<times> relay_action list \<times> relay" where
  "serve_round stop_set a r =
     (if stop_set then (False, [], r)
      else case a of
             AcceptTimeout \<Rightarrow> (True, [], r)
           | AcceptError \<Rightarrow> (False, [], r)
           | NoUpstream \<Rightarrow> (True, [CloseClient], r)
           | Connected \<Rightarrow> (True, [StartPipes], r\<lparr>rl_connections := rl_connections r + 1\<rparr>))"

fun serve_relay :: "(bool \<times> accepted) list \<Rightarrow> relay \<Rightarrow> relay_action list \<times> relay" where
  "serve_relay [] r = ([], r)"
| "serve_relay ((stop_set, a) # rest) r =
     (case serve_round stop_set a r of (go_on, acts, r1) \<Rightarrow>
        if go_on then (case serve_relay rest r1 of (acts', r2) \<Rightarrow> (acts @ acts', r2))
        else (acts, r1))"

lemma connections_counted:
  "serve_relay xs r = (acts, r') \<Longrightarrow>
     rl_connections r' = rl_connections r + int (length (filter (\<lambda>a. a = StartPipes) acts))"
proof (induction xs arbitrary: r acts r')
  case (Cons x xs)
  then show ?case
    by (cases x; cases "snd x") (auto simp: serve_round_def split: if_splits prod.splits)
qed simp

text \<open>One failure of \<^verbatim>\<open>accept\<close>, for instance for want of descriptors, and no connection is taken any more.\<close>

lemma accept_error_is_final: "serve_relay ((False, AcceptError) # xs) r = ([], r)"
  by (simp add: serve_round_def)

subsection \<open>What a connection delivers\<close>

text \<open>
  The bytes written in a direction and those its pipe holds are the bytes read on the other side;
  both sockets are open as long as neither pipe has ended.
\<close>

definition link_ok :: "'b link \<Rightarrow> bool" where
  "link_ok l \<longleftrightarrow>
     (\<forall>d. sk_open (socket l d) \<longleftrightarrow> (\<forall>x. pipe l x \<noteq> Ended))
     \<and> (\<forall>d. let s = socket l d; w = sk_sent (socket l (opposite d)) in
          sk_read s \<le> length (sk_arrived s)
          \<and> (case pipe l d of
               Reading \<Rightarrow> w = take (sk_read s) (sk_arrived s)
             | Holding c \<Rightarrow> w @ c = take (sk_read s) (sk_arrived s)
             | Ended \<Rightarrow> prefix w (take (sk_read s) (sk_arrived s))))"

lemma link_ok_new: "link_ok (new_link :: 'b link)"
  by (simp add: link_ok_def new_link_def fresh_socket_def Let_def)

text \<open>The same for one direction, and which parts of a link it looks at.\<close>

definition flow_ok :: "'b tcp_socket \<Rightarrow> 'b pipe_state \<Rightarrow> 'b list \<Rightarrow> bool" where
  "flow_ok s p w \<longleftrightarrow>
     sk_read s \<le> length (sk_arrived s)
     \<and> (case p of
          Reading \<Rightarrow> w = take (sk_read s) (sk_arrived s)
        | Holding c \<Rightarrow> w @ c = take (sk_read s) (sk_arrived s)
        | Ended \<Rightarrow> prefix w (take (sk_read s) (sk_arrived s)))"

lemma flow_ok_prefix: "flow_ok s p w \<Longrightarrow> prefix w (sk_arrived s)"
proof -
  assume ok: "flow_ok s p w"
  then have "prefix w (take (sk_read s) (sk_arrived s))"
    by (cases p) (auto simp: flow_ok_def intro: prefixI [OF sym])
  then show ?thesis
    using take_is_prefix prefix_order.trans by blast
qed

lemma flow_ok_ended: "flow_ok s p w \<Longrightarrow> flow_ok s Ended w"
  by (cases p) (auto simp: flow_ok_def intro: prefixI [OF sym])

lemma flow_ok_cong:
  "flow_ok s p w \<Longrightarrow> sk_read s' = sk_read s \<Longrightarrow> sk_arrived s' = sk_arrived s \<Longrightarrow> flow_ok s' p w"
  by (cases p) (simp_all add: flow_ok_def)

lemma flow_ok_arrive: "flow_ok s p w \<Longrightarrow> flow_ok (s\<lparr>sk_arrived := sk_arrived s @ bs\<rparr>) p w"
  by (cases p) (simp_all add: flow_ok_def)

lemma flow_ok_recv:
  assumes "flow_ok s Reading w" and "k \<le> length (unread s)"
  shows "flow_ok (s\<lparr>sk_read := sk_read s + k\<rparr>) (Holding (take k (unread s))) w"
  using assms by (auto simp: flow_ok_def unread_def take_add)

lemma flow_ok_send: "flow_ok s (Holding c) w \<Longrightarrow> flow_ok s Reading (w @ c)"
  by (simp add: flow_ok_def)

lemma flow_ok_cut: "flow_ok s (Holding c) w \<Longrightarrow> flow_ok s Ended (w @ take k c)"
  by (auto simp: flow_ok_def prefix_def) (metis append_take_drop_id)

lemma link_ok_flow:
  "link_ok l \<longleftrightarrow> (\<forall>d. sk_open (socket l d) \<longleftrightarrow> (\<forall>x. pipe l x \<noteq> Ended))
     \<and> (\<forall>d. flow_ok (socket l d) (pipe l d) (sk_sent (socket l (opposite d))))"
  by (simp add: link_ok_def flow_ok_def Let_def)

lemma link_ok_ends:
  assumes "\<And>x. flow_ok (socket l x) (if x = d then Ended else pipe l x) (sk_sent (socket l (opposite x)))"
  shows "link_ok (finish_pipe d l)"
proof -
  have "flow_ok ((socket l x)\<lparr>sk_open := False\<rparr>) (if x = d then Ended else pipe l x)
      (sk_sent (socket l (opposite x)))" for x
    using assms [of x] by (rule flow_ok_cong) simp_all
  then show ?thesis
    unfolding link_ok_flow by (auto simp: finish_pipe_def set_pipe_def fun_upd_def)
qed

lemma link_ok_finish:
  assumes "link_ok l"
  shows "link_ok (finish_pipe d l)"
proof (rule link_ok_ends)
  fix x
  have "flow_ok (socket l x) (pipe l x) (sk_sent (socket l (opposite x)))"
    using assms by (simp add: link_ok_flow)
  then show "flow_ok (socket l x) (if x = d then Ended else pipe l x) (sk_sent (socket l (opposite x)))"
    using flow_ok_ended by (cases "x = d") auto
qed

text \<open>A step that leaves the sockets open changes one direction.\<close>

lemma link_ok_direction:
  assumes "link_ok l" and "\<And>x. sk_open (socket l' x) \<longleftrightarrow> sk_open (socket l x)"
    and "\<And>x. pipe l' x = Ended \<longleftrightarrow> pipe l x = Ended"
    and "flow_ok (socket l' d) (pipe l' d) (sk_sent (socket l' (opposite d)))"
    and "\<And>x. x \<noteq> d \<Longrightarrow> pipe l' x = pipe l x \<and> sk_read (socket l' x) = sk_read (socket l x)
      \<and> sk_arrived (socket l' x) = sk_arrived (socket l x)
      \<and> sk_sent (socket l' (opposite x)) = sk_sent (socket l (opposite x))"
  shows "link_ok l'"
proof -
  have "flow_ok (socket l' x) (pipe l' x) (sk_sent (socket l' (opposite x)))" for x
  proof (cases "x = d")
    case False
    note same = assms(5) [OF False]
    have "flow_ok (socket l x) (pipe l x) (sk_sent (socket l (opposite x)))"
      using assms(1) by (simp add: link_ok_flow)
    then show ?thesis
      using same by (auto intro: flow_ok_cong)
  qed (use assms(4) in simp)
  then show ?thesis
    using assms(1-3) by (simp add: link_ok_flow)
qed

lemma link_ok_flowD: "link_ok l \<Longrightarrow> flow_ok (socket l d) (pipe l d) (sk_sent (socket l (opposite d)))"
  by (simp add: link_ok_flow)

lemma take_to_length: "take k xs = take (min k (length xs)) xs"
  by (cases "k \<le> length xs") simp_all

text \<open>The new state of a direction and of the socket it writes to.\<close>

lemma link_ok_change:
  assumes ok: "link_ok l" and l': "l' = set_pipe d p (change_socket d f l)"
    and live: "p \<noteq> Ended" "pipe l d \<noteq> Ended"
    and f: "sk_open (f (socket l d)) = sk_open (socket l d)" "sk_sent (f (socket l d)) = sk_sent (socket l d)"
    and flow: "flow_ok (f (socket l d)) p (sk_sent (socket l (opposite d)))"
  shows "link_ok l'"
proof (rule link_ok_direction [OF ok, of l' d])
  show "sk_open (socket l' x) \<longleftrightarrow> sk_open (socket l x)" for x
    by (simp add: l' set_pipe_def change_socket_def f)
  show "pipe l' x = Ended \<longleftrightarrow> pipe l x = Ended" for x
    using live by (simp add: l' set_pipe_def change_socket_def)
  show "flow_ok (socket l' d) (pipe l' d) (sk_sent (socket l' (opposite d)))"
    using flow by (simp add: l' set_pipe_def change_socket_def)
  show "pipe l' x = pipe l x \<and> sk_read (socket l' x) = sk_read (socket l x)
      \<and> sk_arrived (socket l' x) = sk_arrived (socket l x)
      \<and> sk_sent (socket l' (opposite x)) = sk_sent (socket l (opposite x))" if "x \<noteq> d" for x
    using that by (simp add: l' set_pipe_def change_socket_def f)
qed

lemma link_ok_write:
  assumes ok: "link_ok l" and c: "pipe l d = Holding c"
  shows "link_ok (set_pipe d Reading (change_socket (opposite d) (\<lambda>s. s\<lparr>sk_sent := sk_sent s @ c\<rparr>) l))"
    (is "link_ok ?l")
proof (rule link_ok_direction [OF ok, of ?l d])
  have "flow_ok (socket l d) Reading (sk_sent (socket l (opposite d)) @ c)"
    using link_ok_flowD [OF ok, of d] c by (auto intro: flow_ok_send)
  then show "flow_ok (socket ?l d) (pipe ?l d) (sk_sent (socket ?l (opposite d)))"
    by (simp add: set_pipe_def change_socket_def)
  show "sk_open (socket ?l x) \<longleftrightarrow> sk_open (socket l x)" for x
    by (simp add: set_pipe_def change_socket_def)
  show "pipe ?l x = Ended \<longleftrightarrow> pipe l x = Ended" for x
    using c by (simp add: set_pipe_def change_socket_def)
  show "pipe ?l x = pipe l x \<and> sk_read (socket ?l x) = sk_read (socket l x)
      \<and> sk_arrived (socket ?l x) = sk_arrived (socket l x)
      \<and> sk_sent (socket ?l (opposite x)) = sk_sent (socket l (opposite x))" if "x \<noteq> d" for x
    using that by (simp add: set_pipe_def change_socket_def)
qed

lemma link_ok_cut:
  assumes ok: "link_ok l" and c: "pipe l d = Holding c"
  shows "link_ok (finish_pipe d (change_socket (opposite d) (\<lambda>s. s\<lparr>sk_sent := sk_sent s @ take k c\<rparr>) l))"
    (is "link_ok (finish_pipe d ?l)")
proof (rule link_ok_ends)
  fix x
  have cut: "flow_ok (socket l d) Ended (sk_sent (socket l (opposite d)) @ take k c)"
    using link_ok_flowD [OF ok, of d] c by (auto intro: flow_ok_cut)
  show "flow_ok (socket ?l x) (if x = d then Ended else pipe ?l x) (sk_sent (socket ?l (opposite x)))"
  proof (cases "x = d")
    case True
    then show ?thesis
      using cut by (simp add: change_socket_def)
  next
    case False
    have "flow_ok (socket ?l x) (pipe l x) (sk_sent (socket l (opposite x)))"
      by (rule flow_ok_cong [OF link_ok_flowD [OF ok, of x]]) (simp_all add: change_socket_def)
    then show ?thesis
      using False by (simp add: change_socket_def)
  qed
qed

lemma set_pipe_same: "pipe l d = p \<Longrightarrow> change_socket d f l = set_pipe d p (change_socket d f l)"
  by (auto simp: set_pipe_def change_socket_def)

lemma link_ok_event:
  assumes ok: "link_ok l" and e: "do_event e l = Some l'"
  shows "link_ok l'"
proof (cases e)
  case (Recv d n)
  note flow = link_ok_flowD [OF ok, of d]
  show ?thesis
  proof (cases "sk_open (socket l d) \<and> unread (socket l d) \<noteq> []")
    case True
    define k where "k = min (max 1 (min n 65536)) (length (unread (socket l d)))"
    have "pipe l d = Reading" and l': "l' = set_pipe d (Holding (take k (unread (socket l d))))
        (change_socket d (\<lambda>s. s\<lparr>sk_read := sk_read s + k\<rparr>) l)"
      using True e take_to_length [of "max 1 (min n 65536)" "unread (socket l d)"]
      by (auto simp: Recv pipe_recv_def Let_def k_def min.commute split: if_splits)
    then show ?thesis
      using flow_ok_recv [of "socket l d" _ k] flow
      by (intro link_ok_change [OF ok l']) (simp_all add: k_def)
  next
    case False
    then have "l' = finish_pipe d l"
      using e by (auto simp: Recv pipe_recv_def Let_def split: if_splits)
    then show ?thesis
      using link_ok_finish [OF ok] by simp
  qed
next
  case (Timeout d t)
  then show ?thesis
    using e link_ok_finish [OF ok] by (auto simp: pipe_timeout_def Let_def split: if_splits)
next
  case (Send d k)
  then obtain c where c: "pipe l d = Holding c"
    using e by (auto simp: pipe_send_def split: pipe_state.splits)
  then have "l' = finish_pipe d l
      \<or> l' = set_pipe d Reading (change_socket (opposite d) (\<lambda>s. s\<lparr>sk_sent := sk_sent s @ c\<rparr>) l)
      \<or> (\<exists>k. l' = finish_pipe d (change_socket (opposite d) (\<lambda>s. s\<lparr>sk_sent := sk_sent s @ take k c\<rparr>) l))"
    using e by (cases k) (simp_all add: Send pipe_send_def Let_def split: if_splits, blast+)
  then show ?thesis
    using link_ok_finish [OF ok] link_ok_write [OF ok c] link_ok_cut [OF ok c] by blast
next
  case (Arrive d bs)
  then have "sk_open (socket l d)" and l': "l' = change_socket d (\<lambda>s. s\<lparr>sk_arrived := sk_arrived s @ bs\<rparr>) l"
    using e by (simp_all add: peer_sends_def split: if_splits)
  then have "pipe l d \<noteq> Ended"
    using ok by (simp add: link_ok_flow)
  then show ?thesis
    using flow_ok_arrive [OF link_ok_flowD [OF ok, of d]]
    by (intro link_ok_change [OF ok trans [OF l' set_pipe_same [OF refl]]]) simp_all
next
  case (EndOf d)
  then have "sk_open (socket l d)" and l': "l' = change_socket d (\<lambda>s. s\<lparr>sk_eof := True\<rparr>) l"
    using e by (simp_all add: peer_ends_def split: if_splits)
  then have "pipe l d \<noteq> Ended"
    using ok by (simp add: link_ok_flow)
  then show ?thesis
    using flow_ok_cong [OF link_ok_flowD [OF ok, of d]]
    by (intro link_ok_change [OF ok trans [OF l' set_pipe_same [OF refl]]]) simp_all
qed

lemma link_ok_reach: "link_reach l0 l \<Longrightarrow> link_ok l0 \<Longrightarrow> link_ok l"
  by (induction rule: link_reach.induct) (auto intro: link_ok_event)

subsection \<open>Undisturbed delivery\<close>

text \<open>One byte after the other, a pipe whose link stays open passes on what has arrived.\<close>

lemma forward_chunk:
  assumes "link_ok l" and "pipe l d = Reading" and "sk_open (socket l d)" and "unread (socket l d) \<noteq> []"
  shows "\<exists>l'. link_reach l l' \<and> pipe l' d = Reading \<and> sk_open (socket l' d)
    \<and> sk_arrived (socket l' d) = sk_arrived (socket l d)
    \<and> length (unread (socket l' d)) < length (unread (socket l d))"
proof -
  let ?c = "take 1 (unread (socket l d))"
  let ?l1 = "set_pipe d (Holding ?c) (change_socket d (\<lambda>s. s\<lparr>sk_read := sk_read s + 1\<rparr>) l)"
  let ?l2 = "set_pipe d Reading (change_socket (opposite d) (\<lambda>s. s\<lparr>sk_sent := sk_sent s @ ?c\<rparr>) ?l1)"
  have one: "length ?c = 1"
    using assms(4) by (cases "unread (socket l d)") simp_all
  have "do_event (Recv d 1) l = Some ?l1"
    using assms(2-4) one by (simp add: pipe_recv_def Let_def)
  moreover have "sk_open (socket l (opposite d))"
    using assms(1,3) by (simp add: link_ok_flow)
  then have "do_event (Send d None) ?l1 = Some ?l2"
    by (simp add: pipe_send_def set_pipe_def change_socket_def Let_def)
  ultimately have "link_reach l ?l2"
    by (blast intro: link_reach.intros)
  moreover have "unread (socket ?l2 d) = drop 1 (unread (socket l d))"
    by (simp add: unread_def set_pipe_def change_socket_def)
  ultimately show ?thesis
    using assms(3,4) one
    by (intro exI [of _ ?l2]) (simp add: set_pipe_def change_socket_def)
qed

lemma forward_all:
  assumes "link_ok l" and "pipe l d = Reading" and "sk_open (socket l d)"
  shows "\<exists>l'. link_reach l l' \<and> sk_sent (socket l' (opposite d)) = sk_arrived (socket l d)"
  using assms
proof (induction "length (unread (socket l d))" arbitrary: l rule: less_induct)
  case less
  show ?case
  proof (cases "unread (socket l d) = []")
    case True
    then have "sk_sent (socket l (opposite d)) = sk_arrived (socket l d)"
      using link_ok_flowD [OF less.prems(1), of d] less.prems(2) by (simp add: flow_ok_def unread_def)
    then show ?thesis
      using link_reach.start by blast
  next
    case False
    from forward_chunk [OF less.prems False] obtain l1 where l1: "link_reach l l1" "pipe l1 d = Reading"
      "sk_open (socket l1 d)" "sk_arrived (socket l1 d) = sk_arrived (socket l d)"
      "length (unread (socket l1 d)) < length (unread (socket l d))" by blast
    from less.hyps [OF l1(5) link_ok_reach [OF l1(1) less.prems(1)] l1(2,3)] show ?thesis
      using l1(1,4) link_reach_trans by metis
  qed
qed

lemma finish_ready:
  assumes "link_ok l" and "sk_open (socket l d)"
  shows "\<exists>l'. link_reach l l' \<and> pipe l' d = Reading \<and> sk_open (socket l' d)
    \<and> sk_arrived (socket l' d) = sk_arrived (socket l d)"
proof (cases "pipe l d")
  case Reading
  then show ?thesis
    using assms link_reach.start by blast
next
  case (Holding c)
  let ?l = "set_pipe d Reading (change_socket (opposite d) (\<lambda>s. s\<lparr>sk_sent := sk_sent s @ c\<rparr>) l)"
  have "sk_open (socket l (opposite d))"
    using assms by (simp add: link_ok_flow)
  then have "do_event (Send d None) l = Some ?l"
    by (simp add: pipe_send_def Holding Let_def)
  then have "link_reach l ?l"
    by (blast intro: link_reach.intros)
  then show ?thesis
    using assms(2) by (intro exI [of _ ?l]) (simp add: set_pipe_def change_socket_def)
next
  case Ended
  then show ?thesis
    using assms by (metis link_ok_flow)
qed

text \<open>
  C39: The relay passes bytes on as they are: in every reachable state of a connection, what has
  been written on one side is the beginning of what arrived on the other; and as long as the
  connection is open it can go on so that all of it is written, whatever happened before.
\<close>

theorem relay_in_order:
  assumes "link_reach new_link l"
  shows "prefix (sk_sent (socket l (opposite d))) (sk_arrived (socket l d))
    \<and> (sk_open (socket l d) \<longrightarrow>
         (\<exists>l'. link_reach l l' \<and> sk_sent (socket l' (opposite d)) = sk_arrived (socket l d)))"
proof -
  have ok: "link_ok l"
    using link_ok_reach [OF assms link_ok_new] .
  show ?thesis
  proof (intro conjI impI)
    show "prefix (sk_sent (socket l (opposite d))) (sk_arrived (socket l d))"
      using link_ok_flowD [OF ok] by (rule flow_ok_prefix)
  next
    assume "sk_open (socket l d)"
    from finish_ready [OF ok this] obtain l1 where l1: "link_reach l l1" "pipe l1 d = Reading"
      "sk_open (socket l1 d)" "sk_arrived (socket l1 d) = sk_arrived (socket l d)" by blast
    from forward_all [OF link_ok_reach [OF l1(1) ok] l1(2,3)]
    show "\<exists>l'. link_reach l l' \<and> sk_sent (socket l' (opposite d)) = sk_arrived (socket l d)"
      using l1(1,4) link_reach_trans by metis
  qed
qed

subsection \<open>The end of one direction is the end of both\<close>

lemma closed_event:
  assumes "do_event e l = Some l'" and "\<forall>d. \<not> sk_open (socket l d)"
  shows "(\<forall>d. \<not> sk_open (socket l' d)) \<and> sk_sent (socket l' d) = sk_sent (socket l d)"
  using assms
  by (cases e)
    (auto simp: link_defs Let_def split: if_splits pipe_state.splits option.splits)

lemma closed_reach:
  "link_reach l l' \<Longrightarrow> \<forall>d. \<not> sk_open (socket l d) \<Longrightarrow>
     (\<forall>d. \<not> sk_open (socket l' d)) \<and> (\<forall>d. sk_sent (socket l' d) = sk_sent (socket l d))"
  by (induction rule: link_reach.induct) (use closed_event in \<open>fastforce+\<close>)

text \<open>
  Once the pipe of one direction has ended, because its sender has no more to send or the target
  was silent for ten seconds, nothing is written in the other direction any more: a peer that
  closes its sending half never gets the rest of the answer.
\<close>

lemma half_close_cuts:
  assumes "link_reach new_link l" and "pipe l x = Ended" and "link_reach l l'"
  shows "sk_sent (socket l' d) = sk_sent (socket l d)"
proof -
  have "\<forall>d. \<not> sk_open (socket l d)"
    using link_ok_reach [OF assms(1) link_ok_new] assms(2) by (auto simp: link_ok_flow)
  then show ?thesis
    using closed_reach [OF assms(3)] by simp
qed

text \<open>A target that is silent for ten seconds can lose its connection, a client cannot.\<close>

lemma silent_target_is_cut:
  assumes "link_reach new_link l" and "sk_open (socket l Upstream)" and "pipe l Upstream = Reading"
    and "unread (socket l Upstream) = []" and "\<not> sk_eof (socket l Upstream)"
  shows "do_event (Timeout Upstream 10) l = Some (finish_pipe Upstream l)
    \<and> do_event (Timeout Client t) l = None"
proof -
  have "sk_limit (socket l d) = sk_limit (socket (new_link :: 'a link) d)" for d
    using assms(1)
  proof (induction rule: link_reach.induct)
    case (step l e l')
    have "sk_limit (socket l' d) = sk_limit (socket l d)"
      using step.hyps(2)
      by (cases e) (auto simp: link_defs Let_def split: if_splits pipe_state.splits option.splits)
    then show ?case
      using step.IH by simp
  qed simp
  then show ?thesis
    using assms(2-5) by (simp add: pipe_timeout_def new_link_def fresh_socket_def Let_def)
qed

text \<open>A request of two bytes.\<close>

lemma relay_in_order_witness:
  "\<exists>l :: nat link. link_reach new_link l
     \<and> prefix (sk_sent (socket l Upstream)) (sk_arrived (socket l Client)) \<and> sk_arrived (socket l Client) = [1, 2]"
proof -
  let ?l = "change_socket Client (\<lambda>s. s\<lparr>sk_arrived := sk_arrived s @ [1, 2]\<rparr>) (new_link :: nat link)"
  have "do_event (Arrive Client [1, 2]) (new_link :: nat link) = Some ?l"
    by (simp add: peer_sends_def new_link_def fresh_socket_def)
  then have "link_reach new_link ?l"
    by (blast intro: link_reach.intros)
  from this relay_in_order [OF this, of Client] show ?thesis
    by (intro exI [of _ ?l]) (simp add: change_socket_def new_link_def fresh_socket_def)
qed

end
