(* ===== verification/Discovery.thy ===== *)
theory Discovery
  imports MeshVpn Text
begin

section \<open>Discovery on the local network (mesh/discovery/mdns.py)\<close>

text \<open>
  What a driver advertises, how a browser reads it, and the wait for the first driver.  The
  library for multicast DNS is not modelled: a service is the record of its addresses, port and
  properties, whose bytes are ASCII text, and the environment says whether the library is
  installed, which services it reports, and what the socket for the local address gives.
\<close>

subsection \<open>Numbers as text\<close>

lemma is_digit_char [simp]: "k < 10 \<Longrightarrow> is_digit (char_of (48 + k :: nat))"
  by (simp add: is_digit_def)

lemma digit_val_char [simp]: "k < 10 \<Longrightarrow> digit_val (char_of (48 + k :: nat)) = k"
  by (simp add: digit_val_def)

lemma nat_digits_digits: "c \<in> set (nat_digits n) \<Longrightarrow> is_digit c"
proof (induction n rule: nat_digits.induct)
  case (1 n)
  then show ?case
    by (subst (asm) (2) nat_digits.simps) (auto split: if_splits)
qed

lemma nat_digits_not_Nil [simp]: "nat_digits n \<noteq> []"
  by (subst nat_digits.simps) simp

lemma digits_val_snoc: "digits_val (s @ [c]) = (if is_digit c then 10 * digits_val s + digit_val c else digits_val s)"
  by (simp add: digits_val_def)

lemma digits_val_nat_digits [simp]: "digits_val (nat_digits n) = n"
proof (induction n rule: nat_digits.induct)
  case (1 n)
  show ?case
  proof (cases "n < 10")
    case True
    then show ?thesis
      using digits_val_snoc [of "[]" "char_of (48 + n)"]
      by (simp add: nat_digits.simps [of n] digits_val_def [of "[]"])
  next
    case False
    then show ?thesis
      using 1 by (simp add: nat_digits.simps [of n] digits_val_snoc)
  qed
qed

lemma digit_tail_digits: "\<forall>c \<in> set s. is_digit c \<Longrightarrow> digit_tail s"
  by (induction s rule: digit_tail.induct) simp_all

lemma digit_part_digits: "s \<noteq> [] \<Longrightarrow> \<forall>c \<in> set s. is_digit c \<Longrightarrow> digit_part s"
  by (cases s) (simp_all add: digit_part_def digit_tail_digits)

lemma digit_not_space: "is_digit c \<Longrightarrow> \<not> is_space c"
  by (auto simp: is_digit_def is_space_def)

lemma digit_not_sign: "is_digit c \<Longrightarrow> c \<noteq> CHR ''-'' \<and> c \<noteq> CHR ''+''"
  by (auto simp: is_digit_def)

lemma parse_int_text [simp]: "parse_int (int_text i) = Inr i"
proof -
  have part: "digit_part (nat_digits n)" for n
    using nat_digits_digits by (simp add: digit_part_digits)
  have strip: "strip (int_text i) = int_text i"
    by (rule strip_space_free)
      (auto simp: int_text_def dest: nat_digits_digits digit_not_space, simp add: is_space_def)
  have "split_sign (nat_digits n) = (1, nat_digits n)" for n
    using nat_digits_digits [of _ n] digit_not_sign
    by (cases "nat_digits n") (auto simp: split_sign_def)
  then show ?thesis
    unfolding parse_int_def strip by (auto simp: int_text_def split_sign_def part)
qed

subsection \<open>Addresses\<close>

text \<open>
  \<^verbatim>\<open>inet_aton\<close>: up to four numbers between dots, decimal, octal after a zero or hexadecimal after
  \<^verbatim>\<open>0x\<close>; each but the last is a byte and the last fills the bytes that remain.  What follows
  a white space is ignored.
\<close>

definition hex_digit :: "char \<Rightarrow> nat option" where
  "hex_digit c =
     (if is_digit c then Some (digit_val c)
      else if of_char c \<in> {97 .. (102::nat)} then Some (of_char c - 87)
      else if of_char c \<in> {65 .. (70::nat)} then Some (of_char c - 55)
      else None)"

fun number_in :: "nat \<Rightarrow> string \<Rightarrow> nat \<Rightarrow> nat option" where
  "number_in base [] acc = Some acc"
| "number_in base (c # s) acc =
     (case hex_digit c of
        None \<Rightarrow> None
      | Some v \<Rightarrow> if v < base then number_in base s (acc * base + v) else None)"

definition address_part :: "string \<Rightarrow> nat option" where
  "address_part s =
     (case s of
        [] \<Rightarrow> None
      | c # t \<Rightarrow>
          if c \<noteq> CHR ''0'' then number_in 10 s 0
          else (case t of
                  x # u \<Rightarrow>
                    if x = CHR ''x'' \<or> x = CHR ''X'' then (if u = [] then None else number_in 16 u 0)
                    else number_in 8 t 0
                | [] \<Rightarrow> Some 0))"

fun bytes_of :: "nat \<Rightarrow> nat \<Rightarrow> nat list" where
  "bytes_of 0 v = []"
| "bytes_of (Suc n) v = bytes_of n (v div 256) @ [v mod 256]"

definition inet_aton :: "string \<Rightarrow> nat list result" where
  "inet_aton s =
     (let parts = map address_part (split_on CHR ''.'' (takeWhile (\<lambda>c. \<not> is_space c) s));
          vs = map the parts;
          room = 5 - length vs
      in if None \<in> set parts \<or> 4 < length vs \<or> (\<exists>v \<in> set (butlast vs). 256 \<le> v) \<or> 256 ^ room \<le> last vs
         then Inl OSError
         else Inr (butlast vs @ bytes_of room (last vs)))"

definition inet_ntoa :: "nat list \<Rightarrow> string result" where
  "inet_ntoa a = (if length a = 4 then Inr (join_with ''.'' (map nat_digits a)) else Inl OSError)"

subsection \<open>Advertising\<close>

record service_info =
  si_addresses :: "nat list list"
  si_port :: int
  si_properties :: "(string \<times> string option) list"

record advertiser =
  ad_grpc_port :: int
  ad_api_port :: int
  ad_site :: string
  ad_host :: string

text \<open>The name the socket gives, \<open>None\<close> where connecting it raises \<^verbatim>\<open>OSError\<close>.\<close>

definition local_ip :: "string option \<Rightarrow> string" where
  "local_ip sock = (case sock of Some ip \<Rightarrow> ip | None \<Rightarrow> ''127.0.0.1'')"

definition new_advertiser :: "int \<Rightarrow> int \<Rightarrow> string \<Rightarrow> string option \<Rightarrow> string option \<Rightarrow> advertiser" where
  "new_advertiser grpc api site host sock =
     \<lparr>ad_grpc_port = grpc, ad_api_port = api, ad_site = site,
      ad_host = (case host of Some (c # cs) \<Rightarrow> c # cs | _ \<Rightarrow> local_ip sock)\<rparr>"

text \<open>The service \<^verbatim>\<open>start\<close> registers; \<open>installed\<close> says whether the library is.\<close>

definition advertise :: "bool \<Rightarrow> advertiser \<Rightarrow> service_info result" where
  "advertise installed a =
     (if \<not> installed then Inl ImportError
      else ebind (inet_aton (ad_host a)) (\<lambda>addr.
        Inr \<lparr>si_addresses = [addr], si_port = ad_grpc_port a,
             si_properties = [(''grpc_port'', Some (int_text (ad_grpc_port a))),
               (''api_port'', Some (int_text (ad_api_port a))), (''site'', Some (ad_site a))]\<rparr>))"

subsection \<open>Browsing\<close>

record driver_record =
  dv_host :: string
  dv_grpc_port :: int
  dv_api_port :: int
  dv_site :: string

definition grpc_address :: "driver_record \<Rightarrow> string" where
  "grpc_address r = dv_host r @ '':'' @ int_text (dv_grpc_port r)"

text \<open>\<^verbatim>\<open>int(props.get(k, default))\<close>\<close>

definition port_property :: "string dict \<Rightarrow> string \<Rightarrow> int \<Rightarrow> int result" where
  "port_property props k d = (case dict_get props k of None \<Rightarrow> Inr d | Some v \<Rightarrow> parse_int v)"

definition read_service :: "service_info \<Rightarrow> driver_record result" where
  "read_service info =
     (case si_addresses info of
        [] \<Rightarrow> Inl IndexError
      | a # as \<Rightarrow>
          ebind (inet_ntoa a) (\<lambda>host.
          ebind (map_result (\<lambda>(k, v). case v of None \<Rightarrow> Inl AttributeError | Some x \<Rightarrow> Inr (k, x))
                  (si_properties info)) (\<lambda>kvs.
          let props = fold (\<lambda>(k, v). dict_set k v) kvs [] in
          ebind (port_property props ''grpc_port'' (si_port info)) (\<lambda>grpc.
          ebind (port_property props ''api_port'' 8080) (\<lambda>api.
            Inr \<lparr>dv_host = host, dv_grpc_port = grpc, dv_api_port = api,
                 dv_site = dict_get_default props ''site'' ''default''\<rparr>)))))"

text \<open>The browser and what its callback has received.\<close>

record browser =
  br_records :: "driver_record list"
  br_callback :: bool
  br_found :: "driver_record list"

definition new_browser :: "bool \<Rightarrow> browser" where
  "new_browser callback = \<lparr>br_records = [], br_callback = callback, br_found = []\<rparr>"

definition add_service :: "service_info option \<Rightarrow> (browser, unit) py" where
  "add_service info b =
     (case info of
        None \<Rightarrow> (Inr (), b)
      | Some i \<Rightarrow>
          (case read_service i of
             Inl e \<Rightarrow> (Inl e, b)
           | Inr rec \<Rightarrow>
               (Inr (), b\<lparr>br_records := br_records b @ [rec],
                          br_found := (if br_callback b then br_found b @ [rec] else br_found b)\<rparr>)))"

text \<open>
  The wait polls the clock and the list of found drivers; a driver that was found is returned
  even where it came with the last poll, after the deadline.  The result is \<open>None\<close> while it waits.
\<close>

fun wait_found :: "real \<Rightarrow> (real \<times> driver_record list) list \<Rightarrow> driver_record list \<Rightarrow> driver_record option option" where
  "wait_found deadline [] found = None"
| "wait_found deadline ((now, new) # polls) found =
     (let found' = found @ new in
      if now < deadline \<and> found' = [] then wait_found deadline polls found'
      else Some (case found' of [] \<Rightarrow> None | r # rs \<Rightarrow> Some r))"

definition discover_driver ::
  "bool \<Rightarrow> real \<Rightarrow> real \<Rightarrow> (real \<times> driver_record list) list \<Rightarrow> driver_record option option result" where
  "discover_driver installed start timeout polls =
     (if \<not> installed then Inl ImportError else Inr (wait_found (start + timeout) polls []))"

text \<open>The wait ends, and with the driver that was found first.\<close>

lemma wait_found_ends:
  assumes "deadline \<le> now"
  shows "\<exists>r. wait_found deadline (polls @ (now, new) # rest) found = Some r"
  using assms by (induction polls arbitrary: found) (auto simp: Let_def)

lemma wait_found_first:
  assumes "\<forall>(now, new) \<in> set polls. now < deadline \<and> new = []"
  shows "wait_found deadline (polls @ (t, r # rs) # rest) [] = Some (Some r)"
  using assms by (induction polls) (auto simp: Let_def)

subsection \<open>What is advertised is found\<close>

lemma number_in_decimal:
  assumes "\<forall>c \<in> set s. is_digit c"
  shows "number_in 10 s acc = Some (foldl (\<lambda>a c. if is_digit c then 10 * a + digit_val c else a) acc s)"
  using assms
proof (induction s arbitrary: acc)
  case (Cons c s)
  then have "hex_digit c = Some (digit_val c)" "digit_val c < 10"
    by (auto simp: hex_digit_def digit_val_def is_digit_def)
  then show ?case
    using Cons by (simp add: mult.commute)
qed simp

lemma nat_digits_zero: "nat_digits n = CHR ''0'' # t \<Longrightarrow> t = [] \<and> n = 0"
proof (induction n arbitrary: t rule: nat_digits.induct)
  case (1 n)
  show ?case
  proof (cases "n < 10")
    case True
    then have "char_of (48 + n) = CHR ''0''" "t = []"
      using "1.prems" by (simp_all add: nat_digits.simps [of n])
    then have "of_char (char_of (48 + n) :: char) = (48 :: nat)"
      by simp
    then show ?thesis
      using True \<open>t = []\<close> by simp
  next
    case False
    obtain u where "nat_digits (n div 10) = CHR ''0'' # u"
      using "1.prems" False
      by (cases "nat_digits (n div 10)") (simp_all add: nat_digits.simps [of n])
    from "1.IH" [OF False this] have "n div 10 = 0" ..
    with False show ?thesis
      by (simp add: div_eq_0_iff)
  qed
qed

lemma address_part_digits [simp]: "address_part (nat_digits n) = Some n"
proof -
  obtain c t where n: "nat_digits n = c # t"
    by (cases "nat_digits n") simp_all
  show ?thesis
  proof (cases "c = CHR ''0''")
    case True
    then show ?thesis
      using nat_digits_zero [of n t] n by (simp add: address_part_def)
  next
    case False
    have "number_in 10 (nat_digits n) 0 = Some (digits_val (nat_digits n))"
      unfolding digits_val_def using nat_digits_digits by (intro number_in_decimal) blast
    then have "number_in 10 (c # t) 0 = Some n"
      by (simp only: digits_val_nat_digits flip: n)
    then show ?thesis
      using False by (simp only: address_part_def n list.case if_False if_True not_not simp_thms)
  qed
qed

lemma dotted_characters:
  assumes "c \<in> set (join_with ''.'' (map nat_digits a))"
  shows "is_digit c \<or> c = CHR ''.''"
proof -
  have "c \<in> set (join_with sep ws) \<Longrightarrow> c \<in> set sep \<or> (\<exists>w \<in> set ws. c \<in> set w)" for c sep ws
    by (induction sep ws rule: join_with.induct) auto
  then show ?thesis
    using assms nat_digits_digits by fastforce
qed

lemma aton_ntoa:
  assumes "length a = 4" and "\<forall>b \<in> set a. b < 256" and "inet_ntoa a = Inr h"
  shows "inet_aton h = Inr a"
proof -
  obtain w x y z where a: "a = [w, x, y, z]"
    using assms(1) by (auto simp: numeral_eq_Suc length_Suc_conv)
  have h: "h = join_with ''.'' (map nat_digits a)"
    using assms(1,3) by (simp add: inet_ntoa_def)
  have "\<not> is_space c" if "c \<in> set h" for c
    using dotted_characters [of c a] that digit_not_space unfolding h by (auto simp: is_space_def)
  then have whole: "takeWhile (\<lambda>c. \<not> is_space c) h = h"
    by simp
  have "split_on CHR ''.'' h = map nat_digits a"
    unfolding h
  proof (rule split_join)
    have "\<not> is_digit CHR ''.''"
      by (simp add: is_digit_def)
    then show "\<forall>w \<in> set (map nat_digits a). CHR ''.'' \<notin> set w"
      using nat_digits_digits by auto
  qed (simp add: a)
  then have "map address_part (split_on CHR ''.'' (takeWhile (\<lambda>c. \<not> is_space c) h)) = map Some a"
    by (simp add: whole)
  then show ?thesis
    using assms(2) by (simp add: inet_aton_def a)
qed

text \<open>
  C40: A browser finds the driver that advertises itself: where the host of the driver is an
  address in dotted decimal form, the record read from its service has the host, both ports and
  the site of the driver, and the address to call is host and port.
\<close>

theorem advertised_is_found:
  assumes "advertise installed a = Inr info" and "inet_ntoa bytes = Inr (ad_host a)"
    and "\<forall>b \<in> set bytes. b < 256"
  shows "\<exists>b. add_service (Some info) (new_browser True) = (Inr (), b)
    \<and> br_found b = [\<lparr>dv_host = ad_host a, dv_grpc_port = ad_grpc_port a, dv_api_port = ad_api_port a,
          dv_site = ad_site a\<rparr>]
    \<and> grpc_address (hd (br_found b)) = ad_host a @ '':'' @ int_text (ad_grpc_port a)"
proof -
  have "length bytes = 4"
    using assms(2) by (simp add: inet_ntoa_def split: if_splits)
  then have aton: "inet_aton (ad_host a) = Inr bytes"
    using aton_ntoa assms(2,3) by blast
  have info: "info = \<lparr>si_addresses = [bytes], si_port = ad_grpc_port a,
             si_properties = [(''grpc_port'', Some (int_text (ad_grpc_port a))),
               (''api_port'', Some (int_text (ad_api_port a))), (''site'', Some (ad_site a))]\<rparr>"
    using assms(1) aton by (simp add: advertise_def split: if_splits)
  have "read_service info = Inr \<lparr>dv_host = ad_host a, dv_grpc_port = ad_grpc_port a,
      dv_api_port = ad_api_port a, dv_site = ad_site a\<rparr>"
    using assms(2) by (simp add: read_service_def info port_property_def dict_get_default_def)
  then show ?thesis
    by (simp add: add_service_def new_browser_def grpc_address_def)
qed

lemma advertised_is_found_witness:
  "\<exists>a info b. advertise True a = Inr info \<and> ad_host a = ''10.0.0.7''
     \<and> add_service (Some info) (new_browser True) = (Inr (), b)
     \<and> br_found b = [\<lparr>dv_host = ''10.0.0.7'', dv_grpc_port = 50050, dv_api_port = 8080, dv_site = ''lab''\<rparr>]"
proof -
  let ?a = "new_advertiser 50050 8080 ''lab'' (Some ''10.0.0.7'') None"
  have bytes: "inet_ntoa [10, 0, 0, 7] = Inr (ad_host ?a)" "\<forall>b \<in> set [10, 0, 0, 7 :: nat]. b < 256"
    by code_simp+
  have "inet_aton (ad_host ?a) = Inr [10, 0, 0, 7]"
    using bytes by (intro aton_ntoa) simp_all
  then obtain info where info: "advertise True ?a = Inr info"
    by (simp add: advertise_def)
  from advertised_is_found [OF info bytes] info show ?thesis
    by (intro exI [of _ ?a] exI [of _ info]) (auto simp: new_advertiser_def)
qed

end
