(* ===== verification/Startup.thy ===== *)
theory Startup
  imports AgentWitnesses Discovery Monitor Libraries
begin

section \<open>Starting an agent (mesh/agent/config.py, mesh/agent/daemon.py, mesh/cli.py)\<close>

text \<open>
  Where an agent gets its settings from, the environment, the command line and discovery, for the
  two commands that start one; and \<^verbatim>\<open>AgentDaemon.start\<close>, which registers before it loops.  The
  environment variables, the parsed arguments, what discovery gives and what the driver answers
  are arguments.
\<close>

subsection \<open>Settings\<close>

definition config_from_env :: "(string \<Rightarrow> string option) \<Rightarrow> string \<Rightarrow> agent_config" where
  "config_from_env env host =
     (let get = (\<lambda>k d. case env k of None \<Rightarrow> d | Some v \<Rightarrow> v) in
      \<lparr>cfg_node_id = get ''MESH_NODE_ID'' host,
       cfg_driver_address = get ''MESH_DRIVER_ADDRESS'' ''localhost:50050'',
       cfg_agent_address = get ''MESH_AGENT_ADDRESS'' ''localhost:50051'',
       cfg_location = get ''MESH_LOCATION'' ''default'',
       cfg_preemptible = (lower (get ''MESH_PREEMPTIBLE'' ''true'') = ''true''),
       cfg_heartbeat_interval = 2, cfg_resource_interval = 1, cfg_cpu_threshold = 85 / 100\<rparr>)"

text \<open>An argument that is absent or empty changes nothing.\<close>

definition given :: "string option \<Rightarrow> bool" where
  "given x = (case x of Some (c # cs) \<Rightarrow> True | _ \<Rightarrow> False)"

definition or_given :: "string option \<Rightarrow> string \<Rightarrow> string" where
  "or_given x d = (case x of Some (c # cs) \<Rightarrow> c # cs | _ \<Rightarrow> d)"

record agent_args =
  aa_driver :: "string option"
  aa_agent_addr :: "string option"
  aa_node_id :: "string option"
  aa_location :: "string option"
  aa_discover :: bool

text \<open>What an attempt to discover a driver gives; the error is that of a missing library.\<close>

type_synonym discovery = "driver_record option result"

text \<open>
  \<^verbatim>\<open>main\<close> of the daemon up to the daemon: \<open>Inr None\<close> is the exit of the argument parser.
\<close>

definition discovered_config :: "string option \<Rightarrow> driver_record \<Rightarrow> agent_config \<Rightarrow> agent_config" where
  "discovered_config loc r cfg =
     (let c = cfg\<lparr>cfg_driver_address := grpc_address r\<rparr>
      in if given loc then c else c\<lparr>cfg_location := dv_site r\<rparr>)"

definition daemon_config :: "agent_args \<Rightarrow> discovery \<Rightarrow> agent_config \<Rightarrow> agent_config option result" where
  "daemon_config args disc cfg =
     ebind (if aa_discover args \<or> \<not> given (aa_driver args) \<and> cfg_driver_address cfg = []
            then ebind disc (\<lambda>r.
                   case r of
                     Some rec \<Rightarrow> Inr (Some (discovered_config (aa_location args) rec cfg))
                   | None \<Rightarrow> if cfg_driver_address cfg = [] then Inr None else Inr (Some cfg))
            else Inr (Some cfg)) (\<lambda>found.
     Inr (map_option (\<lambda>c.
       c\<lparr>cfg_driver_address := or_given (aa_driver args) (cfg_driver_address c),
         cfg_agent_address := or_given (aa_agent_addr args) (cfg_agent_address c),
         cfg_node_id := or_given (aa_node_id args) (cfg_node_id c),
         cfg_location := or_given (aa_location args) (cfg_location c)\<rparr>) found))"

text \<open>
  \<^verbatim>\<open>clustermesh join\<close>: its argument for the address of the agent has a default, and so always
  replaces the environment.  The result is the configuration, or \<open>None\<close> for the exit code \<open>1\<close>.
\<close>

record join_args =
  ja_driver :: "string option"
  ja_discover :: bool
  ja_location :: "string option"
  ja_node_id :: "string option"
  ja_agent_addr :: string
  ja_no_preempt :: bool

definition default_join :: join_args where
  "default_join =
     \<lparr>ja_driver = None, ja_discover = False, ja_location = None, ja_node_id = None,
      ja_agent_addr = ''0.0.0.0:50051'', ja_no_preempt = False\<rparr>"

definition join_config ::
  "bool \<Rightarrow> (string \<Rightarrow> string option) \<Rightarrow> string \<Rightarrow> join_args \<Rightarrow> discovery \<Rightarrow> agent_config option result" where
  "join_config zeroconf env host args disc =
     (let c0 = config_from_env env host;
          c1 = c0\<lparr>cfg_location := or_given (ja_location args) (cfg_location c0),
                  cfg_node_id := or_given (ja_node_id args) (cfg_node_id c0),
                  cfg_agent_address := or_given (Some (ja_agent_addr args)) (cfg_agent_address c0),
                  cfg_preemptible := \<not> ja_no_preempt args\<rparr>;
          driver = (if given (ja_driver args) then ja_driver args else env ''MESH_DRIVER_ADDRESS'')
      in if ja_discover args then
           if \<not> zeroconf then Inr None
           else ebind disc (\<lambda>r. Inr (map_option (\<lambda>rec. discovered_config (ja_location args) rec c1) r))
         else if given driver then Inr (Some (c1\<lparr>cfg_driver_address := or_given driver []\<rparr>))
         else if cfg_driver_address c1 \<noteq> [] then Inr (Some c1)
         else Inr None)"

subsection \<open>The daemon starts\<close>

text \<open>
  The objects of the process: the daemon, its monitor and library manager, whether the agent's
  server runs, and the interval the client keeps.  What the start sees of the outside: the host and
  its name, the list of packages, the JSON functions, whether a port can be bound and the answer of
  the driver.
\<close>

record agent_process =
  ap_daemon :: daemon
  ap_monitor :: monitor
  ap_libraries :: library_manager
  ap_serving :: bool
  ap_interval :: real

record start_env =
  se_host :: host
  se_hostname :: string
  se_os :: string
  se_packages :: "string result"
  se_dumps :: "pyval dict \<Rightarrow> string"
  se_loads :: "string \<Rightarrow> pyval result"
  se_bind :: "string \<Rightarrow> unit result"
  se_answer :: "string \<Rightarrow> register_request \<Rightarrow> register_response result"

definition new_process :: "agent_config \<Rightarrow> worker_state option \<Rightarrow> agent_process" where
  "new_process cfg w =
     \<lparr>ap_daemon = new_daemon cfg w, ap_monitor = new_monitor (15 / 100),
      ap_libraries = \<lparr>lib_installed = []\<rparr>, ap_serving = False, ap_interval = 2\<rparr>"

definition agent_port :: "string \<Rightarrow> string" where
  "agent_port address = last (split_on CHR '':'' address)"

definition serve_agent :: "agent_config \<Rightarrow> start_env \<Rightarrow> (agent_process, unit) py" where
  "serve_agent cfg env =
     sbind (slift (se_bind env (agent_port (cfg_agent_address cfg)))) (\<lambda>_.
       smodify (\<lambda>p. p\<lparr>ap_serving := True\<rparr>))"

definition register_msg ::
  "agent_config \<Rightarrow> start_env \<Rightarrow> resource_snapshot \<Rightarrow> string list \<Rightarrow> register_request" where
  "register_msg cfg env s libs =
     \<lparr>rq_node_id = cfg_node_id cfg, rq_hostname = se_hostname env,
      rq_agent_address = cfg_agent_address cfg, rq_os_name = se_os env,
      rq_location = cfg_location cfg, rq_preemptible = cfg_preemptible cfg,
      rq_resources = resource_msg (cfg_node_id cfg) s, rq_libraries = libs\<rparr>"

definition send_register ::
  "agent_config \<Rightarrow> start_env \<Rightarrow> register_request \<Rightarrow> (agent_process, register_response) py" where
  "send_register cfg env q =
     sbind (slift (se_answer env (cfg_driver_address cfg) q)) (\<lambda>r.
     sbind (smodify (\<lambda>p. if rs_accepted r
         then p\<lparr>ap_interval := (if rs_heartbeat_interval r = 0 then 2 else rs_heartbeat_interval r)\<rparr>
         else p)) (\<lambda>_. sret r))"

definition in_daemon :: "(daemon, unit) py \<Rightarrow> (agent_process, unit) py" where
  "in_daemon f p = (case f (ap_daemon p) of (res, d) \<Rightarrow> (res, p\<lparr>ap_daemon := d\<rparr>))"

definition enter_loop ::
  "agent_config \<Rightarrow> start_env \<Rightarrow> resource_snapshot \<Rightarrow> string list \<Rightarrow> register_response
     \<Rightarrow> (daemon, unit) py" where
  "enter_loop cfg env s libs r =
     (if rs_accepted r then
        sbind (on_worker (smodify (mark_registered (cfg_node_id cfg)))) (\<lambda>_.
        sbind (on_worker (update_snapshot (se_loads env) s (int (length libs)) 0)) (\<lambda>_.
          smodify (\<lambda>d. d\<lparr>dm_looping := True\<rparr>)))
      else
        sbind (on_worker (smodify (mark_failed
          (if rs_message r = [] then ''registration rejected'' else rs_message r)))) (\<lambda>_.
          slift (Inl (RuntimeError (''Registration rejected: '' @ rs_message r)))))"

text \<open>\<^verbatim>\<open>AgentDaemon.start\<close> up to its loop, and \<^verbatim>\<open>stop\<close>.\<close>

definition start_agent :: "agent_config \<Rightarrow> start_env \<Rightarrow> (agent_process, unit) py" where
  "start_agent cfg env =
     sbind (serve_agent cfg env) (\<lambda>_ p.
       case snapshot (se_dumps env) True (se_host env) (ap_monitor p) of (s, m) \<Rightarrow>
       case list_names (se_packages env) (ap_libraries p) of (libs, l) \<Rightarrow>
         sbind (send_register cfg env (register_msg cfg env s libs)) (\<lambda>r.
           in_daemon (enter_loop cfg env s libs r)) (p\<lparr>ap_monitor := m, ap_libraries := l\<rparr>))"

definition stop_agent :: "agent_process \<Rightarrow> agent_process" where
  "stop_agent p = p\<lparr>ap_daemon := (ap_daemon p)\<lparr>dm_looping := False\<rparr>, ap_serving := False\<rparr>"

text \<open>The process of \<^verbatim>\<open>clustermesh join\<close>: the state of the page is made of the configuration.\<close>

definition runtime_worker :: "string \<Rightarrow> real \<Rightarrow> int \<Rightarrow> agent_config \<Rightarrow> worker_state" where
  "runtime_worker host now port cfg =
     (new_worker host now)\<lparr>ws_node_id := cfg_node_id cfg, ws_driver_address := cfg_driver_address cfg,
        ws_agent_address := cfg_agent_address cfg, ws_location := cfg_location cfg,
        ws_ui_port := port, ws_preemptible := cfg_preemptible cfg\<rparr>"

definition local_ui_url :: "string \<Rightarrow> int \<Rightarrow> string" where
  "local_ui_url host port =
     ''http://'' @ (if host \<in> {''0.0.0.0'', ''::''} then ''localhost'' else host) @ '':'' @ int_text port"

text \<open>
  The exit code of the command, for a loop of the given rounds that ends by itself, and the process
  it leaves.
\<close>

definition cmd_join ::
  "bool \<Rightarrow> (string \<Rightarrow> string option) \<Rightarrow> string \<Rightarrow> join_args \<Rightarrow> discovery \<Rightarrow> start_env \<Rightarrow> real \<Rightarrow> int
     \<Rightarrow> daemon_env list \<Rightarrow> (int \<times> agent_process option) result" where
  "cmd_join zeroconf env host args disc senv now port turns =
     ebind (join_config zeroconf env host args disc) (\<lambda>c.
       case c of
         None \<Rightarrow> Inr (1, None)
       | Some cfg \<Rightarrow>
           (case start_agent cfg senv (new_process cfg (Some (runtime_worker host now port cfg))) of
              (Inl _, p) \<Rightarrow> Inr (1, Some p)
            | (Inr _, p) \<Rightarrow>
                Inr (0, Some (p\<lparr>ap_daemon := fold (daemon_round cfg) turns (ap_daemon p)\<rparr>))))"

subsection \<open>Precedence of the settings\<close>

lemma given_or: "or_given x d = (if given x then the x else d)"
  by (simp add: given_def or_given_def split: option.split list.split)

subsection \<open>A started agent is known to the driver\<close>

text \<open>The request that a start sends, and the outcome of a start for each answer.\<close>

definition start_request :: "agent_config \<Rightarrow> start_env \<Rightarrow> agent_process \<Rightarrow> register_request" where
  "start_request cfg env p =
     register_msg cfg env (fst (snapshot (se_dumps env) True (se_host env) (ap_monitor p)))
       (fst (list_names (se_packages env) (ap_libraries p)))"

lemma start_agent_answered:
  assumes "se_bind env (agent_port (cfg_agent_address cfg)) = Inr ()"
    and "se_answer env (cfg_driver_address cfg) (start_request cfg env p) = Inr r"
  shows "\<exists>s libs p1. s = fst (snapshot (se_dumps env) True (se_host env) (ap_monitor p))
    \<and> dm_worker (ap_daemon p1) = dm_worker (ap_daemon p) \<and> ap_serving p1
    \<and> (rs_accepted r \<longrightarrow>
         ap_interval p1 = (if rs_heartbeat_interval r = 0 then 2 else rs_heartbeat_interval r))
    \<and> start_agent cfg env p = in_daemon (enter_loop cfg env s libs r) p1"
proof -
  obtain s m where s: "snapshot (se_dumps env) True (se_host env) (ap_monitor p) = (s, m)" by fastforce
  obtain libs l where l: "list_names (se_packages env) (ap_libraries p) = (libs, l)" by fastforce
  let ?p = "p\<lparr>ap_serving := True, ap_monitor := m, ap_libraries := l\<rparr>"
  let ?p1 = "if rs_accepted r
    then ?p\<lparr>ap_interval := (if rs_heartbeat_interval r = 0 then 2 else rs_heartbeat_interval r)\<rparr> else ?p"
  have q: "start_request cfg env p = register_msg cfg env s libs"
    by (simp add: start_request_def s l)
  have "start_agent cfg env p = in_daemon (enter_loop cfg env s libs r) ?p1"
    using assms by (simp add: start_agent_def serve_agent_def send_register_def sbind_def s l q)
  then show ?thesis
    by (intro exI [of _ s] exI [of _ libs] exI [of _ ?p1]) (simp add: s)
qed

lemma start_agent_ends:
  assumes "start_agent cfg env p = (Inr (), p')"
  shows "se_bind env (agent_port (cfg_agent_address cfg)) = Inr ()
    \<and> (\<exists>r. se_answer env (cfg_driver_address cfg) (start_request cfg env p) = Inr r \<and> rs_accepted r)"
proof -
  obtain s m where s: "snapshot (se_dumps env) True (se_host env) (ap_monitor p) = (s, m)" by fastforce
  obtain libs l where l: "list_names (se_packages env) (ap_libraries p) = (libs, l)" by fastforce
  have bound: "se_bind env (agent_port (cfg_agent_address cfg)) = Inr ()"
    using assms by (auto simp: start_agent_def serve_agent_def elim!: sbind_InrE)
  moreover obtain r where r: "se_answer env (cfg_driver_address cfg) (start_request cfg env p) = Inr r"
    using assms by (auto simp: start_agent_def serve_agent_def send_register_def sbind_def s l
        start_request_def split: sum.splits)
  moreover have "rs_accepted r"
  proof (rule ccontr)
    assume "\<not> rs_accepted r"
    obtain s libs p1 where "start_agent cfg env p = in_daemon (enter_loop cfg env s libs r) p1"
      using start_agent_answered [OF bound r] by blast
    with assms obtain d1 where "enter_loop cfg env s libs r (ap_daemon p1) = (Inr (), d1)"
      by (cases "enter_loop cfg env s libs r (ap_daemon p1)") (simp add: in_daemon_def)
    then show False
      using \<open>\<not> rs_accepted r\<close> by (auto simp: enter_loop_def elim!: sbind_InrE)
  qed
  ultimately show ?thesis by blast
qed

lemma register_accepts:
  "\<exists>d'. RegisterNode denv q d = (Inr \<lparr>rs_accepted = True, rs_message = ''welcome'',
      rs_heartbeat_interval = interval_seconds (dr_manager d)\<rparr>, d')"
  by (simp add: RegisterNode_def sbind_def register_node_def tracker_register_def Let_def)

text \<open>
  C23: a started agent is known: when the port of the agent is free, a start without a page succeeds
  against any driver; the daemon loops, the agent serves, and until the time to suspicion has
  passed the driver counts the node among the live ones, as the monitor and the configuration
  describe it, and reaches its agent at the configured address.
\<close>

theorem started_agent_is_live:
  assumes "config_ok (dr_manager d)" and "se_bind senv (agent_port (cfg_agent_address cfg)) = Inr ()"
    and "dm_worker (ap_daemon p) = None"
    and "q = start_request cfg senv p" and "RegisterNode denv q d = (res, d')"
    and "se_answer senv (cfg_driver_address cfg) q = res"
    and "t - e_now (d_env denv) < time_to_suspected (dr_manager d)"
  shows "\<exists>p'. start_agent cfg senv p = (Inr (), p') \<and> dm_looping (ap_daemon p') \<and> ap_serving p'
    \<and> registered_node q \<in> set (fst (live_nodes t (dr_manager d')))
    \<and> location (registered_node q) = (if cfg_location cfg = [] then ''default'' else cfg_location cfg)
    \<and> get_remote (cfg_node_id cfg) (dr_manager d') = Some (cfg_agent_address cfg)"
proof -
  have q: "rq_node_id q = cfg_node_id cfg" "rq_agent_address q = cfg_agent_address cfg"
    "rq_location q = cfg_location cfg"
    by (simp_all add: assms(4) start_request_def register_msg_def)
  obtain r where r: "res = Inr r" "rs_accepted r"
    using register_accepts [of denv q d] assms(5) by auto
  obtain s libs p1 where "dm_worker (ap_daemon p1) = None" "ap_serving p1"
    "start_agent cfg senv p = in_daemon (enter_loop cfg senv s libs r) p1"
    using start_agent_answered [OF assms(2), of p r] assms(3,4,6) r(1) by auto
  then have "\<exists>p'. start_agent cfg senv p = (Inr (), p') \<and> dm_looping (ap_daemon p') \<and> ap_serving p'"
    using r(2) by (simp add: in_daemon_def enter_loop_def on_worker_def sbind_def)
  then show ?thesis
    using registration_is_live [OF assms(1,5,7)] by (auto simp: q registered_node_def)
qed

subsection \<open>The address of a joined machine\<close>

lemma join_config_address:
  "join_config zeroconf env host args disc = Inr (Some cfg) \<Longrightarrow> ja_agent_addr args \<noteq> [] \<Longrightarrow>
     cfg_agent_address cfg = ja_agent_addr args \<and> cfg_preemptible cfg = (\<not> ja_no_preempt args)"
  by (cases "ja_agent_addr args")
    (auto simp: join_config_def or_given_def discovered_config_def Let_def split: if_splits)

lemma cmd_join_ends_well:
  assumes "cmd_join zeroconf env host args disc senv now port turns = Inr (0, Some p')"
  obtains cfg p1 where "join_config zeroconf env host args disc = Inr (Some cfg)"
    and "start_agent cfg senv (new_process cfg (Some (runtime_worker host now port cfg))) = (Inr (), p1)"
proof -
  obtain cfg where cfg: "join_config zeroconf env host args disc = Inr (Some cfg)"
    using assms by (auto simp: cmd_join_def split: option.splits)
  obtain res p1 where
    start: "start_agent cfg senv (new_process cfg (Some (runtime_worker host now port cfg))) = (res, p1)"
    by fastforce
  with assms cfg have "res = Inr ()"
    by (cases res) (simp_all add: cmd_join_def)
  then show ?thesis
    using that cfg start by simp
qed

text \<open>
  C24: the address under which a joined machine registers: whatever \<^verbatim>\<open>MESH_AGENT_ADDRESS\<close> and
  \<^verbatim>\<open>MESH_PREEMPTIBLE\<close> say, a \<^verbatim>\<open>clustermesh join\<close> without an agent address on its command line
  that ends well has registered \<^verbatim>\<open>0.0.0.0:50051\<close>, and that is the address at which the driver
  tries to reach the agent.
\<close>

theorem join_registers_wildcard:
  assumes "cmd_join zeroconf env host args disc senv now port turns = Inr (0, Some p')"
    and "ja_agent_addr args = ja_agent_addr default_join" and "config_ok (dr_manager d)"
    and "se_answer senv = (\<lambda>_ q. fst (RegisterNode denv q d))"
  shows "\<exists>cfg q r d'. join_config zeroconf env host args disc = Inr (Some cfg)
    \<and> q = start_request cfg senv (new_process cfg (Some (runtime_worker host now port cfg)))
    \<and> RegisterNode denv q d = (Inr r, d') \<and> rs_accepted r
    \<and> rq_node_id q = cfg_node_id cfg \<and> rq_preemptible q = (\<not> ja_no_preempt args)
    \<and> get_remote (cfg_node_id cfg) (dr_manager d') = Some ''0.0.0.0:50051''"
proof -
  obtain cfg p1 where cfg: "join_config zeroconf env host args disc = Inr (Some cfg)" and start:
    "start_agent cfg senv (new_process cfg (Some (runtime_worker host now port cfg))) = (Inr (), p1)"
    using cmd_join_ends_well [OF assms(1)] .
  have addr: "cfg_agent_address cfg = ''0.0.0.0:50051''" "cfg_preemptible cfg = (\<not> ja_no_preempt args)"
    using join_config_address [OF cfg] by (simp_all add: assms(2) default_join_def)
  let ?p = "new_process cfg (Some (runtime_worker host now port cfg))"
  let ?q = "start_request cfg senv ?p"
  have q: "rq_node_id ?q = cfg_node_id cfg" "rq_agent_address ?q = ''0.0.0.0:50051''"
    "rq_preemptible ?q = (\<not> ja_no_preempt args)"
    by (simp_all add: start_request_def register_msg_def addr)
  obtain r d' where r: "RegisterNode denv ?q d = (Inr r, d')" "rs_accepted r"
    using start_agent_ends [OF start] assms(4) by (metis prod.collapse)
  obtain t where "t - e_now (d_env denv) < time_to_suspected (dr_manager d)"
    using reals_Archimedean2 by (metis diff_less_eq linordered_field_no_lb)
  from registration_is_live [OF assms(3) r(1) this] show ?thesis
    using cfg r by (auto simp: q)
qed

text \<open>
  A search that finds nothing is no error as long as any driver address is configured, and one always
  is unless the environment sets it to the empty text.
\<close>

lemma search_falls_back:
  assumes "env ''MESH_DRIVER_ADDRESS'' \<noteq> Some []" and "\<not> given (aa_driver args)"
  shows "\<exists>c. daemon_config args (Inr None) (config_from_env env host) = Inr (Some c)
    \<and> cfg_driver_address c = (case env ''MESH_DRIVER_ADDRESS'' of None \<Rightarrow> ''localhost:50050'' | Some v \<Rightarrow> v)"
  using assms by (auto simp: daemon_config_def config_from_env_def given_or Let_def split: option.split)

subsection \<open>Reports that are lost\<close>

text \<open>
  The callbacks of the runner: a report whose value is no JSON document, or that does not reach the
  driver, is dropped with its exception.
\<close>

definition send_progress :: "(pyval \<Rightarrow> string result) \<Rightarrow> bool \<Rightarrow> driver_env \<Rightarrow> progress_report \<Rightarrow> driver \<Rightarrow> driver" where
  "send_progress dumps reached env q d =
     (case (case pr_state q of None \<Rightarrow> Inr [] | Some st \<Rightarrow> dumps (PDict st)) of
        Inl _ \<Rightarrow> d
      | Inr _ \<Rightarrow> if reached then snd (TaskProgress env q d) else d)"

definition send_completion ::
  "(pyval \<Rightarrow> string result) \<Rightarrow> bool \<Rightarrow> driver_env \<Rightarrow> complete_report option \<Rightarrow> driver \<Rightarrow> driver" where
  "send_completion dumps reached env report d =
     (case report of
        None \<Rightarrow> d
      | Some q \<Rightarrow>
          (case (case cr_result q of None \<Rightarrow> Inr [] | Some v \<Rightarrow> dumps v) of
             Inl _ \<Rightarrow> d
           | Inr _ \<Rightarrow> if reached then snd (TaskComplete env q d) else d))"

lemma lost_completion:
  assumes "run_assigned clock fn (thread_ctx spec s) = (reports, Returned v, c)"
    and "run_thread clock message (spec, fn) s = (reports, report, s')"
    and "v \<noteq> PNone \<and> dumps v = Inl e \<or> \<not> reached"
  shows "send_completion dumps reached env report d = d
    \<and> dict_get (ag_running s') (task_id spec) = None"
  using assms
  by (auto simp: run_thread_def on_complete_def send_completion_def split: sum.split option.split)

subsection \<open>A start on a machine without the measuring library\<close>

definition sample_start :: start_env where
  "sample_start =
     \<lparr>se_host = (sample_host 0 0)\<lparr>h_psutil := False\<rparr>, se_hostname = ''c'', se_os = ''Linux'',
      se_packages = Inl TimeoutError, se_dumps = (\<lambda>_. []), se_loads = (\<lambda>_. Inl ValueError),
      se_bind = (\<lambda>_. Inr ()),
      se_answer = (\<lambda>_ q. fst (RegisterNode (sample_driver_env 1) q sample_driver))\<rparr>"

lemma sample_deadline: "2 - e_now (d_env (sample_driver_env 1)) < time_to_suspected (dr_manager sample_driver)"
  by (simp add: sample_driver_env_def sample_env_def sample_driver_def manager_defs
      time_to_suspected_def Let_def)

lemma started_agent_is_live_witness:
  "\<exists>(p' :: agent_process) (d' :: driver). start_agent sample_cfg sample_start (new_process sample_cfg None) = (Inr (), p')
     \<and> dm_looping (ap_daemon p') \<and> get_remote ''a'' (dr_manager d') = Some ''a:50051''"
proof -
  let ?p = "new_process sample_cfg None" and ?q = "start_request sample_cfg sample_start (new_process sample_cfg None)"
  obtain res d' where r: "RegisterNode (sample_driver_env 1) ?q sample_driver = (res, d')" by fastforce
  have "se_bind sample_start (agent_port (cfg_agent_address sample_cfg)) = Inr ()"
    "dm_worker (ap_daemon ?p) = None" "se_answer sample_start (cfg_driver_address sample_cfg) ?q = res"
    using r by (simp_all add: sample_start_def new_process_def new_daemon_def)
  from started_agent_is_live [OF sample_config_ok this(1,2) HOL.refl r this(3) sample_deadline]
  show ?thesis
    by (auto simp: sample_cfg_def)
qed

definition sample_args :: join_args where
  "sample_args = default_join\<lparr>ja_driver := Some ''d:50050''\<rparr>"

definition announced :: "string \<Rightarrow> string option" where
  "announced k = (if k = ''MESH_AGENT_ADDRESS'' then Some ''10.0.0.7:50051'' else None)"

lemma sample_join:
  "\<exists>p'. cmd_join False announced ''c'' sample_args (Inr None) sample_start 0 50052 [] = Inr (0, Some p')"
proof -
  obtain cfg where cfg: "join_config False announced ''c'' sample_args (Inr None) = Inr (Some cfg)"
    by (simp add: join_config_def sample_args_def default_join_def given_def Let_def)
  let ?p = "new_process cfg (Some (runtime_worker ''c'' 0 50052 cfg))"
  obtain r where "se_answer sample_start (cfg_driver_address cfg) (start_request cfg sample_start ?p) = Inr r"
    "rs_accepted r"
    using register_accepts [of "sample_driver_env 1" "start_request cfg sample_start ?p" sample_driver]
    by (auto simp: sample_start_def)
  then obtain s libs p1 where "start_agent cfg sample_start ?p = in_daemon (enter_loop cfg sample_start s libs r) p1"
    and s: "s = fst (snapshot (se_dumps sample_start) True (se_host sample_start) (ap_monitor ?p))"
    using start_agent_answered [of sample_start cfg ?p r] by (auto simp: sample_start_def)
  moreover have "host_metrics_json s = []"
    by (simp add: s sample_start_def snapshot_def new_process_def new_monitor_def Let_def)
  ultimately have "\<exists>p'. start_agent cfg sample_start ?p = (Inr (), p')"
    using \<open>rs_accepted r\<close>
    by (cases "dm_worker (ap_daemon p1)") (simp_all add: in_daemon_def enter_loop_def on_worker_def
        sbind_def update_snapshot_def update_metrics_def Let_def)
  then show ?thesis
    using cfg by (auto simp: cmd_join_def)
qed

lemma join_registers_wildcard_witness:
  "\<exists>cfg. join_config False announced ''c'' sample_args (Inr None) = Inr (Some cfg)
     \<and> (\<exists>d' :: driver. get_remote (cfg_node_id cfg) (dr_manager d') = Some ''0.0.0.0:50051'')"
proof -
  obtain p' where "cmd_join False announced ''c'' sample_args (Inr None) sample_start 0 50052 [] = Inr (0, Some p')"
    using sample_join by blast
  from join_registers_wildcard [OF this _ sample_config_ok, of "sample_driver_env 1"] show ?thesis
    by (auto simp: sample_args_def sample_start_def)
qed

end
