(* ===== verification/Platform.thy ===== *)
theory Platform
  imports DriverOps AgentWitnesses Discovery StoreFactory
begin

section \<open>The platform (mesh/api/server.py)\<close>

text \<open>
  \<^verbatim>\<open>MeshPlatform\<close> puts a driver process together: the coordinator with its election and job manager,
  the server agents call, discovery, the mesh of sites and the page, in the order in which the code
  starts and stops them.  The threads of the process are steps: requests, rounds of the health
  loop, rounds of the election, and rounds of \<^verbatim>\<open>run_forever\<close>.  The store is the SQLite one.
\<close>

subsection \<open>Construction\<close>

definition parse_grpc_port :: "string \<Rightarrow> int result" where
  "parse_grpc_port address = parse_int (after_last_colon address)"

record platform_args =
  su_grpc :: string
  su_api_port :: int
  su_db :: string
  su_store_url :: "string option"
  su_mdns :: bool
  su_site :: string
  su_mesh_config :: "mesh_config option"

text \<open>The store that is opened.\<close>

definition platform_store :: "platform_args \<Rightarrow> (string \<Rightarrow> string option) \<Rightarrow> state_store result" where
  "platform_store su env =
     create_state_store (case su_store_url su of
         Some (c # cs) \<Rightarrow> Some (c # cs)
       | _ \<Rightarrow> Some (''sqlite:///'' @ su_db su)) (env ''MESH_STATE_URL'')"

text \<open>The site of the command line replaces the one of the configuration.\<close>

definition platform_mesh :: "platform_args \<Rightarrow> mesh option" where
  "platform_mesh su =
     (case su_mesh_config su of
        Some c \<Rightarrow> Some (let m = new_mesh c in m\<lparr>ms_config := (ms_config m)\<lparr>mc_site_id := su_site su\<rparr>\<rparr>)
      | None \<Rightarrow> if su_site su \<noteq> ''default''
                then Some (new_mesh (default_mesh_config\<lparr>mc_site_id := su_site su\<rparr>))
                else None)"

record platform =
  pf_setup :: platform_args
  pf_ha :: ha
  pf_bus :: event_bus
  pf_mesh :: "mesh option"
  pf_relaying :: bool
  pf_mdns :: "advertiser option"
  pf_advertised :: "service_info option"
  pf_serving :: bool
  pf_health :: bool
  pf_page :: bool

definition new_platform ::
  "platform_args \<Rightarrow> string option \<Rightarrow> sqlite_store \<Rightarrow> string \<Rightarrow> event_bus \<Rightarrow> platform result" where
  "new_platform su sock st name bus =
     ebind (if su_mdns su
            then ebind (parse_grpc_port (su_grpc su)) (\<lambda>port.
                   Inr (Some (new_advertiser port (su_api_port su) (su_site su) None sock)))
            else Inr None) (\<lambda>adv.
       Inr \<lparr>pf_setup = su, pf_ha = new_ha (new_manager 2 (Some st) None) st (new_election name 10),
            pf_bus = bus, pf_mesh = platform_mesh su, pf_relaying = False, pf_mdns = adv, pf_advertised = None,
            pf_serving = False, pf_health = False, pf_page = False\<rparr>)"

subsection \<open>Start and stop\<close>

text \<open>
  What a start sees: the identifiers and times of its events, the clock of the election, whether the
  library of discovery is installed, whether the port can be bound and what the probes find.
\<close>

record platform_env =
  pe_env :: jm_env
  pe_stamp :: "nat \<Rightarrow> string \<times> string"
  pe_zeroconf :: bool
  pe_bind :: "unit result"
  pe_connect :: "string \<Rightarrow> int \<Rightarrow> real option"

definition announce ::
  "platform_env \<Rightarrow> nat \<Rightarrow> string \<Rightarrow> string \<Rightarrow> pyval dict \<Rightarrow> (platform, unit) py" where
  "announce env i source message metadata = smodify (\<lambda>p. p\<lparr>pf_bus :=
     publish (create_event (fst (pe_stamp env i)) (snd (pe_stamp env i)) INFO source message (Some metadata))
       (pf_bus p)\<rparr>)"

definition on_ha :: "(ha, unit) py \<Rightarrow> (platform, unit) py" where
  "on_ha f p = (case f (pf_ha p) of (res, h) \<Rightarrow> (res, p\<lparr>pf_ha := h\<rparr>))"

definition start_server :: "platform_env \<Rightarrow> (platform, unit) py" where
  "start_server env = sbind (slift (pe_bind env)) (\<lambda>_.
     smodify (\<lambda>p. p\<lparr>pf_serving := True, pf_health := True\<rparr>))"

definition start_mdns :: "platform_env \<Rightarrow> (platform, unit) py" where
  "start_mdns env p =
     (case pf_mdns p of
        None \<Rightarrow> (Inr (), p)
      | Some a \<Rightarrow>
          (case advertise (pe_zeroconf env) a of
             Inl ImportError \<Rightarrow> (Inr (), p\<lparr>pf_mdns := None\<rparr>)
           | Inl e \<Rightarrow> (Inl e, p)
           | Inr info \<Rightarrow>
               announce env 2 ''discovery''
                 (''mDNS advertising site '' @ [CHR 0x27] @ su_site (pf_setup p) @ [CHR 0x27]) []
                 (p\<lparr>pf_advertised := Some info\<rparr>)))"

definition start_mesh :: "platform_env \<Rightarrow> (platform, unit) py" where
  "start_mesh env p =
     (case pf_mesh p of
        None \<Rightarrow> (Inr (), p)
      | Some m \<Rightarrow>
          (case parse_grpc_port (su_grpc (pf_setup p)) of
             Inl e \<Rightarrow> (Inl e, p)
           | Inr port \<Rightarrow>
               (case sbind (start_relay (''127.0.0.1:'' @ int_text port)) (\<lambda>_. probe_peers (pe_connect env)) m of
                  (Inl e, m1) \<Rightarrow> (Inl e, p\<lparr>pf_mesh := Some m1\<rparr>)
                | (Inr _, m1) \<Rightarrow>
                    announce env 3 ''mesh''
                      (''Mesh VPN active - site '' @ mc_site_id (ms_config m1) @ '', ''
                         @ int_text (int (length (peer_list m1))) @ '' peers'') []
                      (p\<lparr>pf_mesh := Some m1, pf_relaying := True\<rparr>))))"

definition start_page :: "platform_env \<Rightarrow> (platform, unit) py" where
  "start_page env p =
     (if su_api_port (pf_setup p) \<le> 0 then (Inr (), p)
      else announce env 4 ''api''
             (''Dashboard at http://localhost:'' @ int_text (su_api_port (pf_setup p))) []
             (p\<lparr>pf_page := True\<rparr>))"

definition platform_start :: "platform_env \<Rightarrow> (platform, unit) py" where
  "platform_start env p0 =
     sbind (announce env 0 ''platform'' ''ComputeMesh platform starting''
       [(''site'', PStr (su_site (pf_setup p0))), (''store'', PStr ''SQLiteStateStore'')]) (\<lambda>_.
     sbind (on_ha (ha_start (pe_env env))) (\<lambda>_.
     sbind (start_server env) (\<lambda>_.
     sbind (announce env 1 ''driver''
       (''gRPC driver listening on '' @ su_grpc (pf_setup p0)) []) (\<lambda>_.
     sbind (start_mdns env) (\<lambda>_.
     sbind (start_mesh env) (\<lambda>_.
       start_page env)))))) p0"

text \<open>\<^verbatim>\<open>stop\<close> closes the relay and the advertisement, stops the server and the election.\<close>

definition platform_stop :: "platform_env \<Rightarrow> platform \<Rightarrow> platform" where
  "platform_stop env p =
     snd (announce env 5 ''platform'' ''ComputeMesh platform stopped'' []
       (p\<lparr>pf_advertised := None, pf_relaying := False, pf_serving := False, pf_health := False, pf_ha := ha_stop (pf_ha p)\<rparr>))"

subsection \<open>Rounds\<close>

text \<open>A round of \<^verbatim>\<open>run_forever\<close>: only the leader rebalances and looks for stragglers.\<close>

definition maintain :: "jm_env \<Rightarrow> (ref \<Rightarrow> string) \<Rightarrow> (platform, unit) py" where
  "maintain env uuid p =
     (if is_leader (ha_election (pf_ha p))
      then case sbind (run_rebalance env) (\<lambda>_. check_speculation env uuid) (ha_manager (pf_ha p)) of
             (res, m) \<Rightarrow> (map_sum id (\<lambda>_. ()) res, p\<lparr>pf_ha := (pf_ha p)\<lparr>ha_manager := m\<rparr>\<rparr>)
      else (Inr (), p))"

text \<open>A request finds the driver's objects in the platform.\<close>

definition on_driver :: "(driver \<Rightarrow> driver) \<Rightarrow> platform \<Rightarrow> platform" where
  "on_driver f p =
     (let d = f \<lparr>dr_manager = ha_manager (pf_ha p), dr_attached = True, dr_bus = pf_bus p\<rparr>
      in p\<lparr>pf_ha := (pf_ha p)\<lparr>ha_manager := dr_manager d\<rparr>, pf_bus := dr_bus d\<rparr>)"

text \<open>A round of the health loop, whose exception ends the loop.\<close>

definition health_round :: "driver_env \<Rightarrow> platform \<Rightarrow> platform" where
  "health_round env p =
     (if \<not> pf_health p then p
      else case evaluate_health (death_callback (d_env env)) (e_now (d_env env)) (ha_manager (pf_ha p)) of
             (res, m) \<Rightarrow> p\<lparr>pf_ha := (pf_ha p)\<lparr>ha_manager := m\<rparr>,
                           pf_health := (case res of Inl _ \<Rightarrow> False | Inr _ \<Rightarrow> True)\<rparr>)"

datatype platform_op =
    Request driver_op
  | HealthRound driver_env
  | LeaseRound jm_env
  | Maintain jm_env "ref \<Rightarrow> string"
  | Halt platform_env

fun run_platform :: "platform_op \<Rightarrow> platform \<Rightarrow> platform" where
  "run_platform (Request q) p = on_driver (run_driver q) p"
| "run_platform (HealthRound env) p = health_round env p"
| "run_platform (LeaseRound env) p = snd (on_ha (ha_round env) p)"
| "run_platform (Maintain env uuid) p = snd (maintain env uuid p)"
| "run_platform (Halt env) p = platform_stop env p"

subsection \<open>A standby process writes nothing\<close>

interpretation fenced_driver: jm_frame_driver "\<lambda>_ _. standby st" others_standby for st
  by unfold_locales (auto simp: standby_def others_standby_def)

definition idle :: "sqlite_store option \<Rightarrow> platform \<Rightarrow> bool" where
  "idle st p \<longleftrightarrow> \<not> is_leader (ha_election (pf_ha p)) \<and> standby st (ha_manager (pf_ha p))"

text \<open>
  The steps of a process that does not gain the leadership; other threads of it that run while an
  operation sleeps write nothing either.
\<close>

fun stays_standby :: "platform_op \<Rightarrow> platform \<Rightarrow> bool" where
  "stays_standby (Request q) p = driver_sleeps others_standby q"
| "stays_standby (HealthRound env) p = others_standby (d_env env)"
| "stays_standby (LeaseRound env) p = (\<not> is_leader (ha_election (snd (ha_round env (pf_ha p)))))"
| "stays_standby _ p = True"

lemma refused_unchanged:
  assumes "\<not> is_leader e" and "renew_tick sql_try_acquire sql_renew now e st = (ns, e', st')"
    and "\<not> is_leader e'"
  shows "ns = [] \<and> st' = st"
  using assms
  by (auto simp: renew_tick_def try_become_leader_def sql_try_acquire_def Let_def
      split: if_splits option.splits prod.splits)

lemma lease_round_idle:
  assumes "idle st p" and "stays_standby (LeaseRound env) p"
  shows "idle st (run_platform (LeaseRound env) p)"
proof -
  let ?h = "pf_ha p"
  have ok: "\<not> is_leader (ha_election ?h)" "state_store (ha_manager ?h) = st"
    "leadership_check (ha_manager ?h) = Some False"
    using assms(1) by (simp_all add: idle_def standby_def)
  show ?thesis
  proof (cases st)
    case None
    then show ?thesis
      using assms(1) ok by (simp add: on_ha_def ha_round_def ha_elect_def)
  next
    case (Some s)
    obtain ns e s1 where tick: "renew_tick sql_try_acquire sql_renew (e_now env) (ha_election ?h) s = (ns, e, s1)"
      by (metis surj_pair)
    have "ha_election (snd (ha_round env ?h)) = e"
      using ok(2) Some tick by (auto simp: ha_round_def ha_elect_def split: prod.split)
    then have e: "\<not> is_leader e"
      using assms(2) by simp
    with refused_unchanged [OF ok(1) tick] have "ns = []" "s1 = s" by simp_all
    with tick e ok Some show ?thesis
      by (simp add: idle_def on_ha_def ha_round_def ha_elect_def standby_def)
  qed
qed

interpretation idle_ops: stateful run_platform stays_standby "idle st" for st
proof unfold_locales
  fix p q
  assume ok: "idle st p" and legal: "stays_standby q p"
  show "idle st (run_platform q p)"
  proof (cases q)
    case (Request r)
    then show ?thesis
      using ok legal fenced_driver.run_driver_P [of st _ r]
      by (simp add: idle_def on_driver_def Let_def)
  next
    case (HealthRound env)
    have "standby st (snd (evaluate_health (death_callback (d_env env)) (e_now (d_env env)) (ha_manager (pf_ha p))))"
      using ok legal HealthRound by (simp add: idle_def fenced_driver.evaluate_health_P)
    with ok HealthRound show ?thesis
      by (auto simp: idle_def health_round_def split: prod.split)
  next
    case (LeaseRound env)
    then show ?thesis
      using lease_round_idle ok legal by blast
  next
    case (Maintain env uuid)
    then show ?thesis
      using ok by (simp add: idle_def maintain_def)
  next
    case (Halt env)
    then show ?thesis
      using ok by (simp add: idle_def platform_stop_def announce_def ha_stop_def stop_election_def standby_def)
  qed
qed

text \<open>
  C6: a standby process writes nothing: as long as a platform that is not the leader does not gain
  the leadership, it never changes the store, not even the row of the lease, whatever requests it
  serves and whatever its health loop, its election and its maintenance do.
\<close>

theorem standby_platform_writes_nothing:
  assumes "\<not> is_leader (ha_election (pf_ha p))"
    and "leadership_check (ha_manager (pf_ha p)) = Some (is_leader (ha_election (pf_ha p)))"
    and "legal_run run_platform stays_standby ps p"
  shows "state_store (ha_manager (pf_ha (fold run_platform ps p))) = state_store (ha_manager (pf_ha p))"
  using idle_ops.run_all_ok [of "state_store (ha_manager (pf_ha p))" p ps] assms
  by (simp add: idle_def standby_def)

subsection \<open>A restarted process\<close>

lemma resume_store_kept:
  assumes "remote_agents s = []"
  shows "state_store (snd (resume_from_store env st s)) = state_store s"
proof -
  have jobs: "state_store (fold restore_job js s) = state_store s" for js and s :: job_manager
    by (induction js arbitrary: s)
      (auto simp: restore_job_def alloc_job_def Let_def split: option.split list.split)
  have tasks: "state_store (snd (restore_tasks ts d s)) = state_store s" for ts d and s :: job_manager
    by (induction ts arbitrary: d s) (simp_all add: restore_task_def alloc_task_def)
  have run: "state_store (snd (siter (resume_running env st) ts s)) = state_store s"
    if "remote_agents s = []" "\<forall>t \<in> set ts. task_fn t = None" for ts s
    using resume_all_idle [OF that, of env st] by auto
  show ?thesis
    using assms run loaded_without_fn
    by (cases "sql_list_jobs st"; cases "sql_list_tasks st")
      (simp_all add: resume_from_store_def sbind_def jobs tasks restore_jobs_agents restore_tasks_has
        case_prod_beta)
qed

text \<open>The state in which a new leader is before its agents come.\<close>

definition loaded :: "job list \<Rightarrow> sqlite_store \<Rightarrow> job_manager \<Rightarrow> bool" where
  "loaded js st s \<longleftrightarrow>
     silent [] [] [] s \<and> state_store s = Some st \<and> leadership_check s = Some True
     \<and> (\<forall>j \<in> set js. has_job j s)"

lemma resume_loads:
  assumes "silent [] [] [] s" and "state_store s = Some st" and "leadership_check s = Some True"
    and "sql_list_jobs st = Inr js" and "distinct (map job_id js)"
  shows "loaded js st (snd (resume_from_store env st s))"
  using resume_silent [OF assms(1)] resume_store_kept [of s] resume_has_jobs [OF _ assms(4,5), of s]
    leads.resume_from_store_P [of s env st] assms
  by (simp add: loaded_def silent_def)

lemma ha_start_loads:
  assumes "silent [] [] [] (ha_manager h)" and "state_store (ha_manager h) = Some st"
    and "\<not> is_leader (ha_election h)" and "ha_start env h = (Inr (), h')"
    and "is_leader (ha_election h')" and "sql_list_jobs st = Inr js" and "distinct (map job_id js)"
  shows "\<exists>st'. loaded js st' (ha_manager h')"
proof -
  let ?attempt = "try_become_leader sql_try_acquire (e_now env)"
  obtain ns e st1 where att: "?attempt (ha_election h) st = (ns, e, st1)"
    by (metis surj_pair)
  let ?m = "(ha_manager h)\<lparr>state_store := Some st1, leadership_check := Some (is_leader e)\<rparr>"
  obtain m where m: "siter (on_leadership env) ns ?m = (Inr (), m)"
    and h': "h' = (if is_leader e then \<lparr>ha_election = e, ha_manager = snd (resume_jobs env m)\<rparr>
                   else \<lparr>ha_election = e, ha_manager = m\<rparr>)"
    using assms(2,4) att
    by (cases "siter (on_leadership env) ns ?m"; cases "fst (siter (on_leadership env) ns ?m)")
      (auto simp: ha_start_def ha_elect_def sbind_def split: prod.splits if_splits)
  have e: "is_leader e"
    using h' assms(5) by (simp split: if_splits)
  have ns: "ns = [True]" "sql_list_jobs st1 = Inr js"
  proof -
    obtain ok st2 where acq: "sql_try_acquire (e_now env) (driver_id (ha_election h)) (el_term (ha_election h) + 1)
        (lease_seconds (ha_election h)) st = (ok, st2)"
      by fastforce
    with att e assms(3) show "ns = [True]"
      by (auto simp: try_become_leader_def Let_def split: if_splits)
    have "st1 = st2 \<or> st1 = st"
      using att acq by (auto simp: try_become_leader_def Let_def split: if_splits)
    moreover have "jobs_table st2 = jobs_table st"
      using acq lease_frame(1) by (metis snd_conv)
    ultimately show "sql_list_jobs st1 = Inr js"
      using assms(6) by (auto simp: sql_list_jobs_def)
  qed
  have "loaded js st1 (snd (resume_from_store env st1 ?m))"
    using assms(1) e by (intro resume_loads ns(2) assms(7)) (simp_all add: silent_def)
  then have first: "loaded js st1 m"
    using m ns(1) by (auto simp: on_leadership_def resume_jobs_def sbind_def split: prod.splits sum.splits)
  have "loaded js st1 (snd (resume_from_store env st1 m))"
    using first by (intro resume_loads ns(2) assms(7)) (simp_all add: loaded_def)
  then show ?thesis
    using first e h' by (auto simp: resume_jobs_def loaded_def)
qed

lemma start_frames:
  "pf_ha (snd (announce env i src msg md p)) = pf_ha p"
  "pf_ha (snd (start_server env p)) = pf_ha p"
  "pf_ha (snd (start_mdns env p)) = pf_ha p"
  "pf_ha (snd (start_mesh env p)) = pf_ha p"
  "pf_ha (snd (start_page env p)) = pf_ha p"
  by (auto simp: announce_def start_server_def start_mdns_def start_mesh_def start_page_def sbind_def
      split: option.split sum.split prod.split py_error.split)

lemma platform_start_ha:
  assumes "platform_start env p = (Inr (), p')"
  shows "\<exists>h. ha_start (pe_env env) (pf_ha p) = (Inr (), h) \<and> pf_ha p' = h"
proof -
  obtain p1 p2 p3 p4 p5 p6 where steps: "snd (announce env 0 ''platform'' ''ComputeMesh platform starting''
       [(''site'', PStr (su_site (pf_setup p))), (''store'', PStr ''SQLiteStateStore'')] p) = p1"
    "on_ha (ha_start (pe_env env)) p1 = (Inr (), p2)" "start_server env p2 = (Inr (), p3)"
    "snd (announce env 1 ''driver'' (''gRPC driver listening on '' @ su_grpc (pf_setup p)) [] p3) = p4"
    "start_mdns env p4 = (Inr (), p5)" "start_mesh env p5 = (Inr (), p6)" "start_page env p6 = (Inr (), p')"
    using assms unfolding platform_start_def by (elim sbind_InrE) (metis old.unit.exhaust snd_conv)
  then have "pf_ha p' = pf_ha p2" "pf_ha p1 = pf_ha p"
    using start_frames by (metis snd_conv)+
  then show ?thesis
    using steps(2) by (auto simp: on_ha_def split: prod.splits)
qed

text \<open>
  C9: a restarted process knows its jobs and starts none: when a new platform over the store that a
  former process left becomes the leader in its start, which loads the store before any agent can
  register, then its manager may write and knows every stored job as it was stored, but
  nothing has been sent, no thread runs and no task is listed as running.
\<close>

theorem restarted_platform:
  assumes "new_platform su sock st name bus = Inr p" and "platform_start env p = (Inr (), p')"
    and "is_leader (ha_election (pf_ha p'))" and "sql_list_jobs st = Inr js"
    and "distinct (map job_id js)" and "j \<in> set js"
  shows "has_job j (ha_manager (pf_ha p')) \<and> can_write (ha_manager (pf_ha p'))
    \<and> rpc_log (ha_manager (pf_ha p')) = [] \<and> thread_log (ha_manager (pf_ha p')) = []
    \<and> running (ha_manager (pf_ha p')) = []"
proof -
  have ha: "pf_ha p = new_ha (new_manager 2 (Some st) None) st (new_election name 10)"
    using assms(1) by (auto simp: new_platform_def)
  obtain h where h: "ha_start (pe_env env) (pf_ha p) = (Inr (), h)" "pf_ha p' = h"
    using platform_start_ha [OF assms(2)] by blast
  have "silent [] [] [] (ha_manager (pf_ha p))" "state_store (ha_manager (pf_ha p)) = Some st"
    "\<not> is_leader (ha_election (pf_ha p))"
    by (simp_all add: ha new_ha_def silent_def new_manager_def new_cluster_def new_election_def
        cluster.extend_def tracker.extend_def)
  then obtain st' where "loaded js st' (ha_manager (pf_ha p'))"
    using ha_start_loads h assms(3-5) by blast
  then show ?thesis
    using assms(6) by (simp add: loaded_def silent_def can_write_def)
qed

subsection \<open>A platform over a store with a running job\<close>

definition sample_setup :: platform_args where
  "sample_setup =
     \<lparr>su_grpc = ''0.0.0.0:50050'', su_api_port = 0, su_db = ''mesh.db'', su_store_url = None,
      su_mdns = False, su_site = ''default'', su_mesh_config = None\<rparr>"

definition sample_platform_env :: "real \<Rightarrow> platform_env" where
  "sample_platform_env now =
     \<lparr>pe_env = sample_env now, pe_stamp = (\<lambda>_. (''e'', ''ts'')), pe_zeroconf = False,
      pe_bind = Inr (), pe_connect = (\<lambda>_ _. None)\<rparr>"

definition sample_platform :: platform where
  "sample_platform =
     (case new_platform sample_setup None one_row ''a'' (new_bus 10) of Inr p \<Rightarrow> p | Inl _ \<Rightarrow> undefined)"

definition sample_job :: job where
  "sample_job = (new_job ''j'' ''work'' None)\<lparr>job_state := J_RUNNING, task_ids := [''t'']\<rparr>"

lemma sample_ha_state: "pf_ha sample_platform = new_ha (new_manager 2 (Some one_row) None) one_row (new_election ''a'' 10)"
  by (simp add: sample_platform_def new_platform_def sample_setup_def)

lemma restarted_platform_witness:
  "has_job sample_job (ha_manager (pf_ha (snd (platform_start (sample_platform_env 1) sample_platform))))
   \<and> rpc_log (ha_manager (pf_ha (snd (platform_start (sample_platform_env 1) sample_platform)))) = []"
proof -
  let ?p' = "snd (platform_start (sample_platform_env 1) sample_platform)"
  have new: "new_platform sample_setup None one_row ''a'' (new_bus 10) = Inr sample_platform"
    by (simp add: sample_platform_def new_platform_def sample_setup_def)
  have "fst (platform_start (sample_platform_env 1) sample_platform) = Inr ()" "is_leader (ha_election (pf_ha ?p'))"
    "sql_list_jobs one_row = Inr [sample_job]"
    by code_simp+
  then have "platform_start (sample_platform_env 1) sample_platform = (Inr (), ?p')"
    "is_leader (ha_election (pf_ha ?p'))" "sql_list_jobs one_row = Inr [sample_job]"
    by (metis prod.collapse)+
  from restarted_platform [OF new this] show ?thesis
    by simp
qed

text \<open>Before its start the same platform is a standby: an agent registers, a job comes, and it stops.\<close>

lemma standby_platform_writes_nothing_witness:
  "state_store (ha_manager (pf_ha (fold run_platform
      [Request (Register (sample_driver_env 1) sample_register),
       Request (Manager (Submit (sample_env 1) sample_mesh_task None ''k'' ''u'' [])),
       HealthRound (sample_driver_env 100), Maintain (sample_env 101) (\<lambda>_. ''d''),
       Halt (sample_platform_env 102), LeaseRound (sample_env 103)] sample_platform))) = Some one_row"
proof -
  let ?ps = "[Request (Register (sample_driver_env 1) sample_register),
       Request (Manager (Submit (sample_env 1) sample_mesh_task None ''k'' ''u'' [])),
       HealthRound (sample_driver_env 100), Maintain (sample_env 101) (\<lambda>_. ''d''),
       Halt (sample_platform_env 102), LeaseRound (sample_env 103)]"
  have start: "\<not> is_leader (ha_election (pf_ha sample_platform))"
    "leadership_check (ha_manager (pf_ha sample_platform)) = Some (is_leader (ha_election (pf_ha sample_platform)))"
    "state_store (ha_manager (pf_ha sample_platform)) = Some one_row"
    unfolding sample_ha_state by (simp_all add: new_ha_def new_election_def)
  have env: "others_standby (sample_env t)" "others_standby (d_env (sample_driver_env t))" for t
    by (simp_all add: others_standby_def sample_env_def sample_driver_env_def)
  have halted: "pf_ha (run_platform (Halt env) p) = ha_stop (pf_ha p)" for env p
    by (simp add: platform_stop_def announce_def)
  have retired: "\<not> is_leader (ha_election (snd (ha_round env (ha_stop h))))" for env h
    by (auto simp: ha_round_def ha_elect_def ha_stop_def stop_election_def renew_tick_def split: option.split)
  have "legal_run run_platform stays_standby ?ps sample_platform"
    unfolding legal_run.simps stays_standby.simps
    by (intro conjI TrueI) (simp_all only: driver_sleeps.simps jm_sleeps.simps env halted retired simp_thms)
  from standby_platform_writes_nothing [OF start(1,2) this] show ?thesis
    unfolding start(3) .
qed

end
