(* ===== verification/Commands.thy ===== *)
theory Commands
  imports Startup Platform Auth
begin

section \<open>Commands (mesh/cli.py and the main functions of the servers)\<close>

text \<open>
  How the command lines of the platform become the arguments of \<^verbatim>\<open>MeshPlatform\<close>.  What the argument
  parser returns is an argument, \<open>None\<close> where an option is absent; a configuration file denotes its
  configuration.
\<close>

subsection \<open>The platform (mesh/api/server.py)\<close>

record platform_options =
  po_grpc :: "string option"
  po_port :: "int option"
  po_db :: "string option"
  po_store_url :: "string option"
  po_mdns :: bool
  po_site :: "string option"
  po_mesh_config :: "string option"
  po_api_key :: "string option"

definition env_or :: "(string \<Rightarrow> string option) \<Rightarrow> string \<Rightarrow> string \<Rightarrow> string" where
  "env_or env name d = (case env name of None \<Rightarrow> d | Some v \<Rightarrow> v)"

definition option_or :: "'a option \<Rightarrow> 'a option \<Rightarrow> 'a option" where
  "option_or x d = (case x of None \<Rightarrow> d | Some v \<Rightarrow> Some v)"

definition arg_or :: "'a option \<Rightarrow> 'a \<Rightarrow> 'a" where
  "arg_or x d = (case x of None \<Rightarrow> d | Some v \<Rightarrow> v)"

text \<open>The default of the port is read from the environment even where the option is given.\<close>

definition platform_main ::
  "(string \<Rightarrow> mesh_config) \<Rightarrow> (string \<Rightarrow> string option) \<Rightarrow> platform_options
     \<Rightarrow> (platform_args \<times> auth_config) result" where
  "platform_main config env po =
     ebind (parse_int (env_or env ''MESH_DASHBOARD_PORT'' ''8080'')) (\<lambda>port.
       let key = option_or (po_api_key po) (env ''MESH_API_KEY'');
           path = option_or (po_mesh_config po) (env ''MESH_CONFIG'')
       in Inr (\<lparr>su_grpc = arg_or (po_grpc po) ''0.0.0.0:50050'',
                su_api_port = arg_or (po_port po) port,
                su_db = arg_or (po_db po) (env_or env ''MESH_STATE_DB'' ''clustermesh.db''),
                su_store_url = option_or (po_store_url po) (env ''MESH_STATE_URL''),
                su_mdns = po_mdns po,
                su_site = arg_or (po_site po) (env_or env ''MESH_SITE'' ''default''),
                su_mesh_config = (if given path then Some (config (the path)) else None)\<rparr>,
               \<lparr>api_key = key, auth_enabled = given key\<rparr>))"

subsection \<open>\<^verbatim>\<open>clustermesh platform\<close> (mesh/cli.py)\<close>

record cli_platform =
  cp_port :: int
  cp_db :: string
  cp_site :: string
  cp_mesh_config :: "string option"
  cp_mdns :: bool

definition default_cli_platform :: cli_platform where
  "default_cli_platform =
     \<lparr>cp_port = 8080, cp_db = ''clustermesh.db'', cp_site = ''default'', cp_mesh_config = None, cp_mdns = False\<rparr>"

text \<open>The options handed on; \<open>None\<close> is the exit code \<open>1\<close>.\<close>

definition cmd_platform :: "bool \<Rightarrow> cli_platform \<Rightarrow> platform_options option" where
  "cmd_platform zeroconf args =
     (if cp_mdns args \<and> \<not> zeroconf then None
      else Some \<lparr>po_grpc = None, po_port = (if cp_port args \<noteq> 0 then Some (cp_port args) else None),
                 po_db = (if cp_db args \<noteq> [] then Some (cp_db args) else None), po_store_url = None,
                 po_mdns = cp_mdns args,
                 po_site = (if cp_site args \<noteq> [] then Some (cp_site args) else None),
                 po_mesh_config = (if given (cp_mesh_config args) then cp_mesh_config args else None),
                 po_api_key = None\<rparr>)"

subsection \<open>The driver (mesh/driver/server.py)\<close>

record driver_options =
  do_address :: "string option"
  do_db :: "string option"
  do_port :: "int option"

definition driver_main ::
  "(string \<Rightarrow> string option) \<Rightarrow> driver_options \<Rightarrow> (platform_args \<times> auth_config) result" where
  "driver_main env o' =
     ebind (parse_int (env_or env ''MESH_DASHBOARD_PORT'' ''8080'')) (\<lambda>port.
       Inr (\<lparr>su_grpc = arg_or (do_address o') ''0.0.0.0:50050'',
             su_api_port = max 0 (arg_or (do_port o') port),
             su_db = arg_or (do_db o') (env_or env ''MESH_STATE_DB'' ''clustermesh.db''),
             su_store_url = None, su_mdns = False, su_site = ''default'', su_mesh_config = None\<rparr>,
            auth_from_env env))"

subsection \<open>The page of a worker (mesh/worker/server.py)\<close>

definition worker_status :: "real \<Rightarrow> worker_state \<Rightarrow> pyval dict" where
  "worker_status now w = worker_to_dict now w"

definition worker_health :: "worker_state \<Rightarrow> pyval dict" where
  "worker_health w = [(''ok'', PBool True), (''registered'', PBool (ws_registered w))]"

definition worker_ui_port :: "int option \<Rightarrow> worker_state \<Rightarrow> int" where
  "worker_ui_port port w = (case port of Some p \<Rightarrow> if p \<noteq> 0 then p else ws_ui_port w | None \<Rightarrow> ws_ui_port w)"

subsection \<open>Precedence of the settings\<close>

text \<open>
  The defaults of \<^verbatim>\<open>clustermesh platform\<close> are handed on as options, so that the environment has no say
  in the port, the database and the site; it has one in the store, the configuration file and the key.
\<close>

lemma cli_platform_settings:
  assumes "cmd_platform zeroconf default_cli_platform = Some po"
    and "platform_main config env po = Inr (su, auth)"
  shows "su_api_port su = 8080 \<and> su_db su = ''clustermesh.db'' \<and> su_site su = ''default''
    \<and> su_grpc su = ''0.0.0.0:50050'' \<and> su_store_url su = env ''MESH_STATE_URL''
    \<and> su_mesh_config su = (if given (env ''MESH_CONFIG'') then Some (config (the (env ''MESH_CONFIG''))) else None)
    \<and> auth_enabled auth = given (env ''MESH_API_KEY'')"
  using assms
  by (auto simp: cmd_platform_def default_cli_platform_def platform_main_def option_or_def arg_or_def
      given_def Let_def ebind_eq_Inr)

text \<open>The port 0, which a platform takes for no page, is not handed on.\<close>

lemma cli_port_zero:
  assumes "cmd_platform zeroconf (args\<lparr>cp_port := 0\<rparr>) = Some po" and "env ''MESH_DASHBOARD_PORT'' = None"
    and "platform_main config env po = Inr (su, auth)"
  shows "su_api_port su = 8080"
proof -
  have "parse_int ''8080'' = Inr 8080"
    by code_simp
  then show ?thesis
    using assms by (auto simp: cmd_platform_def platform_main_def arg_or_def env_or_def Let_def split: if_splits)
qed

text \<open>A port in the environment that is no number stops every platform, whatever its options are.\<close>

lemma bad_port_stops:
  assumes "env ''MESH_DASHBOARD_PORT'' = Some v" and "parse_int v = Inl e"
  shows "platform_main config env po = Inl e" and "driver_main env dops = Inl e"
  using assms by (simp_all add: platform_main_def driver_main_def env_or_def)

text \<open>
  Where the command of the driver asks for authentication without a key, the platform's main
  function does not authenticate: the flag of the environment is not read.
\<close>

lemma flag_depends_on_the_command:
  assumes "env ''MESH_AUTH_ENABLED'' = Some ''true''" and "env ''MESH_API_KEY'' = None" and "po_api_key po = None"
    and "platform_main config env po = Inr (su, auth)" and "driver_main env dops = Inr (su', auth')"
  shows "\<not> auth_enabled auth \<and> auth_enabled auth'"
proof -
  have "lower ''true'' = ''true''"
    by code_simp
  then show ?thesis
    using assms by (auto simp: platform_main_def driver_main_def option_or_def given_def auth_from_env_def
        Let_def ebind_eq_Inr)
qed

end
