(* ===== verification/EventStream.thy ===== *)
theory EventStream
  imports Events "HOL-Library.Sublist"
begin

section \<open>The event stream of a page (mesh/api/app.py, \<^verbatim>\<open>websocket_stream\<close>)\<close>

text \<open>
  A connection subscribes to the event bus.  Its callback puts events into a queue, from whatever
  thread publishes them, while the loop of the connection looks whether there are any, sends each,
  clears the queue, sleeps and sends the state of the cluster.  Each of these is a step, so
  that publications come between any two of them.
\<close>

datatype frame = EventFrame "pyval dict" | ClusterFrame "pyval dict"

datatype phase = Looking | Sending nat | Clearing | Sleeping | Closed

record event_stream =
  es_bus :: event_bus
  es_name :: string
  es_queue :: "pyval dict list"
  es_phase :: phase
  es_sent :: "frame list"

definition open_stream :: "string \<Rightarrow> event_bus \<Rightarrow> event_stream" where
  "open_stream cb b =
     \<lparr>es_bus = subscribe cb b, es_name = cb, es_queue = [], es_phase = Looking, es_sent = []\<rparr>"

text \<open>A publication calls the callback if the connection is subscribed.\<close>

definition publish_to :: "log_event \<Rightarrow> event_stream \<Rightarrow> event_stream" where
  "publish_to e s =
     s\<lparr>es_bus := publish e (es_bus s),
       es_queue := es_queue s
         @ (if es_name s \<in> set (subscribers (es_bus s)) then [event_to_dict e] else [])\<rparr>"

text \<open>The next step of the loop; an iteration over a list sees what is appended meanwhile.\<close>

definition advance :: "pyval dict \<Rightarrow> event_stream \<Rightarrow> event_stream" where
  "advance status s =
     (case es_phase s of
        Looking \<Rightarrow> s\<lparr>es_phase := (if es_queue s = [] then Sleeping else Sending 0)\<rparr>
      | Sending i \<Rightarrow>
          if i < length (es_queue s)
          then s\<lparr>es_sent := es_sent s @ [EventFrame (es_queue s ! i)], es_phase := Sending (i + 1)\<rparr>
          else s\<lparr>es_phase := Clearing\<rparr>
      | Clearing \<Rightarrow> s\<lparr>es_queue := [], es_phase := Sleeping\<rparr>
      | Sleeping \<Rightarrow> s\<lparr>es_sent := es_sent s @ [ClusterFrame status], es_phase := Looking\<rparr>
      | Closed \<Rightarrow> s)"

text \<open>Sending to a page that has gone ends the loop and the subscription.\<close>

definition disconnect :: "event_stream \<Rightarrow> event_stream" where
  "disconnect s =
     (case es_phase s of
        Sending i \<Rightarrow>
          if i < length (es_queue s)
          then s\<lparr>es_phase := Closed, es_bus := unsubscribe (es_name s) (es_bus s)\<rparr> else s
      | Sleeping \<Rightarrow> s\<lparr>es_phase := Closed, es_bus := unsubscribe (es_name s) (es_bus s)\<rparr>
      | _ \<Rightarrow> s)"

datatype stream_op = Published log_event | Advance "pyval dict" | Disconnect

fun run_stream :: "stream_op \<Rightarrow> event_stream \<Rightarrow> event_stream" where
  "run_stream (Published e) s = publish_to e s"
| "run_stream (Advance status) s = advance status s"
| "run_stream Disconnect s = disconnect s"

subsection \<open>What arrives at the page\<close>

text \<open>What the bus has delivered to the callback, what was sent of it, and what waits.\<close>

definition handed :: "event_stream \<Rightarrow> pyval dict list" where
  "handed s = map (event_to_dict \<circ> snd) (filter (\<lambda>d. fst d = es_name s) (delivered (es_bus s)))"

fun event_of :: "frame \<Rightarrow> pyval dict list" where
  "event_of (EventFrame d) = [d]"
| "event_of (ClusterFrame d) = []"

definition shown_events :: "event_stream \<Rightarrow> pyval dict list" where
  "shown_events s = concat (map event_of (es_sent s))"

definition pending :: "event_stream \<Rightarrow> pyval dict list" where
  "pending s = (case es_phase s of
     Sending i \<Rightarrow> drop i (es_queue s) | Clearing \<Rightarrow> [] | Closed \<Rightarrow> [] | _ \<Rightarrow> es_queue s)"

text \<open>A publication between the last event that is sent and the clearing of the queue.\<close>

fun not_clearing :: "stream_op \<Rightarrow> event_stream \<Rightarrow> bool" where
  "not_clearing (Published e) s \<longleftrightarrow> es_phase s \<noteq> Clearing"
| "not_clearing _ s \<longleftrightarrow> True"

definition subscribed :: "event_stream \<Rightarrow> bool" where
  "subscribed s \<longleftrightarrow>
     count_list (subscribers (es_bus s)) (es_name s) = (if es_phase s = Closed then 0 else 1)
     \<and> (\<forall>i. es_phase s = Sending i \<longrightarrow> i \<le> length (es_queue s))"

definition in_order :: "event_stream \<Rightarrow> bool" where
  "in_order s \<longleftrightarrow> subscribed s \<and> subseq (shown_events s @ pending s) (handed s)"

definition all_there :: "event_stream \<Rightarrow> bool" where
  "all_there s \<longleftrightarrow> subscribed s \<and> (es_phase s \<noteq> Closed \<longrightarrow> handed s = shown_events s @ pending s)"

lemma subscribed_member:
  "subscribed s \<Longrightarrow> es_name s \<in> set (subscribers (es_bus s)) \<longleftrightarrow> es_phase s \<noteq> Closed"
  using count_list_0_iff [of "subscribers (es_bus s)" "es_name s"] by (auto simp: subscribed_def)

lemma delivered_to: "filter (\<lambda>d. fst d = n) (map (\<lambda>cb. (cb, e)) xs) = replicate (count_list xs n) (n, e)"
  by (induction xs) auto

lemma publish_handed:
  assumes "subscribed s"
  shows "handed (publish_to e s) = handed s @ (if es_phase s = Closed then [] else [event_to_dict e])"
  using assms by (simp add: handed_def publish_to_def publish_def delivered_to subscribed_def)

lemma publish_pending:
  assumes "subscribed s"
  shows "pending (publish_to e s) = pending s @ (if es_phase s \<in> {Clearing, Closed} then [] else [event_to_dict e])"
  using assms subscribed_member [OF assms]
  by (cases "es_phase s") (simp_all add: pending_def publish_to_def subscribed_def)

lemma publish_frame:
  "subscribed s \<Longrightarrow> subscribed (publish_to e s)"
  "shown_events (publish_to e s) = shown_events s" "es_phase (publish_to e s) = es_phase s"
  by (auto simp: publish_to_def publish_def subscribed_def shown_events_def)

text \<open>A step of the loop sends the first pending event or none, and loses none.\<close>

lemma advance_effect:
  "shown_events (advance status s) @ pending (advance status s) = shown_events s @ pending s"
  "handed (advance status s) = handed s" "subscribed s \<Longrightarrow> subscribed (advance status s)"
  "es_phase (advance status s) = Closed \<longleftrightarrow> es_phase s = Closed"
  by (cases "es_phase s"; simp add: advance_def shown_events_def pending_def handed_def subscribed_def
      Cons_nth_drop_Suc)+

lemma count_remove1: "count_list (remove1 n xs) n = count_list xs n - 1"
  by (induction xs) auto

lemma disconnect_effect:
  "handed (disconnect s) = handed s" "subscribed s \<Longrightarrow> subscribed (disconnect s)"
  "shown_events (disconnect s) = shown_events s"
  "disconnect s = s \<or> es_phase (disconnect s) = Closed \<and> pending (disconnect s) = []"
  by (cases "es_phase s"; simp add: disconnect_def handed_def subscribed_def shown_events_def pending_def
      unsubscribe_def count_remove1)+

lemma subseq_front: "subseq (xs @ ys) zs \<Longrightarrow> subseq xs zs"
  by (meson prefixI prefix_imp_subseq subseq_order.trans)

interpretation ordered: stateful run_stream "\<lambda>_ _. True" in_order
proof unfold_locales
  fix s p
  assume s: "in_order s"
  then have sub: "subscribed s" by (simp add: in_order_def)
  show "in_order (run_stream p s)"
  proof (cases p)
    case (Published e)
    have "subseq ((shown_events s @ pending s) @ (if es_phase s \<in> {Clearing, Closed} then [] else [event_to_dict e]))
        (handed s @ (if es_phase s = Closed then [] else [event_to_dict e]))"
      using s list_emb_append_mono [of "(=)" "shown_events s @ pending s" "handed s" "[event_to_dict e]" "[event_to_dict e]"]
      by (auto simp: in_order_def simp del: append_assoc)
    then show ?thesis
      by (simp add: Published in_order_def publish_handed [OF sub] publish_pending [OF sub] publish_frame sub)
  next
    case (Advance status)
    then show ?thesis
      using s advance_effect by (simp add: in_order_def)
  next
    case Disconnect
    then show ?thesis
      using s subseq_front disconnect_effect [of s] by (auto simp: in_order_def)
  qed
qed

interpretation lossless: stateful run_stream not_clearing all_there
proof unfold_locales
  fix s p
  assume s: "all_there s" and "not_clearing p s"
  then have sub: "subscribed s" by (simp add: all_there_def)
  show "all_there (run_stream p s)"
  proof (cases p)
    case (Published e)
    then show ?thesis
      using s \<open>not_clearing p s\<close>
      by (simp add: all_there_def publish_handed [OF sub] publish_pending [OF sub] publish_frame sub)
  next
    case (Advance status)
    then show ?thesis
      using s advance_effect by (simp add: all_there_def)
  next
    case Disconnect
    then show ?thesis
      using s disconnect_effect [of s] by (auto simp: all_there_def)
  qed
qed

subsection \<open>Everything pending is sent\<close>

lemma one_is_sent:
  assumes "pending s \<noteq> []"
  shows "\<exists>k. length (pending ((advance status ^^ k) s)) < length (pending s)"
proof -
  have send: "length (pending (advance status s)) < length (pending s)" if "es_phase s = Sending i" "pending s \<noteq> []" for s i
    using that by (simp add: pending_def advance_def)
  have look: "es_phase (advance status s) = Sending 0 \<and> pending (advance status s) = pending s"
    if "es_phase s = Looking" "pending s \<noteq> []" for s
    using that by (simp add: pending_def advance_def)
  have wake: "es_phase (advance status s) = Looking \<and> pending (advance status s) = pending s"
    if "es_phase s = Sleeping" for s
    using that by (simp add: pending_def advance_def)
  have from_look: "length (pending ((advance status ^^ 2) s)) < length (pending s)"
    if "es_phase s = Looking" "pending s \<noteq> []" for s
    using look [OF that] send [of "advance status s" 0] that by (simp add: numeral_2_eq_2)
  show ?thesis
  proof (cases "es_phase s")
    case Looking
    then show ?thesis
      using from_look assms by blast
  next
    case (Sending i)
    then show ?thesis
      using send assms by (intro exI [of _ 1]) simp
  next
    case Sleeping
    then show ?thesis
      using wake from_look [of "advance status s"] assms
      by (intro exI [of _ 3]) (simp add: numeral_3_eq_3 numeral_2_eq_2 funpow_swap1)
  qed (use assms in \<open>simp_all add: pending_def\<close>)
qed

lemma advances_keep:
  "handed ((advance status ^^ k) s) = handed s \<and> (es_phase ((advance status ^^ k) s) = Closed \<longleftrightarrow> es_phase s = Closed)
   \<and> shown_events ((advance status ^^ k) s) @ pending ((advance status ^^ k) s) = shown_events s @ pending s"
  using advance_effect by (induction k) simp_all

lemma all_sent: "\<exists>k. shown_events ((advance status ^^ k) s) = shown_events s @ pending s"
proof (induction "length (pending s)" arbitrary: s rule: less_induct)
  case less
  show ?case
  proof (cases "pending s = []")
    case True
    then show ?thesis
      by (intro exI [of _ 0]) simp
  next
    case False
    then obtain k where "length (pending ((advance status ^^ k) s)) < length (pending s)"
      using one_is_sent by blast
    from less [OF this] obtain m where
      "shown_events ((advance status ^^ m) ((advance status ^^ k) s)) = shown_events s @ pending s"
      using advances_keep by metis
    then show ?thesis
      by (intro exI [of _ "m + k"]) (simp add: funpow_add)
  qed
qed

text \<open>
  C35: a page sees the events in order: whatever is published, and however publications fall between
  the steps of the loop, the events sent to a page are some of those handed to its connection,
  in their order; and if none is published in the moment in which the queue is cleared,
  the loop of an open connection goes on to send them all.
\<close>

theorem stream_in_order:
  assumes "s = fold run_stream ps (open_stream cb b)" and "cb \<notin> set (subscribers b)"
    and "cb \<notin> fst ` set (delivered b)"
  shows "subseq (shown_events s) (handed s)
    \<and> (legal_run run_stream not_clearing ps (open_stream cb b) \<and> es_phase s \<noteq> Closed \<longrightarrow>
         (\<exists>k. shown_events ((advance status ^^ k) s) = handed s))"
proof -
  have "filter (\<lambda>d. fst d = cb) (delivered b) = []"
    using assms(3) by (auto simp: filter_empty_conv)
  then have start: "handed (open_stream cb b) = []" "subscribed (open_stream cb b)"
    using assms(2) by (simp_all add: handed_def open_stream_def subscribe_def subscribed_def count_notin)
  have flat: "shown_events (open_stream cb b) = []" "pending (open_stream cb b) = []"
    by (simp_all add: shown_events_def open_stream_def pending_def)
  have "in_order (open_stream cb b)" "all_there (open_stream cb b)"
    by (simp_all add: in_order_def all_there_def start flat)
  then have "in_order s" and "legal_run run_stream not_clearing ps (open_stream cb b) \<Longrightarrow> all_there s"
    using ordered.run_all_ok [OF _ legal_always] lossless.run_all_ok assms(1) by blast+
  then show ?thesis
    using subseq_front all_sent [of status s] by (auto simp: in_order_def all_there_def)
qed

text \<open>An event that is published while the queue is cleared is handed over and never sent.\<close>

lemma clearing_loses:
  assumes "es_phase s = Clearing" and "subscribed s"
  shows "handed (advance status (publish_to e s)) = handed s @ [event_to_dict e]
    \<and> shown_events (advance status (publish_to e s)) = shown_events s
    \<and> pending (advance status (publish_to e s)) = []"
  using assms advance_effect(2) [of status] publish_handed [OF assms(2)]
  by (simp add: publish_frame) (simp add: advance_def publish_to_def shown_events_def pending_def)

definition sample_events :: "log_event list" where
  "sample_events =
     [create_event ''1'' ''t'' INFO ''driver'' ''a'' None, create_event ''2'' ''t'' INFO ''driver'' ''b'' None]"

text \<open>The second event comes while the first is being sent.\<close>

lemma stream_in_order_witness:
  "\<exists>k s. s = fold run_stream
       [Published (sample_events ! 0), Advance [], Advance [], Published (sample_events ! 1)]
       (open_stream ''page'' (new_bus 10))
     \<and> shown_events s = [event_to_dict (sample_events ! 0)]
     \<and> shown_events ((advance [] ^^ k) s) = map event_to_dict sample_events"
proof -
  let ?ps = "[Published (sample_events ! 0), Advance [], Advance [], Published (sample_events ! 1)]"
  let ?s = "fold run_stream ?ps (open_stream ''page'' (new_bus 10))"
  have steps: "legal_run run_stream not_clearing ?ps (open_stream ''page'' (new_bus 10))" "es_phase ?s = Sending 1"
    "shown_events ?s = [event_to_dict (sample_events ! 0)]" "handed ?s = map event_to_dict sample_events"
    by (simp_all add: open_stream_def new_bus_def subscribe_def publish_to_def publish_def advance_def
        shown_events_def handed_def sample_events_def)
  from stream_in_order [OF HOL.refl, of "''page''" "new_bus 10" ?ps "[]"] steps show ?thesis
    by (auto simp: new_bus_def)
qed

end
