(* ===== verification/Benchmark.thy ===== *)
theory Benchmark
  imports App
begin

section \<open>The placement benchmark and the registry of tasks\<close>

text \<open>
  \<^verbatim>\<open>benchmark_placement\<close> (mesh/scheduler/benchmark.py) with its route, where the readings of the
  performance counter and the hour of each iteration are arguments, and the table of callables of
  mesh/tasks/registry.py.
\<close>

subsection \<open>The nodes of the benchmark\<close>

definition pad4 :: "nat \<Rightarrow> string" where
  "pad4 i = replicate (4 - length (nat_digits i)) CHR ''0'' @ nat_digits i"

definition bench_node :: "nat \<Rightarrow> node" where
  "bench_node i =
     \<lparr>node_id = ''NODE-'' @ pad4 i, hostname = ''worker-'' @ pad4 i,
      resources =
        \<lparr>cpu_cores_total = 8 + int (i mod 4) * 4, cpu_cores_free = 4 + of_nat (i mod 4) * 2,
         ram_gb_total = 16 + of_nat (i mod 5) * 8, ram_gb_free = 8 + of_nat (i mod 5) * 4,
         gpu_count = (if i mod 10 = 0 then 1 else 0), vram_gb_free = (if i mod 10 = 0 then 8 else 0),
         cuda_version = None, network_gbps = 1, battery_pct = None, cpu_utilization = 0,
         user_active = False\<rparr>,
      node_state = HEALTHY, reliability_score = 7 / 10 + of_nat (i mod 3) / 10, latency_score = 9 / 10,
      node_pool = POOL_CPU, preemptible = False,
      location = [''bangalore'', ''london'', ''aws''] ! (i mod 3), tags = []\<rparr>"

definition bench_nodes :: "int \<Rightarrow> node list" where
  "bench_nodes n = map bench_node [0..<nat n]"

definition bench_task :: "string \<Rightarrow> task_spec" where
  "bench_task tid =
     (new_task_spec ''bench'' tid)\<lparr>task_requirements := default_requirements\<lparr>cpu_cores_req := 2, ram_gb_req := 4\<rparr>\<rparr>"

subsection \<open>The measurement\<close>

record benchmark =
  bm_node_count :: int
  bm_iterations :: int
  bm_mean_ms :: real
  bm_p50_ms :: real
  bm_p99_ms :: real
  bm_max_ms :: real
  bm_sla_ms :: real
  bm_passed :: bool

definition benchmark_to_dict :: "benchmark \<Rightarrow> pyval dict" where
  "benchmark_to_dict b =
     [(''node_count'', PInt (bm_node_count b)), (''iterations'', PInt (bm_iterations b)),
      (''mean_ms'', PFloat (py_round 3 (bm_mean_ms b))), (''p50_ms'', PFloat (py_round 3 (bm_p50_ms b))),
      (''p99_ms'', PFloat (py_round 3 (bm_p99_ms b))), (''max_ms'', PFloat (py_round 3 (bm_max_ms b))),
      (''sla_ms'', PFloat (bm_sla_ms b)), (''passed'', PBool (bm_passed b))]"

text \<open>What is measured in one iteration: the hour of its placement and the readings around it.\<close>

record bench_turn =
  bt_hour :: int
  bt_before :: real
  bt_after :: real

definition bench_time :: "string \<Rightarrow> node list \<Rightarrow> bench_turn \<Rightarrow> real result" where
  "bench_time tid ns turn =
     ebind (place default_engine (bt_hour turn) (bench_task tid) ns)
       (\<lambda>_. Inr ((bt_after turn - bt_before turn) * 1000))"

text \<open>The mean of no measurements raises; it comes before the median is taken.\<close>

definition benchmark_placement ::
  "string \<Rightarrow> (nat \<Rightarrow> bench_turn) \<Rightarrow> int \<Rightarrow> int \<Rightarrow> real \<Rightarrow> benchmark result" where
  "benchmark_placement tid turns how_many iterations sla =
     ebind (map_result (bench_time tid (bench_nodes how_many)) (map turns [0..<nat iterations])) (\<lambda>measured.
       let times = sort measured;
           p99 = min (length times - 1) (nat \<lfloor>of_nat (length times) * (99 / 100) :: real\<rfloor>);
           p50 = length times div 2
       in if times = [] then Inl ValueError
          else Inr \<lparr>bm_node_count = how_many, bm_iterations = iterations,
                    bm_mean_ms = sum_list times / of_nat (length times), bm_p50_ms = times ! p50,
                    bm_p99_ms = times ! p99, bm_max_ms = Max (set times), bm_sla_ms = sla,
                    bm_passed = (times ! p99 < sla)\<rparr>)"

definition scheduler_benchmark :: "string \<Rightarrow> (nat \<Rightarrow> bench_turn) \<Rightarrow> int \<Rightarrow> int \<Rightarrow> pyval dict result" where
  "scheduler_benchmark tid turns how_many iterations =
     ebind (benchmark_placement tid turns how_many iterations 100) (\<lambda>b. Inr (benchmark_to_dict b))"

subsection \<open>What the verdict says\<close>

lemma bench_node_ok: "node_ok (bench_node i)"
proof -
  have "i mod 3 = 0 \<or> i mod 3 = 1 \<or> i mod 3 = 2"
    by presburger
  then show ?thesis
    by (auto simp: node_ok_def bench_node_def)
qed

text \<open>Every iteration places its task: each node of the benchmark meets its requirements.\<close>

lemma bench_places:
  assumes "0 < n"
  shows "\<exists>p. place default_engine hour (bench_task tid) (bench_nodes n) = Inr (Some p)"
proof -
  let ?t = "bench_task tid"
  have t: "gpu_count_req (task_requirements ?t) \<le> 0" "task_pool ?t = None"
    by (simp_all add: bench_task_def new_task_spec_def default_requirements_def)
  have "\<forall>x \<in> set (bench_nodes n). node_ok x"
    by (auto simp: bench_nodes_def bench_node_ok)
  note d = place_decides [of default_engine ?t "bench_nodes n" hour, OF _ t(1) this]
  have "meets_requirements (bench_node 0) (task_requirements ?t) = Inr True"
    unfolding meets_requirements_no_gpu [OF t(1)]
    by (simp add: suitable_def bench_node_def bench_task_def new_task_spec_def default_requirements_def
        battery_too_low_def)
  moreover have "bench_node 0 \<in> set (bench_nodes n)"
    using assms by (auto simp: bench_nodes_def)
  ultimately have "place default_engine hour ?t (bench_nodes n) \<noteq> Inr None"
    using d by (auto simp: default_engine_def t(2))
  then show ?thesis
    using d by (auto simp: default_engine_def)
qed

lemma sorted_below:
  assumes "sorted xs" and "i < length xs"
  shows "xs ! i < (b :: 'a :: linorder) \<longleftrightarrow> i < length (filter (\<lambda>x. x < b) xs)"
  using assms
proof (induction xs arbitrary: i)
  case (Cons x xs)
  show ?case
  proof (cases "x < b")
    case True
    then show ?thesis
      using Cons by (cases i) auto
  next
    case False
    then have "\<forall>y \<in> set (x # xs). \<not> y < b"
      using Cons.prems(1) by auto
    then have "filter (\<lambda>x. x < b) (x # xs) = []" "\<not> (x # xs) ! i < b"
      using nth_mem [OF Cons.prems(2)] by (simp_all only: filter_empty_conv) blast
    then show ?thesis by simp
  qed
qed simp

lemma all_filtered: "length (filter P xs) = length xs \<longleftrightarrow> (\<forall>x \<in> set xs. P x)"
proof
  assume "length (filter P xs) = length xs"
  then show "\<forall>x \<in> set xs. P x"
    using length_filter_less [of _ xs P] by fastforce
qed simp

definition elapsed :: "bench_turn \<Rightarrow> real" where
  "elapsed turn = (bt_after turn - bt_before turn) * 1000"

text \<open>
  The verdict of the benchmark: with a node and an iteration it raises nothing; half of the
  times are at most the 99th percentile and that at most the longest, and it passes exactly when
  more measurements are below the limit than the index of the percentile, so up to a hundred
  iterations all have to be.
\<close>

lemma benchmark_verdict:
  assumes "0 < how_many" and "0 < iterations"
  shows "\<exists>b. benchmark_placement tid turns how_many iterations sla = Inr b
    \<and> bm_p50_ms b \<le> bm_p99_ms b \<and> bm_p99_ms b \<le> bm_max_ms b \<and> bm_mean_ms b \<le> bm_max_ms b
    \<and> (bm_passed b \<longleftrightarrow> min (nat iterations - 1) (nat \<lfloor>real (nat iterations) * (99 / 100)\<rfloor>)
         < length (filter (\<lambda>i. elapsed (turns i) < sla) [0..<nat iterations]))
    \<and> (iterations \<le> 100 \<longrightarrow> (bm_passed b \<longleftrightarrow> (\<forall>i < nat iterations. elapsed (turns i) < sla)))"
proof -
  let ?m = "map (\<lambda>i. elapsed (turns i)) [0..<nat iterations]"
  let ?s = "sort ?m"
  let ?p = "min (nat iterations - 1) (nat \<lfloor>real (nat iterations) * (99 / 100)\<rfloor>)"
  have measured: "map_result (bench_time tid (bench_nodes how_many)) (map turns [0..<nat iterations]) = Inr ?m"
  proof -
    have "bench_time tid (bench_nodes how_many) turn = Inr (elapsed turn)" for turn
      using bench_places [OF assms(1), of "bt_hour turn" tid] by (auto simp: bench_time_def elapsed_def)
    then show ?thesis
      by (simp add: map_result_total [where g = elapsed] o_def)
  qed
  have len: "length ?s = nat iterations" "0 < nat iterations" "?s \<noteq> []" "?p < length ?s"
    using assms(2) by (auto simp flip: length_0_conv)
  then obtain b where b: "benchmark_placement tid turns how_many iterations sla = Inr b"
    "bm_p50_ms b = ?s ! (nat iterations div 2)" "bm_p99_ms b = ?s ! ?p" "bm_max_ms b = Max (set ?s)"
    "bm_mean_ms b = sum_list ?s / real (nat iterations)" "bm_passed b \<longleftrightarrow> ?s ! ?p < sla"
    by (auto simp: benchmark_placement_def measured Let_def)
  have "nat iterations div 2 \<le> ?p"
  proof -
    have "real (2 * (nat iterations div 2)) \<le> real (nat iterations)"
      by (subst of_nat_le_iff) simp
    then have "real (nat iterations div 2) \<le> real (nat iterations) * (99 / 100)"
      by simp
    then have "nat iterations div 2 \<le> nat \<lfloor>real (nat iterations) * (99 / 100)\<rfloor>"
      by (simp add: le_nat_floor)
    then show ?thesis
      using len(2) by auto
  qed
  then have "bm_p50_ms b \<le> bm_p99_ms b"
    unfolding b by (intro sorted_nth_mono sorted_sort len(4))
  moreover have top: "x \<in> set ?s \<Longrightarrow> x \<le> bm_max_ms b" for x
    unfolding b by (rule Max_ge) simp_all
  moreover have "bm_p99_ms b \<le> bm_max_ms b"
    by (rule top) (use len(4) b(3) in \<open>simp only: nth_mem\<close>)
  moreover have "bm_mean_ms b \<le> bm_max_ms b"
  proof -
    have "sum_list ?s \<le> sum_list (map (\<lambda>_. bm_max_ms b) ?s)"
      using sum_list_mono [of ?s "\<lambda>x. x" "\<lambda>_. bm_max_ms b"] top by simp
    then have "sum_list ?s \<le> bm_max_ms b * real (nat iterations)"
      unfolding map_replicate_const sum_list_replicate len(1) by (simp only: mult.commute)
    then show ?thesis
      unfolding b(5) using len(2) by (simp only: pos_divide_le_eq of_nat_0_less_iff)
  qed
  moreover have passed: "bm_passed b \<longleftrightarrow> ?p < length (filter (\<lambda>i. elapsed (turns i) < sla) [0..<nat iterations])"
  proof -
    have "?s ! ?p < sla \<longleftrightarrow> ?p < length (filter (\<lambda>x. x < sla) ?s)"
      by (rule sorted_below) (rule sorted_sort, rule len(4))
    moreover have "length (filter (\<lambda>x. x < sla) ?s) = length (filter (\<lambda>i. elapsed (turns i) < sla) [0..<nat iterations])"
      unfolding filter_sort length_sort filter_map length_map o_def ..
    ultimately show ?thesis
      unfolding b(6) by simp
  qed
  moreover have "bm_passed b \<longleftrightarrow> (\<forall>i < nat iterations. elapsed (turns i) < sla)" if "iterations \<le> 100"
  proof -
    have "real (nat iterations) - 1 \<le> real (nat iterations) * (99 / 100)"
      using that assms(2) by simp
    then have "nat iterations - 1 \<le> nat \<lfloor>real (nat iterations) * (99 / 100)\<rfloor>"
      using len(2) by (intro le_nat_floor) (simp add: of_nat_diff)
    then have p: "?p = nat iterations - 1"
      by simp
    have "length (filter (\<lambda>i. elapsed (turns i) < sla) [0..<nat iterations]) \<le> nat iterations"
      by (metis diff_zero length_filter_le length_upt)
    then have "bm_passed b \<longleftrightarrow>
        length (filter (\<lambda>i. elapsed (turns i) < sla) [0..<nat iterations]) = length [0..<nat iterations]"
      unfolding passed p length_upt using len(2) by linarith
    then show ?thesis
      unfolding all_filtered set_upt by auto
  qed
  ultimately show ?thesis
    using b(1) by blast
qed


lemma benchmark_verdict_witness:
  "\<exists>b. benchmark_placement ''t'' (\<lambda>i. \<lparr>bt_hour = 12, bt_before = 0, bt_after = of_nat i\<rparr>) 3 2 100 = Inr b
     \<and> \<not> bm_passed b"
proof -
  let ?turns = "\<lambda>i. \<lparr>bt_hour = 12, bt_before = 0, bt_after = of_nat i\<rparr>"
  obtain b where b: "benchmark_placement ''t'' ?turns 3 2 100 = Inr b"
    "bm_passed b \<longleftrightarrow> (\<forall>i < nat 2. elapsed (?turns i) < 100)"
    using benchmark_verdict [of 3 2 "''t''" ?turns 100] by auto
  have "\<not> elapsed (?turns 1) < 100"
    by (simp add: elapsed_def)
  moreover have "(1::nat) < nat 2"
    by simp
  ultimately have "\<not> bm_passed b"
    unfolding b(2) by blast
  then show ?thesis
    using b(1) by blast
qed

text \<open>Without iterations, and for the route as for the script, the mean raises.\<close>

lemma no_iterations_raise:
  "iterations \<le> 0 \<Longrightarrow> scheduler_benchmark tid turns how_many iterations = Inl ValueError"
  by (simp add: scheduler_benchmark_def benchmark_placement_def)

subsection \<open>The registry of tasks (mesh/tasks/registry.py)\<close>

text \<open>A callable is a reference; registering a decorated task registers its callable under its name.\<close>

definition register_callable :: "string \<Rightarrow> 'f \<Rightarrow> 'f dict \<Rightarrow> 'f \<times> 'f dict" where
  "register_callable name fn reg = (fn, dict_set name fn reg)"

definition get_callable :: "string \<Rightarrow> 'f dict \<Rightarrow> 'f result" where
  "get_callable name reg = (case dict_get reg name of None \<Rightarrow> Inl KeyError | Some fn \<Rightarrow> Inr fn)"

definition list_callables :: "'f dict \<Rightarrow> string list" where
  "list_callables reg = sort (dict_keys reg)"

definition register_mesh_task :: "mesh_task \<Rightarrow> string dict \<Rightarrow> string dict" where
  "register_mesh_task m = dict_set (mt_name m) (mt_fn m)"

lemma get_registered:
  "get_callable n (snd (register_callable name fn reg)) = (if n = name then Inr fn else get_callable n reg)"
  by (simp add: register_callable_def get_callable_def)

lemma listed_can_be_got: "n \<in> set (list_callables reg) \<longleftrightarrow> (\<exists>fn. get_callable n reg = Inr fn)"
proof -
  have "n \<in> set (dict_keys reg) \<longleftrightarrow> dict_get reg n \<noteq> None"
    by (induction reg) auto
  then show ?thesis
    unfolding list_callables_def set_sort get_callable_def by (auto split: option.split)
qed

end
