(* ===== verification/HostText.thy ===== *)
theory HostText
  imports Monitor Discovery
begin

section \<open>What the programs of the host print (mesh/agent/host_metrics.py, mesh/agent/monitor.py)\<close>

text \<open>
  The readings of a macOS host that are taken from the text of \<^verbatim>\<open>sysctl\<close>, \<^verbatim>\<open>vm_stat\<close>,
  \<^verbatim>\<open>system_profiler\<close> and \<^verbatim>\<open>ioreg\<close>: each regular expression is a function that tries the matches in the
  order in which the backtracking matcher does.  A program that cannot be run is \<open>None\<close>.
\<close>

subsection \<open>Lines\<close>

definition is_break :: "char \<Rightarrow> bool" where
  "is_break c \<longleftrightarrow> of_char c \<in> {10::nat, 11, 12, 13, 28, 29, 30}"

text \<open>\<^verbatim>\<open>s.splitlines()\<close>; a carriage return and the line feed after it are one break.\<close>

fun split_lines :: "string \<Rightarrow> string list" where
  "split_lines [] = []"
| "split_lines [c] = (if is_break c then [[]] else [[c]])"
| "split_lines (c # d # s) =
     (if is_break c then
        if c = CHR 0x0D \<and> d = CHR 0x0A then [] # split_lines s else [] # split_lines (d # s)
      else case split_lines (d # s) of [] \<Rightarrow> [[c]] | w # ws \<Rightarrow> (c # w) # ws)"

subsection \<open>Matching\<close>

text \<open>The first number from \<open>n\<close> down to \<open>0\<close> for which there is a match.\<close>

fun first_match :: "(nat \<Rightarrow> 'a option) \<Rightarrow> nat \<Rightarrow> 'a option" where
  "first_match f 0 = f 0"
| "first_match f (Suc n) = (case f (Suc n) of Some x \<Rightarrow> Some x | None \<Rightarrow> first_match f n)"

definition after_prefix :: "string \<Rightarrow> string \<Rightarrow> string option" where
  "after_prefix p s = (if take (length p) s = p then Some (drop (length p) s) else None)"

text \<open>\<^verbatim>\<open>:\s+(\d+)\.\<close> at the front.\<close>

definition count_after :: "string \<Rightarrow> nat option" where
  "count_after s =
     (case s of
        [] \<Rightarrow> None
      | c # t \<Rightarrow>
          let d = dropWhile is_space t; n = takeWhile is_digit d
          in if c = CHR '':'' \<and> d \<noteq> t \<and> n \<noteq> [] \<and> take 1 (drop (length n) d) = ''.''
             then Some (digits_val n) else None)"

text \<open>\<^verbatim>\<open>(.+?)\<close> before it: the shortest name that is not empty and stays on its line.\<close>

fun named_count :: "string \<Rightarrow> string \<Rightarrow> (string \<times> nat) option" where
  "named_count name [] = None"
| "named_count name (c # s) =
     (if c = CHR 0x0A then None
      else case count_after s of
             Some n \<Rightarrow> Some (name @ [c], n)
           | None \<Rightarrow> named_count (name @ [c]) s)"

text \<open>\<^verbatim>\<open>Pages\s+(.+?):\s+(\d+)\.\<close>\<close>

definition vm_stat_line :: "string \<Rightarrow> (string \<times> nat) option" where
  "vm_stat_line line =
     (case after_prefix ''Pages'' line of
        None \<Rightarrow> None
      | Some t \<Rightarrow> first_match (\<lambda>i. if i = 0 then None else named_count [] (drop i t))
                   (length (takeWhile is_space t)))"

definition page_key :: "string \<Rightarrow> string" where
  "page_key name = map (\<lambda>c. if c = CHR '' '' then CHR ''_'' else c) (lower name)"

definition vm_stat_pages :: "string \<Rightarrow> int dict" where
  "vm_stat_pages out =
     fold (\<lambda>line pages. case vm_stat_line (strip line) of
             None \<Rightarrow> pages
           | Some (name, n) \<Rightarrow> dict_set (page_key name) (int n) pages) (split_lines out) []"

text \<open>\<^verbatim>\<open>Chipset Model:\s*(.+)\<close>, all of them: the white space may reach into the next line.\<close>

definition model_match :: "string \<Rightarrow> nat \<Rightarrow> (string \<times> string) option" where
  "model_match t i =
     (let name = takeWhile (\<lambda>c. c \<noteq> CHR 0x0A) (drop i t)
      in if name = [] then None else Some (name, drop (i + length name) t))"

definition model_at :: "string \<Rightarrow> (string \<times> string) option" where
  "model_at s =
     (case after_prefix ''Chipset Model:'' s of
        None \<Rightarrow> None
      | Some t \<Rightarrow> first_match (model_match t) (length (takeWhile is_space t)))"

lemma first_match_Some: "first_match f n = Some x \<Longrightarrow> \<exists>i \<le> n. f i = Some x"
  by (induction n) (auto split: option.splits intro: le_SucI)

lemma after_prefix_shorter: "after_prefix p s = Some t \<Longrightarrow> p \<noteq> [] \<Longrightarrow> length t < length s"
  by (cases s) (auto simp: after_prefix_def split: if_splits)

lemma case_option_Some:
  assumes "(case x of None \<Rightarrow> None | Some t \<Rightarrow> f t) = Some y"
  obtains t where "x = Some t" and "f t = Some y"
  using assms by (cases x) auto

lemma model_at_shorter:
  assumes "model_at s = Some (name, rest)"
  shows "length rest < length s"
proof -
  obtain t where t: "after_prefix ''Chipset Model:'' s = Some t"
    and m: "first_match (model_match t) (length (takeWhile is_space t)) = Some (name, rest)"
    using assms unfolding model_at_def by (rule case_option_Some)
  obtain i where "model_match t i = Some (name, rest)"
    using first_match_Some [OF m] by blast
  then have "length rest \<le> length t"
    by (auto simp: model_match_def Let_def split: if_splits)
  also have "\<dots> < length s"
    by (rule after_prefix_shorter [OF t]) simp
  finally show ?thesis .
qed

function chipset_models :: "string \<Rightarrow> string list" where
  "chipset_models [] = []"
| "chipset_models (c # s) =
     (case model_at (c # s) of
        None \<Rightarrow> chipset_models s
      | Some (name, rest) \<Rightarrow> name # chipset_models rest)"
  by pat_completeness auto

termination chipset_models
  by (relation "measure length") (auto dest: model_at_shorter)

text \<open>\<^verbatim>\<open>"HIDIdleTime"\s*=\s*(\d+)\<close>, the first one.\<close>

definition idle_at :: "string \<Rightarrow> nat option" where
  "idle_at s =
     (case after_prefix (CHR 0x22 # ''HIDIdleTime'' @ [CHR 0x22]) s of
        None \<Rightarrow> None
      | Some t \<Rightarrow>
          (case dropWhile is_space t of
             [] \<Rightarrow> None
           | c # u \<Rightarrow>
               let n = takeWhile is_digit (dropWhile is_space u)
               in if c = CHR ''='' \<and> n \<noteq> [] then Some (digits_val n) else None))"

fun hid_idle :: "string \<Rightarrow> nat option" where
  "hid_idle [] = None"
| "hid_idle (c # s) = (case idle_at (c # s) of Some n \<Rightarrow> Some n | None \<Rightarrow> hid_idle s)"

subsection \<open>The readings\<close>

record programs =
  pg_processor :: string
  pg_machine :: string
  pg_brand :: "string option"
  pg_page_size :: "string option"
  pg_vm_stat :: "string option"
  pg_profiler :: "string option"
  pg_ioreg :: "string option"

definition cpu_brand :: "string \<Rightarrow> programs \<Rightarrow> string" where
  "cpu_brand system pg =
     (if system \<noteq> ''Darwin''
      then if pg_processor pg \<noteq> [] then pg_processor pg else pg_machine pg
      else case pg_brand pg of
             None \<Rightarrow> pg_machine pg
           | Some out \<Rightarrow> if strip out \<noteq> [] then strip out else pg_machine pg)"

definition page_size :: "programs \<Rightarrow> int option" where
  "page_size pg =
     (case pg_page_size pg of
        None \<Rightarrow> None
      | Some out \<Rightarrow> (case parse_int (strip out) of Inl _ \<Rightarrow> None | Inr n \<Rightarrow> Some n))"

definition read_programs :: "programs \<Rightarrow> host \<Rightarrow> host" where
  "read_programs pg h =
     h\<lparr>h_brand := cpu_brand (h_system h) pg, h_page_size := page_size pg,
       h_pages := map_option vm_stat_pages (pg_vm_stat pg),
       h_chipsets := (case pg_profiler pg of None \<Rightarrow> [] | Some out \<Rightarrow> chipset_models out),
       h_hid_idle := (case pg_ioreg pg of None \<Rightarrow> None | Some out \<Rightarrow> hid_idle out)\<rparr>"

definition os_name :: "host \<Rightarrow> string" where
  "os_name h = h_system h @ '' '' @ h_release h"

subsection \<open>The text of \<^verbatim>\<open>vm_stat\<close> is read back\<close>

definition page_name :: "string \<Rightarrow> bool" where
  "page_name name \<longleftrightarrow> name \<noteq> [] \<and> \<not> is_space (hd name) \<and> (\<forall>c \<in> set name. c \<noteq> CHR '':'' \<and> \<not> is_break c)"

definition page_line :: "string \<times> nat \<times> nat \<Rightarrow> string" where
  "page_line e =
     (case e of (name, pad, n) \<Rightarrow>
        ''Pages '' @ name @ '':'' @ replicate (Suc pad) CHR '' '' @ nat_digits n @ ''.'')"

definition vm_stat_text :: "(string \<times> nat \<times> nat) list \<Rightarrow> string" where
  "vm_stat_text es =
     ''Mach Virtual Memory Statistics: (page size of 16384 bytes)'' @ [CHR 0x0A]
       @ concat (map (\<lambda>e. page_line e @ [CHR 0x0A]) es)"

lemma split_lines_line:
  assumes "\<forall>c \<in> set w. \<not> is_break c"
  shows "split_lines (w @ CHR 0x0A # s) = w # split_lines s"
  using assms
proof (induction w)
  case Nil
  then show ?case
    by (cases s) (simp_all add: is_break_def)
next
  case (Cons c w)
  then show ?case
    by (cases w) simp_all
qed

lemma space_blank [simp]: "is_space CHR '' ''"
  by (simp add: is_space_def)

lemma takeWhile_digits: "takeWhile is_digit (nat_digits n @ ''.'') = nat_digits n"
  by (subst takeWhile_append2) (auto dest: nat_digits_digits simp: is_digit_def)

lemma count_after_printed: "count_after ('':'' @ replicate (Suc pad) CHR '' '' @ nat_digits n @ ''.'') = Some n"
proof -
  obtain c ds where c: "nat_digits n = c # ds"
    using nat_digits_not_Nil [of n] by (cases "nat_digits n") auto
  then have "\<not> is_space c"
    using nat_digits_digits [of c n] digit_not_space by simp
  then have "dropWhile is_space (nat_digits n @ ''.'') = nat_digits n @ ''.''"
    by (simp add: c)
  then have d: "dropWhile is_space (replicate (Suc pad) CHR '' '' @ nat_digits n @ ''.'') = nat_digits n @ ''.''"
    by (subst dropWhile_append2) auto
  have "length (nat_digits n @ ''.'') < length (replicate (Suc pad) CHR '' '' @ nat_digits n @ ''.'')"
    by simp
  then have "nat_digits n @ ''.'' \<noteq> replicate (Suc pad) CHR '' '' @ nat_digits n @ ''.''"
    by (metis less_irrefl)
  then show ?thesis
    using d takeWhile_digits [of n] by (simp add: count_after_def Let_def)
qed

lemma named_count_printed:
  assumes "count_after tail = Some n" and "name \<noteq> []" and "\<forall>c \<in> set name. c \<noteq> CHR '':'' \<and> c \<noteq> CHR 0x0A"
  shows "named_count seen (name @ tail) = Some (seen @ name, n)"
  using assms(2,3)
proof (induction name arbitrary: seen)
  case (Cons c name)
  show ?case
  proof (cases name)
    case Nil
    then show ?thesis
      using Cons.prems assms(1) by simp
  next
    case (Cons d rest)
    then have "count_after (name @ tail) = None"
      using Cons.prems by (simp add: count_after_def Let_def)
    then show ?thesis
      using Cons.prems Cons.IH [of "seen @ [c]"] Cons by simp
  qed
qed simp

lemma is_break_feed [simp]: "is_break CHR 0x0A"
  by (simp add: is_break_def)

lemma vm_stat_line_printed:
  assumes "page_name name"
  shows "vm_stat_line (page_line (name, pad, n)) = Some (name, n)"
proof -
  define tail where "tail = '':'' @ replicate (Suc pad) CHR '' '' @ nat_digits n @ ''.''"
  obtain c cs where name: "name = c # cs" and c: "\<not> is_space c"
    using assms by (cases name) (auto simp: page_name_def)
  have "\<forall>x \<in> set name. x \<noteq> CHR '':'' \<and> x \<noteq> CHR 0x0A"
    using assms is_break_feed unfolding page_name_def by blast
  moreover have "count_after tail = Some n"
    unfolding tail_def by (rule count_after_printed)
  ultimately have found: "named_count [] (name @ tail) = Some (name, n)"
    using named_count_printed [of tail n name "[]"] by (simp add: name)
  have "page_line (name, pad, n) = ''Pages'' @ ('' '' @ name @ tail)"
    by (simp add: page_line_def tail_def)
  then have "after_prefix ''Pages'' (page_line (name, pad, n)) = Some ('' '' @ name @ tail)"
    by (simp add: after_prefix_def)
  moreover have "length (takeWhile is_space ('' '' @ name @ tail)) = Suc 0"
    using c by (simp add: name)
  ultimately show ?thesis
    using found by (simp add: vm_stat_line_def)
qed

lemma strip_page_line:
  shows "strip (page_line (name, pad, n)) = page_line (name, pad, n)"
proof -
  define mid where "mid = ''ages '' @ name @ '':'' @ replicate (Suc pad) CHR '' '' @ nat_digits n"
  have line: "page_line (name, pad, n) = CHR ''P'' # mid @ ''.''"
    by (simp add: page_line_def mid_def)
  show ?thesis
    unfolding line strip_def by (simp add: is_space_def)
qed

lemma page_line_unbroken:
  assumes "page_name name"
  shows "\<forall>c \<in> set (page_line (name, pad, n)). \<not> is_break c"
proof
  fix c
  assume "c \<in> set (page_line (name, pad, n))"
  then consider "c \<in> set ''Pages :.''" | "c \<in> set name" | "c \<in> set (nat_digits n)"
    by (auto simp: page_line_def)
  then show "\<not> is_break c"
  proof cases
    case 1
    then show ?thesis
      by (auto simp: is_break_def)
  next
    case 2
    then show ?thesis
      using assms by (simp add: page_name_def)
  next
    case 3
    then have "is_digit c"
      by (rule nat_digits_digits)
    then show ?thesis
      by (auto simp: is_digit_def is_break_def)
  qed
qed

lemma split_lines_printed:
  assumes "\<forall>e \<in> set es. page_name (fst e)"
  shows "split_lines (concat (map (\<lambda>e. page_line e @ [CHR 0x0A]) es)) = map page_line es"
  using assms
proof (induction es)
  case (Cons e es)
  obtain name pad n where e: "e = (name, pad, n)"
    by (cases e)
  have "\<forall>c \<in> set (page_line e). \<not> is_break c"
    using Cons.prems page_line_unbroken [of name pad n] by (simp add: e)
  from split_lines_line [OF this] show ?case
    using Cons by simp
qed simp

lemma update_new_key: "k \<notin> set (dict_keys d) \<Longrightarrow> dict_set k v d = d @ [(k, v)]"
  by (induction d) auto

lemma fold_pages:
  assumes "distinct (map (\<lambda>e. page_key (fst e)) es)" and "\<forall>e \<in> set es. page_name (fst e)"
    and "set (dict_keys d) \<inter> page_key ` fst ` set es = {}"
  shows "fold (\<lambda>line pages. case vm_stat_line (strip line) of None \<Rightarrow> pages
             | Some (name, n) \<Rightarrow> dict_set (page_key name) (int n) pages) (map page_line es) d
           = d @ map (\<lambda>(name, pad, n). (page_key name, int n)) es"
  using assms
proof (induction es arbitrary: d)
  case (Cons e es)
  obtain name pad n where e: "e = (name, pad, n)"
    by (cases e)
  have line: "vm_stat_line (strip (page_line e)) = Some (name, n)"
    using Cons.prems(2) vm_stat_line_printed [of name pad n] by (simp add: e strip_page_line)
  have step: "dict_set (page_key name) (int n) d = d @ [(page_key name, int n)]"
    using Cons.prems(3) by (intro update_new_key) (auto simp: e)
  show ?case
    using Cons.prems Cons.IH [of "d @ [(page_key name, int n)]"]
    by (auto simp: line step) (auto simp: e image_iff)
qed simp

theorem vm_stat_read_back:
  assumes "\<forall>e \<in> set es. page_name (fst e)" and "distinct (map (\<lambda>e. page_key (fst e)) es)"
  shows "vm_stat_pages (vm_stat_text es) = map (\<lambda>(name, pad, n). (page_key name, int n)) es"
proof -
  let ?head = "''Mach Virtual Memory Statistics: (page size of 16384 bytes)''"
  have "split_lines (vm_stat_text es) = ?head # map page_line es"
    unfolding vm_stat_text_def
    using split_lines_line [of ?head] split_lines_printed [OF assms(1)] by (simp add: is_break_def)
  moreover have "vm_stat_line (strip ?head) = None"
    by code_simp
  ultimately show ?thesis
    using fold_pages [OF assms(2,1), of "[]"] by (simp add: vm_stat_pages_def)
qed

text \<open>The categories of memory of a Darwin host, from the text its \<^verbatim>\<open>vm_stat\<close> prints.\<close>

lemma pages_of_text:
  assumes "\<forall>e \<in> set es. page_name (fst e)" and "distinct (map (\<lambda>e. page_key (fst e)) es)"
    and "(name, pad, n) \<in> set es"
  shows "dict_get_default (vm_stat_pages (vm_stat_text es)) (page_key name) 0 = int n"
proof -
  have "map_of (map (\<lambda>(name, pad, n). (page_key name, int n)) es) (page_key name) = Some (int n)"
  proof (rule map_of_is_SomeI)
    show "distinct (map fst (map (\<lambda>(name, pad, n). (page_key name, int n)) es))"
      using assms(2) by (simp add: comp_def case_prod_unfold)
    show "(page_key name, int n) \<in> set (map (\<lambda>(name, pad, n). (page_key name, int n)) es)"
      using assms(3) by force
  qed
  then show ?thesis
    by (simp add: vm_stat_read_back [OF assms(1,2)] dict_get_default_def)
qed

lemma darwin_memory_of_text:
  assumes "\<forall>e \<in> set es. page_name (fst e)" and "distinct (map (\<lambda>e. page_key (fst e)) es)"
    and "(name, pad, n) \<in> set es" and "page_key name = ''wired_down''"
    and "pg_vm_stat pg = Some (vm_stat_text es)" and "page_size pg = Some width"
  shows "dict_get (darwin_memory_breakdown (read_programs pg h)) ''wired_gb''
           = Some (PFloat (py_round 2 (gib (int n * width))))"
  using pages_of_text [OF assms(1-3)] assms(4-6)
  by (simp add: darwin_memory_breakdown_def read_programs_def Let_def)

text \<open>The graphics cards of a Mac, in the order in which they are listed.\<close>

lemma two_chipsets:
  "chipset_models (''Graphics:'' @ [CHR 0x0A] @ ''  Chipset Model: Intel UHD'' @ [CHR 0x0A]
     @ ''  Type: GPU'' @ [CHR 0x0A] @ ''  Chipset Model: Radeon Pro'') = [''Intel UHD'', ''Radeon Pro'']"
  by code_simp

text \<open>What \<^verbatim>\<open>nvidia-smi\<close> prints last is the version of the driver, and it is taken for that of CUDA.\<close>

lemma driver_version_is_cuda:
  "detect_gpu (h\<lparr>h_nvidia := Some ''NVIDIA A100, 512, 535.104.05''\<rparr>) = (1, 1 / 2, Some ''535'')"
proof -
  have "split_on CHR 0x0A (strip ''NVIDIA A100, 512, 535.104.05'') = [''NVIDIA A100, 512, 535.104.05'']"
    and "map strip (split_on CHR '','' ''NVIDIA A100, 512, 535.104.05'') = [''NVIDIA A100'', ''512'', ''535.104.05'']"
    and "py_float ''512'' = Inr 512"
    and "split_dot_head ''535.104.05'' = ''535''"
    by code_simp+
  then have "parse_nvidia ''NVIDIA A100, 512, 535.104.05'' = Inr (1, 1 / 2, Some ''535'')"
    by (simp add: parse_nvidia_def Let_def)
  moreover have "strip ''NVIDIA A100, 512, 535.104.05'' \<noteq> []"
    by code_simp
  ultimately show ?thesis
    by (simp add: detect_gpu_def)
qed

lemma driver_version_passes:
  assumes "cuda_version r = Some ''535''" and "cuda_version_req req = Some ''500.0''"
  shows "cuda_too_old r req = Inr False"
proof -
  have "split_dot_head ''535'' = ''535''" and "split_dot_head ''500.0'' = ''500''"
    and "py_float ''535'' = Inr 535" and "py_float ''500'' = Inr 500"
    by code_simp+
  then show ?thesis
    using assms by (simp add: cuda_too_old_def)
qed

end
