(* ===== verification/SimManager.thy ===== *)
theory SimManager
  imports JobWitnesses Simulation
begin

section \<open>A job manager over the simulated cluster (mesh/sim/cluster.py, mesh/sdk/__init__.py)\<close>

text \<open>
  The simulated cluster with a job manager attached, and the entry points of the SDK that create
  the two.  The state extends the manager's by the agents, the clock and the events of the
  simulation; the tracker, the table of tasks and the checkpoints of the simulated cluster are those
  of the manager's record, whose tables of nodes and of remote agents stay empty: \<^verbatim>\<open>is_remote\<close> is
  false for every node.
  What the manager does with the cluster is written out for the simulated one; its other steps are
  those of \<open>JobManager\<close> and \<open>JobOps\<close>, lifted.
\<close>

subsection \<open>State\<close>

record sim_manager = job_manager +
  sm_agents :: "sim_agent list"
  sm_clock :: real
  sm_tick :: real
  sm_events :: "(real \<times> sim_action) list"

definition new_sim_manager :: "string dict \<Rightarrow> sim_agent list \<Rightarrow> real \<Rightarrow> sim_manager" where
  "new_sim_manager reg agents start =
     fold (\<lambda>a. tracker_register start (sa_node_id a)) agents
       (job_manager.extend ((new_manager 2 None None)\<lparr>registry := reg\<rparr>)
          \<lparr>sm_agents = agents, sm_clock = start, sm_tick = 1, sm_events = []\<rparr>)"

text \<open>
  \<^verbatim>\<open>JobManager(cluster=cluster)\<close> for a cluster that there is already: what belongs to the cluster
  stays, what belongs to the manager is new.  The job objects of an earlier manager are no longer
  in its tables.
\<close>

definition attach_manager :: "string dict \<Rightarrow> sim_manager \<Rightarrow> sim_manager" where
  "attach_manager reg s = s
     \<lparr>jobs := [], job_tasks := [], idempotency := [], running := [], interrupts := [],
      speculator := new_speculation, registry := reg, state_store := None, leadership_check := None\<rparr>"

text \<open>A step of the manager that does not look at the kind of its cluster.\<close>

definition lift_manager :: "(job_manager, 'a) py \<Rightarrow> (sim_manager, 'a) py" where
  "lift_manager f s =
     (case f (job_manager.truncate s) of (r, m) \<Rightarrow> (r, job_manager.extend m (job_manager.more s)))"

subsection \<open>The cluster\<close>

fun agents_live :: "real \<Rightarrow> sim_agent list \<Rightarrow> 'a tracker_scheme \<Rightarrow> node list \<times> 'a tracker_scheme" where
  "agents_live now [] m = ([], m)"
| "agents_live now (a # as) m =
     (if \<not> sa_alive a then agents_live now as m
      else
        case registry_state now (sa_node_id a) m of (st, m1) \<Rightarrow>
          case agents_live now as m1 of (ns, m2) \<Rightarrow> (to_node st a # ns, m2))"

definition sm_live_nodes :: "(sim_manager, node list) py" where
  "sm_live_nodes s = (case agents_live (sm_clock s) (sm_agents s) s of (ns, s1) \<Rightarrow> (Inr ns, s1))"

definition sm_map_agents :: "(sim_agent \<Rightarrow> bool) \<Rightarrow> (sim_agent \<Rightarrow> sim_agent) \<Rightarrow> (sim_manager, unit) py" where
  "sm_map_agents p f = smodify (\<lambda>s. s\<lparr>sm_agents := map (\<lambda>a. if p a then f a else a) (sm_agents s)\<rparr>)"

definition sm_cluster_submit :: "place_method \<Rightarrow> ref \<Rightarrow> (sim_manager, string option) py" where
  "sm_cluster_submit pf r =
     sbind (smodify (\<lambda>s. s\<lparr>tasks := dict_set (task_id (deref s r)) r (tasks s)\<rparr>)) (\<lambda>_.
     sbind sm_live_nodes (\<lambda>ns s.
       case pf (deref s r) ns of
         Inl e \<Rightarrow> (Inl e, s)
       | Inr (Some p) \<Rightarrow>
           sbind (smodify (update_task r
                    (\<lambda>t. t\<lparr>assigned_node := Some (pl_node_id p), task_state := T_RUNNING\<rparr>))) (\<lambda>_.
           sbind (sm_map_agents (\<lambda>a. sa_node_id a = pl_node_id p)
                    (\<lambda>a. a\<lparr>sa_assigned := sa_assigned a @ [task_id (deref s r)]\<rparr>)) (\<lambda>_.
             sret (Some (pl_node_id p)))) s
       | Inr None \<Rightarrow>
           sbind (smodify (update_task r (\<lambda>t. t\<lparr>task_state := T_PENDING\<rparr>))) (\<lambda>_.
             sret None) s))"

subsection \<open>Submission\<close>

fun sm_submit_refs :: "jm_env \<Rightarrow> ref list \<Rightarrow> (sim_manager, (ref \<times> string option) list) py" where
  "sm_submit_refs env [] = sret []"
| "sm_submit_refs env (r # rs) =
     sbind (sm_cluster_submit (e_place env) r) (\<lambda>nid.
     sbind (sm_submit_refs env rs) (\<lambda>rest. sret ((r, nid) # rest)))"

definition sm_start_job ::
  "jm_env \<Rightarrow> mesh_task \<Rightarrow> string \<Rightarrow> string \<Rightarrow> string list \<Rightarrow> ref \<Rightarrow> (sim_manager, string) py" where
  "sm_start_job env m jid tid uuids jr =
     (let base = to_spec m tid (Some jid) 0;
          specs = (if 1 < mt_replicas m then create_replica_specs base jid uuids else [base])
      in
        sbind (lift_manager (smodify (update_job jr (\<lambda>j. j\<lparr>task_ids := map task_id specs\<rparr>)))) (\<lambda>_.
        sbind (lift_manager (enter_specs jid specs)) (\<lambda>refs.
        sbind sm_live_nodes (\<lambda>ns.
        sbind (if 1 < mt_replicas m then lift_manager (assign_refs (e_place env) ns refs {})
               else sm_submit_refs env refs) (\<lambda>placements.
        sbind (lift_manager (smodify (update_job jr (\<lambda>j. j\<lparr>job_state := J_RUNNING\<rparr>)))) (\<lambda>_.
        sbind (lift_manager (persist_job jr)) (\<lambda>_.
        sbind (siter (\<lambda>(r, nid).
                 sbind (lift_manager (persist_task r)) (\<lambda>_.
                   case nid of Some (c # cs) \<Rightarrow> lift_manager (dispatch env r jr) | _ \<Rightarrow> sret ())) placements)
          (\<lambda>_. sret jid))))))))"

definition sm_submit_job ::
  "jm_env \<Rightarrow> mesh_task \<Rightarrow> string option \<Rightarrow> string \<Rightarrow> string \<Rightarrow> string list \<Rightarrow> (sim_manager, string) py" where
  "sm_submit_job env m idem jid tid uuids =
     sbind (smodify (\<lambda>s. s\<lparr>registry := dict_set (mt_name m) (mt_fn m) (registry s)\<rparr>)) (\<lambda>_ s.
       case known_job idem (job_manager.truncate s) of
         Some old \<Rightarrow> if dict_get (jobs s) old = None then (Inl KeyError, s) else (Inr old, s)
       | None \<Rightarrow>
           sbind (lift_manager (create_job jid (mt_name m) idem)) (sm_start_job env m jid tid uuids) s)"

subsection \<open>Deaths and preemptions\<close>

definition sm_reassign :: "jm_env \<Rightarrow> string \<Rightarrow> bool \<Rightarrow> (sim_manager, unit) py" where
  "sm_reassign env nid preempted s =
     (let orphaned = orphan_refs nid (job_manager.truncate s) in
      if orphaned = [] then (Inr (), s)
      else
        sbind sm_live_nodes (\<lambda>ns.
          let available = (if preempted then filter (\<lambda>n. node_id n \<noteq> nid) ns else ns)
          in lift_manager
               (sbind (steal_refs (e_place env) (filter (\<lambda>n. node_state n = HEALTHY) available) orphaned {})
                 (redispatch env))) s)"

definition sm_handle_preemption :: "jm_env \<Rightarrow> string \<Rightarrow> (sim_manager, unit) py" where
  "sm_handle_preemption env nid =
     sbind (lift_manager (pause_on env nid)) (\<lambda>ids.
     sbind (lift_manager (wait_others env ids)) (\<lambda>_.
       sm_reassign env nid True))"

definition sm_node_death :: "jm_env \<Rightarrow> string \<Rightarrow> (sim_manager, unit) py" where
  "sm_node_death env nid =
     sbind (sm_map_agents (\<lambda>a. sa_node_id a = nid) kill) (\<lambda>_.
     sbind (lift_manager (pause_on env nid)) (\<lambda>ids.
     sbind (lift_manager (wait_others env ids)) (\<lambda>_.
       sm_reassign env nid False)))"

definition sm_on_change :: "jm_env \<Rightarrow> string \<Rightarrow> node_state \<Rightarrow> node_state \<Rightarrow> (sim_manager, unit) py" where
  "sm_on_change env nid old new s =
     (let s1 = s\<lparr>state_changes := state_changes s @ [(sm_clock s, nid, old, new)]\<rparr>
      in if new = DEAD then sm_node_death env nid s1 else (Inr (), s1))"

subsection \<open>Speculation, rebalancing and cancellation\<close>

fun sm_speculate :: "jm_env \<Rightarrow> (ref \<Rightarrow> string) \<Rightarrow> ref list \<Rightarrow> (sim_manager, int) py" where
  "sm_speculate env uuid [] = sret 0"
| "sm_speculate env uuid (r # rs) = (\<lambda>s.
     case find_job_for_task (job_manager.truncate s) r of
       None \<Rightarrow> sm_speculate env uuid rs s
     | Some jr \<Rightarrow>
         if is_terminal (job_at (job_manager.truncate s) jr) then sm_speculate env uuid rs s
         else
           let spec = deref s r;
               dup = spec\<lparr>task_id := uuid r, replica_index := replica_index spec + 100,
                          task_state := T_PENDING, assigned_node := None\<rparr>
           in case alloc_task dup s of (d, s1) \<Rightarrow>
                sbind (sm_cluster_submit (e_place env) d) (\<lambda>nid.
                  case nid of
                    Some (c # cs) \<Rightarrow>
                      sbind (smodify (\<lambda>s. s\<lparr>speculator :=
                               mark_speculative (task_id spec) (uuid r) (speculator s)\<rparr>)) (\<lambda>_.
                      sbind (lift_manager (dispatch env d jr)) (\<lambda>_.
                      sbind (lift_manager (persist_task d)) (\<lambda>_.
                      sbind (sm_speculate env uuid rs) (\<lambda>n. sret (n + 1)))))
                  | _ \<Rightarrow> sm_speculate env uuid rs)
                  (s1\<lparr>tasks := dict_set (uuid r) d (tasks s1)\<rparr>))"

definition sm_check_speculation :: "jm_env \<Rightarrow> (ref \<Rightarrow> string) \<Rightarrow> (sim_manager, int) py" where
  "sm_check_speculation env uuid s =
     (let stragglers = find_stragglers (e_now env) (speculator s) (map (deref s) (dict_values (tasks s)))
      in sm_speculate env uuid (filter (\<lambda>r. deref s r \<in> set stragglers) (dict_values (tasks s))) s)"

definition sm_move :: "jm_env \<Rightarrow> rebalance_action \<Rightarrow> jm" where
  "sm_move env a s =
     (case dict_get (tasks s) (ra_task_id a) of
        None \<Rightarrow> (Inr (), s)
      | Some r \<Rightarrow>
          sbind (pause_task env r) (\<lambda>_.
          sbind (smodify (update_task r
                   (\<lambda>t. t\<lparr>assigned_node := Some (rebalance_action.to_node a), task_state := T_MIGRATING\<rparr>))) (\<lambda>_ s.
            case find_job_for_task s r of
              None \<Rightarrow> (Inr (), s)
            | Some jr \<Rightarrow> sbind (dispatch env r jr) (\<lambda>_. persist_task r) s)) s)"

definition sm_run_rebalance :: "jm_env \<Rightarrow> (sim_manager, int) py" where
  "sm_run_rebalance env =
     sbind sm_live_nodes (\<lambda>ns s.
       let actions = analyze (30 / 100) ns (map (deref s) (dict_values (tasks s)))
       in sbind (lift_manager (siter (sm_move env) actions)) (\<lambda>_. sret (int (length actions))) s)"

definition sm_cancel_job :: "jm_env \<Rightarrow> string \<Rightarrow> (sim_manager, unit) py" where
  "sm_cancel_job env jid = lift_manager (cancel_job env jid)"

subsection \<open>Ticks\<close>

text \<open>The actions of the chaos controller, and the submission of a task object of its own.\<close>

fun sm_perform :: "jm_env \<Rightarrow> sim_action \<Rightarrow> (sim_manager, unit) py" where
  "sm_perform env (KillNode nid) =
     sbind (sm_map_agents (\<lambda>a. sa_node_id a = nid) kill) (\<lambda>_.
       force_state [sm_on_change env] nid DEAD)"
| "sm_perform env (PreemptNode nid spike) =
     sm_map_agents (\<lambda>a. sa_node_id a = nid) (preempt_agent spike)"
| "sm_perform env (DrainBattery nid to_pct) =
     sm_map_agents (\<lambda>a. sa_node_id a = nid) (drain_battery to_pct)"
| "sm_perform env (Isolate x y) =
     sm_map_agents (\<lambda>a. sa_location a \<in> {x, y}) (\<lambda>a. a\<lparr>sa_partitioned := True\<rparr>)"
| "sm_perform env Heal = sm_map_agents (\<lambda>_. True) (\<lambda>a. a\<lparr>sa_partitioned := False\<rparr>)"
| "sm_perform env (SubmitTask t) =
     sbind (\<lambda>s. case alloc_task t s of (r, s1) \<Rightarrow> (Inr r, s1)) (\<lambda>r.
     sbind (sm_cluster_submit (e_place env) r) (\<lambda>_. sret ()))"

definition sm_run_due :: "jm_env \<Rightarrow> (sim_manager, unit) py" where
  "sm_run_due env s =
     siter (\<lambda>(time, a). sbind (smodify (\<lambda>s. s\<lparr>sm_events := tl (sm_events s)\<rparr>)) (\<lambda>_. sm_perform env a))
       (takeWhile (\<lambda>(time, a). time \<le> sm_clock s) (sm_events s)) s"

text \<open>The work of a tick, on the task objects one after the other.\<close>

definition sm_advance :: "real \<Rightarrow> ref \<Rightarrow> sim_manager \<Rightarrow> sim_manager" where
  "sm_advance now r s =
     (if task_state (deref s r) = T_RUNNING
      then
        let s1 = update_task r (advance_task (sm_tick s)) s
        in if task_checkpoint (deref s1 r)
           then s1\<lparr>checkpoints := snd (save_checkpoint (deref s1 r) None now (checkpoints s1))\<rparr>
           else s1
      else s)"

definition sm_work :: "real \<Rightarrow> sim_manager \<Rightarrow> sim_manager" where
  "sm_work now s =
     (let refs = dict_values (tasks s)
      in fold (\<lambda>r. update_task r complete_task) refs (fold (sm_advance now) refs s))"

definition sm_tick_once :: "jm_env \<Rightarrow> (sim_manager, unit) py" where
  "sm_tick_once env s =
     (let now = sm_clock s in
     sbind (sm_run_due env) (\<lambda>_.
     sbind (\<lambda>s. siter (\<lambda>a. sbind (registry_heartbeat [sm_on_change env] now (sa_node_id a)) (\<lambda>_. sret ()))
                  (filter sa_alive (sm_agents s)) s) (\<lambda>_.
     sbind (evaluate_all [sm_on_change env] now) (\<lambda>_.
       smodify (sm_work now)))) s)"

fun sm_run :: "nat \<Rightarrow> jm_env \<Rightarrow> real \<Rightarrow> sim_manager \<Rightarrow> (unit result \<times> sim_manager) option" where
  "sm_run 0 env until s = None"
| "sm_run (Suc n) env until s =
     (if sm_clock s < until
      then
        case sm_tick_once env s of
          (Inl e, s1) \<Rightarrow> Some (Inl e, s1)
        | (Inr _, s1) \<Rightarrow> sm_run n env until (s1\<lparr>sm_clock := sm_clock s1 + sm_tick s1\<rparr>)
      else Some (Inr (), s))"

subsection \<open>The entry points of the SDK\<close>

text \<open>
  The module's defaults, a cluster and its manager, are set and reset together, so they are one
  value; the registry of callables belongs to the process.
\<close>

record sdk =
  sdk_default :: "sim_manager option"
  sdk_registry :: "string dict"

definition get_cluster :: "nat \<Rightarrow> sdk \<Rightarrow> sim_manager \<times> sdk" where
  "get_cluster n sd =
     (case sdk_default sd of
        None \<Rightarrow>
          let s = new_sim_manager (sdk_registry sd) (map created_agent [0..<n]) 0
          in (s, sd\<lparr>sdk_default := Some s\<rparr>)
      | Some s \<Rightarrow> (s, sd))"

definition get_manager :: "sdk \<Rightarrow> sim_manager \<times> sdk" where
  "get_manager sd = get_cluster 10 sd"

definition reset_defaults :: "sdk \<Rightarrow> sdk" where
  "reset_defaults sd = sd\<lparr>sdk_default := None\<rparr>"

text \<open>
  What may be submitted: a task object, or a callable with or without the attribute the
  decorator sets.
\<close>

datatype submitted = Task mesh_task | Callable "mesh_task option"

fun task_of :: "submitted \<Rightarrow> mesh_task result" where
  "task_of (Task m) = Inr m"
| "task_of (Callable (Some m)) = Inr m"
| "task_of (Callable None) = Inl TypeError"

definition manager_submit ::
  "jm_env \<Rightarrow> submitted \<Rightarrow> string option \<Rightarrow> string \<Rightarrow> string \<Rightarrow> string list \<Rightarrow> (sim_manager, string) py" where
  "manager_submit env x idem jid tid uuids =
     sbind (slift (task_of x)) (\<lambda>m. sm_submit_job env m idem jid tid uuids)"

text \<open>
  \<^verbatim>\<open>submit\<close> up to the point where it waits, with the manager it submitted to.  The global registry
  is where that manager registers.
\<close>

definition sdk_submit ::
  "jm_env \<Rightarrow> submitted \<Rightarrow> string option \<Rightarrow> sim_manager option \<Rightarrow> string \<Rightarrow> string \<Rightarrow> string list
     \<Rightarrow> sdk \<Rightarrow> string result \<times> sim_manager \<times> sdk" where
  "sdk_submit env x idem given jid tid uuids sd =
     (case given of
        Some c \<Rightarrow>
          (case manager_submit env x idem jid tid uuids (attach_manager (sdk_registry sd) c) of
             (r, s) \<Rightarrow> (r, s, sd\<lparr>sdk_registry := registry s\<rparr>))
      | None \<Rightarrow>
          (case get_manager sd of (s0, sd1) \<Rightarrow>
             case manager_submit env x idem jid tid uuids (s0\<lparr>registry := sdk_registry sd1\<rparr>) of
               (r, s) \<Rightarrow> (r, s, sd1\<lparr>sdk_default := Some s, sdk_registry := registry s\<rparr>)))"

subsection \<open>Lifted steps\<close>

lemma lift_simps [simp]:
  "job_manager.truncate (job_manager.extend m x) = m"
  "job_manager.more (job_manager.extend m x) = x"
  by (simp_all add: job_manager.truncate_def job_manager.extend_def)

lemma truncate_reads [simp]:
  "tasks (job_manager.truncate s) = tasks s" "task_heap (job_manager.truncate s) = task_heap s"
  "remote_agents (job_manager.truncate s) = remote_agents s" "jobs (job_manager.truncate s) = jobs s"
  "job_heap (job_manager.truncate s) = job_heap s" "job_tasks (job_manager.truncate s) = job_tasks s"
  "running (job_manager.truncate s) = running s" "thread_log (job_manager.truncate s) = thread_log s"
  "deref (job_manager.truncate s) r = deref s r" "idempotency (job_manager.truncate s) = idempotency s"
  by (simp_all add: job_manager.truncate_def deref_def)

lemma truncate_updates [simp]:
  "job_manager.truncate (s\<lparr>tasks := t\<rparr>) = (job_manager.truncate s)\<lparr>tasks := t\<rparr>"
  "job_manager.truncate (s\<lparr>states := t'\<rparr>) = (job_manager.truncate s)\<lparr>states := t'\<rparr>"
  "job_manager.truncate (s\<lparr>registry := g\<rparr>) = (job_manager.truncate s)\<lparr>registry := g\<rparr>"
  "job_manager.truncate (s\<lparr>task_heap := h\<rparr>) = (job_manager.truncate s)\<lparr>task_heap := h\<rparr>"
  "job_manager.truncate (s\<lparr>sm_agents := as\<rparr>) = job_manager.truncate s"
  "job_manager.truncate (update_task r f s) = update_task r f (job_manager.truncate s)"
  by (simp_all add: job_manager.truncate_def update_task_def)

lemma lift_manager_result: "fst (lift_manager f s) = fst (f (job_manager.truncate s))"
  and lift_manager_state: "job_manager.truncate (snd (lift_manager f s)) = snd (f (job_manager.truncate s))"
  by (simp_all add: lift_manager_def split: prod.split)

lemma lift_manager_eq:
  "lift_manager f s = (r, s') \<Longrightarrow> f (job_manager.truncate s) = (r, job_manager.truncate s')"
  using lift_manager_result [of f s] lift_manager_state [of f s] by (metis fst_conv prod.collapse snd_conv)

lemma agents_live_states: "\<exists>sts. snd (agents_live now as s) = s\<lparr>states := sts\<rparr>"
proof (induction as arbitrary: s)
  case Nil
  have "s = s\<lparr>states := states s\<rparr>" by simp
  then show ?case by (metis agents_live.simps(1) snd_conv)
next
  case (Cons a as)
  obtain st s1 where ev: "evaluate now (sa_node_id a) s = (st, s1)" by fastforce
  then have "\<exists>sts. s1 = s\<lparr>states := sts\<rparr>"
    by (auto simp: evaluate_def split: if_splits intro: exI [of _ "states s"])
  then show ?case
    using Cons.IH [of s] Cons.IH [of s1] ev
    by (auto simp: registry_state_def split: prod.split)
qed

lemma sm_live_nodesE:
  assumes "sm_live_nodes s = (res, s')"
  obtains ns sts where "res = Inr ns" and "s' = s\<lparr>states := sts\<rparr>"
  using agents_live_states [of "sm_clock s" "sm_agents s" s] assms
  unfolding sm_live_nodes_def by (auto split: prod.splits)

subsection \<open>A submitted task is run and answered\<close>

definition after_placement :: "string option \<Rightarrow> task_spec \<Rightarrow> task_spec" where
  "after_placement nid =
     (case nid of
        None \<Rightarrow> (\<lambda>t. t\<lparr>task_state := T_PENDING\<rparr>)
      | Some n \<Rightarrow> (\<lambda>t. t\<lparr>assigned_node := Some n, task_state := T_RUNNING\<rparr>))"

lemma cluster_submit_manager:
  assumes "sm_cluster_submit pf r s = (Inr nid, s1)"
  shows "\<exists>sts. job_manager.truncate s1 = update_task r (after_placement nid)
    ((job_manager.truncate s)\<lparr>tasks := dict_set (task_id (deref s r)) r (tasks s), states := sts\<rparr>)"
proof -
  let ?s1 = "s\<lparr>tasks := dict_set (task_id (deref s r)) r (tasks s)\<rparr>"
  obtain res s2 where "sm_live_nodes ?s1 = (res, s2)"
    by fastforce
  moreover from this obtain ns sts where "res = Inr ns" "s2 = ?s1\<lparr>states := sts\<rparr>"
    by (rule sm_live_nodesE)
  ultimately have live: "sm_live_nodes ?s1 = (Inr ns, ?s1\<lparr>states := sts\<rparr>)"
    by simp
  show ?thesis
  proof (cases "pf (deref (?s1\<lparr>states := sts\<rparr>) r) ns")
    case (Inl e)
    then show ?thesis
      using assms live by (simp add: sm_cluster_submit_def sbind_def)
  next
    case (Inr pl)
    show ?thesis
    proof (cases pl)
      case None
      then show ?thesis
        using assms live Inr
        by (auto simp: sm_cluster_submit_def sbind_def after_placement_def intro!: exI [of _ sts])
    next
      case (Some p)
      then show ?thesis
        using assms live Inr
        by (auto simp: sm_cluster_submit_def sbind_def after_placement_def sm_map_agents_def
            intro!: exI [of _ sts])
    qed
  qed
qed

text \<open>What the manager holds of a job of one task from its entry to the dispatch of the task.\<close>

definition single_job :: "mesh_task \<Rightarrow> string \<Rightarrow> string \<Rightarrow> ref \<Rightarrow> ref \<Rightarrow> ref list \<Rightarrow> job_manager \<Rightarrow> bool" where
  "single_job m jid tid jr r ths s \<longleftrightarrow>
     jr < length (job_heap s) \<and> r < length (task_heap s) \<and> job_id (job_at s jr) = jid
     \<and> specs_of jid s = [r] \<and> remote_agents s = [] \<and> task_id (deref s r) = tid
     \<and> task_fn (deref s r) = Some (mt_fn m) \<and> dict_get (running s) tid = None \<and> thread_log s = ths"

lemma to_spec_reads [simp]:
  "task_id (to_spec m tid jid i) = tid" "task_fn (to_spec m tid jid i) = Some (mt_fn m)"
  "assigned_node (to_spec m tid jid i) = None"
  by (simp_all add: to_spec_def new_task_spec_def)

lemma single_job_keeps:
  assumes "single_job m jid tid jr r ths s"
  shows "single_job m jid tid jr r ths (s\<lparr>states := sts\<rparr>)"
    and "single_job m jid tid jr r ths (s\<lparr>tasks := tks\<rparr>)"
    and "single_job m jid tid jr r ths (s\<lparr>speculator := sp\<rparr>)"
    and "single_job m jid tid jr r ths (update_task r (after_placement nid) s)"
    and "single_job m jid tid jr r ths (update_job jr (\<lambda>j. j\<lparr>job_state := st\<rparr>) s)"
    and "single_job m jid tid jr r ths (write_store f s)"
  using assms
  by (auto simp: single_job_def specs_of_def job_at_def deref_def update_task_def update_job_def
      after_placement_def write_store_def split: option.split)

lemma enter_single:
  assumes "enter_specs jid [to_spec m tid (Some jid) 0] (update_job jr (\<lambda>j. j\<lparr>task_ids := ids\<rparr>) s) = (Inr refs, s')"
    and "jr < length (job_heap s)" and "job_id (job_at s jr) = jid" and "remote_agents s = []"
    and "dict_get (running s) tid = None"
  shows "refs = [length (task_heap s)] \<and> single_job m jid tid jr (length (task_heap s)) (thread_log s) s'
    \<and> assigned_node (deref s' (length (task_heap s))) = None"
  using assms
  by (auto simp: enter_specs_def Let_def single_job_def specs_of_def job_at_def deref_def update_job_def
      dict_get_default_def nth_append)

lemma dispatch_single:
  assumes "single_job m jid tid jr r ths s" and "dispatch env r jr s = (Inr u, s')"
  shows "job_heap s' = job_heap s \<and> job_tasks s' = job_tasks s \<and> task_heap s' = task_heap s
    \<and> remote_agents s' = remote_agents s \<and> thread_log s' = ths @ [r]"
  using assms
  by (auto simp: dispatch_def bind_smodify single_job_def deref_def start_local_execution_def
      is_remote_def Let_def split: option.splits list.splits if_splits)

lemma start_steps:
  assumes "sm_start_job env m jid tid uuids jr s = (Inr j, s1)" and "mt_replicas m \<le> 1"
  obtains refs sa sb sc ns sd pls se sf sg u v w x where
    "lift_manager (smodify (update_job jr (\<lambda>j. j\<lparr>task_ids := [tid]\<rparr>))) s = (Inr u, sa)"
    and "lift_manager (enter_specs jid [to_spec m tid (Some jid) 0]) sa = (Inr refs, sb)"
    and "sm_live_nodes sb = (Inr ns, sc)" and "sm_submit_refs env refs sc = (Inr pls, sd)"
    and "lift_manager (smodify (update_job jr (\<lambda>j. j\<lparr>job_state := J_RUNNING\<rparr>))) sd = (Inr v, se)"
    and "lift_manager (persist_job jr) se = (Inr w, sf)"
    and "siter (\<lambda>(r, nid). sbind (lift_manager (persist_task r)) (\<lambda>_.
           case nid of Some (c # cs) \<Rightarrow> lift_manager (dispatch env r jr) | _ \<Rightarrow> sret ())) pls sf = (Inr x, sg)"
    and "sret jid sg = (Inr j, s1)"
proof -
  have one: "\<not> 1 < mt_replicas m"
    using assms(2) by simp
  note start = assms(1) [unfolded sm_start_job_def Let_def if_not_P [OF one] list.map to_spec_reads]
  show thesis
    using start by (elim sbind_InrE) (rule that)
qed

definition running_job :: "string \<Rightarrow> ref \<Rightarrow> ref \<Rightarrow> job_manager \<Rightarrow> bool" where
  "running_job jid jr r s \<longleftrightarrow>
     jr < length (job_heap s) \<and> job_id (job_at s jr) = jid \<and> job_state (job_at s jr) = J_RUNNING
     \<and> specs_of jid s = [r] \<and> remote_agents s = []"

definition placed :: "task_spec \<Rightarrow> bool" where
  "placed t \<longleftrightarrow> assigned_node t \<noteq> None \<and> assigned_node t \<noteq> Some []"

lemma start_single:
  assumes "sm_start_job env m jid tid uuids jr s = (Inr j, s1)" and "mt_replicas m \<le> 1"
    and "jr < length (job_heap s)" and "job_id (job_heap s ! jr) = jid" and "remote_agents s = []"
    and "dict_get (running s) tid = None"
  defines "r \<equiv> length (task_heap s)"
  shows "j = jid \<and> running_job jid jr r (job_manager.truncate s1)
    \<and> task_fn (deref s1 r) = Some (mt_fn m)
    \<and> thread_log s1 = thread_log s @ (if placed (deref s1 r) then [r] else [])"
proof -
  let ?T = job_manager.truncate
  from assms(1,2) obtain refs sa sb sc ns sd pls se sf sg u v w x where
    a: "lift_manager (smodify (update_job jr (\<lambda>j. j\<lparr>task_ids := [tid]\<rparr>))) s = (Inr u, sa)"
    and b: "lift_manager (enter_specs jid [to_spec m tid (Some jid) 0]) sa = (Inr refs, sb)"
    and c: "sm_live_nodes sb = (Inr ns, sc)" and d: "sm_submit_refs env refs sc = (Inr pls, sd)"
    and e: "lift_manager (smodify (update_job jr (\<lambda>j. j\<lparr>job_state := J_RUNNING\<rparr>))) sd = (Inr v, se)"
    and f: "lift_manager (persist_job jr) se = (Inr w, sf)"
    and g: "siter (\<lambda>(r, nid). sbind (lift_manager (persist_task r)) (\<lambda>_.
           case nid of Some (c # cs) \<Rightarrow> lift_manager (dispatch env r jr) | _ \<Rightarrow> sret ())) pls sf = (Inr x, sg)"
    and h: "sret jid sg = (Inr j, s1)"
    by (rule start_steps)
  let ?inv = "single_job m jid tid jr r (thread_log s)"
  have "enter_specs jid [to_spec m tid (Some jid) 0] (update_job jr (\<lambda>j. j\<lparr>task_ids := [tid]\<rparr>) (?T s))
      = (Inr refs, ?T sb)"
    using lift_manager_eq [OF a] lift_manager_eq [OF b] by simp
  from enter_single [OF this] have refs: "refs = [r]" and B: "?inv (?T sb)" and none: "assigned_node (deref sb r) = None"
    using assms(3-6) by (simp_all add: r_def job_at_def)
  from c obtain sts where sc: "sc = sb\<lparr>states := sts\<rparr>"
    by (rule sm_live_nodesE)
  from d refs obtain nid where sub: "sm_cluster_submit (e_place env) r sc = (Inr nid, sd)" and pls: "pls = [(r, nid)]"
    by (auto elim!: sbind_InrE)
  obtain sts' where sd: "?T sd = update_task r (after_placement nid)
      ((?T sc)\<lparr>tasks := dict_set (task_id (deref sc r)) r (tasks sc), states := sts'\<rparr>)"
    using cluster_submit_manager [OF sub] by blast
  have D: "?inv (?T sd)"
    unfolding sd sc truncate_updates by (intro single_job_keeps B)
  have "r < length (task_heap sb)"
    using B by (simp add: single_job_def)
  then have place: "assigned_node (deref (?T sd) r) = nid"
    using none unfolding sd sc
    by (cases nid) (simp_all add: deref_def update_task_def after_placement_def)
  have se: "?T se = update_job jr (\<lambda>j. j\<lparr>job_state := J_RUNNING\<rparr>) (?T sd)"
    using lift_manager_eq [OF e] by simp
  have sf: "?T sf = snd (persist_job jr (?T se))"
    using lift_manager_eq [OF f] by simp
  have F: "?inv (?T sf)"
    unfolding sf se persist_job_def smodify_apply snd_conv by (intro single_job_keeps D)
  have "running_job jid jr r (?T sf) \<and> task_heap (?T sf) = task_heap (?T sd)"
    using F D unfolding sf se persist_job_def
    by (auto simp: single_job_def running_job_def job_at_def update_job_def write_store_def split: option.split)
  note F = F conjunct1 [OF this] conjunct2 [OF this]
  from g obtain y sp where p: "lift_manager (persist_task r) sf = (Inr y, sp)"
    and q: "(case nid of Some (c # cs) \<Rightarrow> lift_manager (dispatch env r jr) | _ \<Rightarrow> sret ()) sp = (Inr x, sg)"
    unfolding pls by (auto elim!: sbind_InrE)
  have sp: "?T sp = snd (persist_task r (?T sf))"
    using lift_manager_eq [OF p] by simp
  have P1: "?inv (?T sp)"
    unfolding sp persist_task_def smodify_apply snd_conv by (intro single_job_keeps F(1))
  have "running_job jid jr r (?T sp) \<and> task_heap (?T sp) = task_heap (?T sd)"
    using F(2,3) unfolding sp persist_task_def
    by (auto simp: running_job_def job_at_def specs_of_def write_store_def split: option.split)
  note P = P1 conjunct1 [OF this] conjunct2 [OF this]
  have s1: "s1 = sg" "j = jid"
    using h by auto
  show ?thesis
  proof (cases "nid = None \<or> nid = Some []")
    case True
    then have "sg = sp"
      using q by auto
    then show ?thesis
      using True P place by (auto simp: s1 placed_def single_job_def deref_def)
  next
    case False
    then obtain c cs where "nid = Some (c # cs)"
      by (metis list.exhaust option.exhaust)
    then have "dispatch env r jr (?T sp) = (Inr x, ?T sg)"
      using q lift_manager_eq by auto
    from dispatch_single [OF P(1) this] show ?thesis
      using False P place by (auto simp: s1 placed_def single_job_def deref_def running_job_def job_at_def specs_of_def)
  qed
qed

text \<open>How the thread of the task leaves the job.\<close>

lemma start_ctx_checkpoints:
  "start_ctx spec x = start_ctx spec \<lparr>exec_checkpoints = exec_checkpoints x, exec_interrupts = []\<rparr>"
  by (simp add: start_ctx_def)

lemma clear_interrupt_checkpoints [simp]: "exec_checkpoints (clear_interrupt tid x) = exec_checkpoints x"
  by (simp add: clear_interrupt_def split: option.split)

lemma execute_of_run:
  assumes "run_callable clock is_set fn (start_ctx spec \<lparr>exec_checkpoints = exec_checkpoints x, exec_interrupts = []\<rparr>) = (out, c)"
  shows "out = Returned v \<Longrightarrow> \<exists>spec' x'. execute clock is_set fn spec x = (Inr v, spec', x') \<and> task_state spec' = T_COMPLETED"
    and "out = Raised e \<Longrightarrow> \<exists>spec' x'. execute clock is_set fn spec x = (Inl e, spec', x')"
  using assms start_ctx_checkpoints [of spec x]
  by (simp_all add: execute_def Let_def finish_spec_def)

definition fresh_ctx :: "job_manager \<Rightarrow> ref \<Rightarrow> task_ctx" where
  "fresh_ctx s r = start_ctx (deref s r) \<lparr>exec_checkpoints = checkpoints s, exec_interrupts = []\<rparr>"

lemma run_local_answers:
  assumes "running_job jid jr r s" and "run_callable clock is_set fn (fresh_ctx s r) = (out, c)"
  shows "out = Returned v \<Longrightarrow> \<exists>s2. run_local env clock is_set fn r jr s = (Inr (), s2)
      \<and> job_state (job_at s2 jr) = J_COMPLETED \<and> job_result (job_at s2 jr) = v"
    and "out = Raised e \<Longrightarrow> \<exists>s2. run_local env clock is_set fn r jr s = (Inr (), s2)
      \<and> job_state (job_at s2 jr) = J_FAILED \<and> job_error (job_at s2 jr) = Some (e_message env e)"
proof -
  let ?x = "clear_interrupt (task_id (deref s r)) \<lparr>exec_checkpoints = checkpoints s, exec_interrupts = interrupts s\<rparr>"
  have run: "run_callable clock is_set fn (start_ctx (deref s r)
      \<lparr>exec_checkpoints = exec_checkpoints ?x, exec_interrupts = []\<rparr>) = (out, c)"
    using assms(2) by (simp add: fresh_ctx_def)
  have job: "jr < length (job_heap s)" "length (specs_of (job_id (job_at s jr)) s) \<le> 1"
    using assms(1) by (simp_all add: running_job_def)
  let ?after = "\<lambda>spec' x'. update_task r (\<lambda>_. spec') (s\<lparr>checkpoints := exec_checkpoints x', interrupts := exec_interrupts x'\<rparr>)"
  have kept: "jr < length (job_heap (?after spec' x'))"
    "length (specs_of (job_id (job_at (?after spec' x') jr)) (?after spec' x')) \<le> 1" for spec' x'
    using job by (simp_all add: update_task_def specs_of_def job_at_def)
  show "\<exists>s2. run_local env clock is_set fn r jr s = (Inr (), s2)
      \<and> job_state (job_at s2 jr) = J_COMPLETED \<and> job_result (job_at s2 jr) = v" if ended: "out = Returned v"
  proof -
    obtain spec' x' where ex: "execute clock is_set fn (deref s r) ?x = (Inr v, spec', x')" "task_state spec' = T_COMPLETED"
      using execute_of_run(1) [OF run ended] by blast
    obtain s2 where "on_task_complete env r jr v (?after spec' x') = (Inr (), s2)"
      "job_state (job_at s2 jr) = J_COMPLETED" "job_result (job_at s2 jr) = v"
      using completion_result [OF kept] by blast
    then show ?thesis
      using ex by (simp add: run_local_def Let_def pop_running_def job_at_def)
  qed
  show "\<exists>s2. run_local env clock is_set fn r jr s = (Inr (), s2)
      \<and> job_state (job_at s2 jr) = J_FAILED \<and> job_error (job_at s2 jr) = Some (e_message env e)" if ended: "out = Raised e"
  proof -
    obtain spec' x' where ex: "execute clock is_set fn (deref s r) ?x = (Inl e, spec', x')"
      using execute_of_run(2) [OF run ended] by blast
    let ?failed = "update_task r (\<lambda>t. t\<lparr>task_state := T_FAILED\<rparr>) (?after spec' x')"
    have "jr < length (job_heap ?failed)" "length (specs_of (job_id (job_at ?failed jr)) ?failed) \<le> 1"
      using job by (simp_all add: update_task_def specs_of_def job_at_def)
    then obtain s2 where "on_task_failed r jr (e_message env e) ?failed = (Inr (), s2)"
      "job_state (job_at s2 jr) = J_FAILED" "job_error (job_at s2 jr) = Some (e_message env e)"
      using failure_result by blast
    then show ?thesis
      using ex by (simp add: run_local_def Let_def pop_running_def job_at_def)
  qed
qed

subsection \<open>No agent of a simulated cluster is remote\<close>

interpretation simulated: jm_frame_tasks "\<lambda>_ _ s. remote_agents s = []"
  by unfold_locales (auto simp: update_task_def update_job_def write_store_def split: option.split)

abbreviation local_only :: "sim_manager \<Rightarrow> bool" where
  "local_only s \<equiv> remote_agents s = []"

lemmas local_bind = sbind_keeps [where P = local_only]

lemma lift_manager_local:
  assumes "remote_agents (snd (f (job_manager.truncate s))) = []"
  shows "local_only (snd (lift_manager f s))"
  using assms lift_manager_state [of f s] by (metis truncate_reads(3))

lemma live_local: "local_only s \<Longrightarrow> local_only (snd (sm_live_nodes s))"
  by (cases "sm_live_nodes s") (auto elim: sm_live_nodesE)

lemma cluster_submit_local:
  assumes "local_only s"
  shows "local_only (snd (sm_cluster_submit pf r s))"
proof -
  have place: "local_only (snd (case pf (deref s r) ns of
         Inl e \<Rightarrow> (Inl e, s)
       | Inr (Some p) \<Rightarrow>
           sbind (smodify (update_task r
                    (\<lambda>t. t\<lparr>assigned_node := Some (pl_node_id p), task_state := T_RUNNING\<rparr>))) (\<lambda>_.
           sbind (sm_map_agents (\<lambda>a. sa_node_id a = pl_node_id p)
                    (\<lambda>a. a\<lparr>sa_assigned := sa_assigned a @ [task_id (deref s r)]\<rparr>)) (\<lambda>_.
             sret (Some (pl_node_id p)))) s
       | Inr None \<Rightarrow>
           sbind (smodify (update_task r (\<lambda>t. t\<lparr>task_state := T_PENDING\<rparr>))) (\<lambda>_.
             sret None) s))" if "local_only s" for ns and s :: sim_manager
    using that
    by (simp add: bind_smodify sm_map_agents_def update_task_def split: sum.split option.split)
  show ?thesis
    unfolding sm_cluster_submit_def
    by (rule local_bind [OF assms], simp, rule local_bind, assumption, erule live_local, erule place)
qed

lemma submit_refs_local: "local_only s \<Longrightarrow> local_only (snd (sm_submit_refs env rs s))"
proof (induction rs arbitrary: s)
  case (Cons r rs)
  show ?case
    unfolding sm_submit_refs.simps
    by (rule local_bind [OF Cons.prems], erule cluster_submit_local, rule local_bind, assumption, erule Cons.IH)
      simp
qed simp

lemma lift_local:
  assumes "\<And>s. remote_agents s = [] \<Longrightarrow> remote_agents (snd (f s)) = []" and "local_only s"
  shows "local_only (snd (lift_manager f s))"
  by (rule lift_manager_local) (simp add: assms)

lemma enter_local: "remote_agents (snd (enter_specs jid specs s)) = remote_agents s"
  by (simp add: enter_specs_def Let_def)

lemma start_job_local:
  assumes "local_only s"
  shows "local_only (snd (sm_start_job env m jid tid uuids jr s))"
proof -
  have disp: "local_only (snd (siter (\<lambda>(r, nid). sbind (lift_manager (persist_task r)) (\<lambda>_.
      case nid of Some (c # cs) \<Rightarrow> lift_manager (dispatch env r jr) | _ \<Rightarrow> sret ())) ps s))"
    if "local_only s" for ps :: "(ref \<times> string option) list" and s
  proof (rule siter_keeps [where P = local_only, OF that])
    fix x :: "ref \<times> string option" and s :: sim_manager
    assume s: "local_only s"
    obtain r nid where x: "x = (r, nid)" by (cases x)
    have sent: "local_only (snd ((case nid of Some (c # cs) \<Rightarrow> lift_manager (dispatch env r jr) | _ \<Rightarrow> sret ()) s))"
      if "local_only s" for s
    proof -
      have "local_only (snd (lift_manager (dispatch env r jr) s))"
        using that by (rule lift_local [rotated]) (rule simulated.dispatch_P [where R = UNIV and J = UNIV]; simp)
      then show ?thesis
        using that by (simp split: option.split list.split)
    qed
    show "local_only (snd ((case x of (r, nid) \<Rightarrow> sbind (lift_manager (persist_task r)) (\<lambda>_.
      case nid of Some (c # cs) \<Rightarrow> lift_manager (dispatch env r jr) | _ \<Rightarrow> sret ())) s))"
      unfolding x prod.case
    proof (rule local_bind [OF s])
      show "local_only (snd (lift_manager (persist_task r) s))" if "local_only s" for s
        using that by (rule lift_local [rotated]) (rule simulated.persist_P)
    qed (rule sent)
  qed
  have updated: "local_only (snd (lift_manager (smodify (update_job jr g)) s))" if "local_only s" for g s
    using that by (rule lift_local [rotated]) (simp add: update_job_def)
  have entered: "local_only (snd (lift_manager (enter_specs jid ts) s))" if "local_only s" for ts s
    using that by (rule lift_local [rotated]) (simp add: enter_local)
  have assigned: "local_only (snd (if b then lift_manager (assign_refs pf ns rs {}) s else sm_submit_refs env rs s))"
    if "local_only s" for b pf ns rs s
    using that lift_local [OF simulated.assign_refs_P that] by (simp add: submit_refs_local)
  have stored: "local_only (snd (lift_manager (persist_job jr) s))" if "local_only s" for s
    using that by (rule lift_local [rotated]) (rule simulated.persist_P)
  show ?thesis
    unfolding sm_start_job_def Let_def
    apply (rule local_bind [OF assms updated], assumption)
    apply (rule local_bind [OF _ entered], assumption, assumption)
    apply (rule local_bind [OF _ live_local], assumption, assumption)
    apply (rule local_bind, assumption)
     apply (simp add: submit_refs_local lift_local [OF simulated.assign_refs_P])
    apply (rule local_bind [OF _ updated], assumption, assumption)
    apply (rule local_bind [OF _ stored], assumption, assumption)
    apply (rule local_bind [OF _ disp], assumption, assumption)
    apply simp
    done
qed

lemma submit_job_local:
  assumes "local_only s"
  shows "local_only (snd (sm_submit_job env m idem jid tid uuids s))"
proof -
  have create: "remote_agents (snd (create_job jid name idem m)) = []" if "remote_agents m = []"
    for name and m :: job_manager
    using that by (simp add: create_job_def alloc_job_def Let_def split: option.split list.split)
  have created: "local_only (snd (lift_manager (create_job jid name idem) s))" if "local_only s" for name s
    using that by (rule lift_local [rotated]) (rule create)
  have "local_only (snd (sbind (lift_manager (create_job jid (mt_name m) idem))
      (sm_start_job env m jid tid uuids) s))" if "local_only s" for s
    by (rule local_bind [OF that], erule created, erule start_job_local)
  then show ?thesis
    using assms by (auto simp: sm_submit_job_def bind_smodify split: option.split)
qed

lemma created_job:
  assumes "create_job jid name idem m = (Inr jr, m')"
  shows "jr = length (job_heap m) \<and> job_heap m' = job_heap m @ [new_job jid name idem]
    \<and> remote_agents m' = remote_agents m \<and> running m' = running m \<and> task_heap m' = task_heap m
    \<and> thread_log m' = thread_log m"
  using assms by (auto simp: create_job_def alloc_job_def Let_def split: option.splits list.splits)

lemma submit_single:
  assumes "sm_submit_job env m idem jid tid uuids s = (Inr j, s1)"
    and "known_job idem (job_manager.truncate s) = None" and "mt_replicas m \<le> 1" and "local_only s"
    and "dict_get (running s) tid = None"
  defines "r \<equiv> length (task_heap s)"
  shows "j = jid \<and> running_job jid (length (job_heap s)) r (job_manager.truncate s1)
    \<and> task_fn (deref s1 r) = Some (mt_fn m)
    \<and> thread_log s1 = thread_log s @ (if placed (deref s1 r) then [r] else [])"
proof -
  let ?s = "s\<lparr>registry := dict_set (mt_name m) (mt_fn m) (registry s)\<rparr>"
  have "known_job idem (job_manager.truncate ?s) = None"
    using assms(2) by (simp add: known_job_def split: option.splits list.splits)
  then obtain jr s2 where create: "lift_manager (create_job jid (mt_name m) idem) ?s = (Inr jr, s2)"
    and start: "sm_start_job env m jid tid uuids jr s2 = (Inr j, s1)"
    using assms(1) by (auto simp: sm_submit_job_def bind_smodify elim!: sbind_InrE)
  have made: "jr = length (job_heap s)" "jr < length (job_heap s2)" "job_id (job_heap s2 ! jr) = jid"
    "local_only s2" "running s2 = running s" "task_heap s2 = task_heap s" "thread_log s2 = thread_log s"
    using created_job [OF lift_manager_eq [OF create]] assms(4)
    by (simp_all add: new_job_def)
  show ?thesis
    using start_single [OF start assms(3) made(2,3,4)] assms(5) made by (simp add: r_def)
qed

subsection \<open>The entry points\<close>

definition sdk_ok :: "sdk \<Rightarrow> bool" where
  "sdk_ok sd \<longleftrightarrow> (case sdk_default sd of None \<Rightarrow> True | Some s \<Rightarrow> local_only s)"

lemma new_local: "local_only (new_sim_manager reg agents start)"
proof -
  have "remote_agents (fold (\<lambda>a. tracker_register start (sa_node_id a)) agents s) = remote_agents s" for s :: sim_manager
    by (induction agents arbitrary: s) (simp_all add: tracker_register_def)
  then show ?thesis
    by (simp add: new_sim_manager_def job_manager.extend_def new_manager_def cluster.extend_def new_cluster_def tracker.extend_def new_tracker_def)
qed

lemma get_manager_ok:
  assumes "sdk_ok sd" and "get_manager sd = (s, sd1)"
  shows "local_only s \<and> sdk_ok sd1"
  using assms new_local
  by (auto simp: sdk_ok_def get_manager_def get_cluster_def Let_def split: option.splits)

lemma manager_submit_local: "local_only s \<Longrightarrow> local_only (snd (manager_submit env x idem jid tid uuids s))"
  by (cases "task_of x") (simp_all add: manager_submit_def sbind_def submit_job_local)

lemma sdk_submit_ok:
  assumes "sdk_ok sd" and "sdk_submit env x idem given jid tid uuids sd = (res, s, sd')"
    and "\<And>c. given = Some c \<Longrightarrow> local_only c"
  shows "local_only s \<and> sdk_ok sd'"
proof (cases given)
  case None
  obtain s0 sd1 where m: "get_manager sd = (s0, sd1)"
    by fastforce
  from get_manager_ok [OF assms(1) m] show ?thesis
    using assms(2) None m manager_submit_local [of "s0\<lparr>registry := sdk_registry sd1\<rparr>" env x idem jid tid uuids]
    by (auto simp: sdk_submit_def sdk_ok_def split: prod.splits)
next
  case (Some c)
  then show ?thesis
    using assms manager_submit_local [of "attach_manager (sdk_registry sd) c" env x idem jid tid uuids]
    by (auto simp: sdk_submit_def sdk_ok_def attach_manager_def split: prod.splits)
qed

text \<open>A manager that is made for a given cluster knows no key of an earlier submission.\<close>

lemma given_cluster_knows_no_key: "known_job idem (job_manager.truncate (attach_manager reg c)) = None"
  by (simp add: known_job_def attach_manager_def split: option.split list.split)

text \<open>What the caller of a task is given: its value, or the text of its exception.\<close>

fun call_answer :: "jm_env \<Rightarrow> outcome \<Rightarrow> pyval result option" where
  "call_answer env (Returned v) = Some (Inr v)"
| "call_answer env (Raised e) =
     Some (Inl (RuntimeError (if e_message env e = [] then ''Job failed'' else e_message env e)))"
| "call_answer env Interrupted = None"

lemma run_answers:
  assumes "running_job jid jr r (job_manager.truncate s)"
    and "run_callable clock is_set fn (fresh_ctx (job_manager.truncate s) r) = (out, c)"
    and "call_answer env out = Some answer"
  shows "\<exists>s2. lift_manager (run_local env clock is_set fn r jr) s = (Inr (), s2)
    \<and> wait_for_job deadline ((Some (job_at (job_manager.truncate s2) jr), now) # obs) = Some answer"
proof -
  note answers = run_local_answers [OF assms(1,2), where env = env]
  obtain m2 where m2: "run_local env clock is_set fn r jr (job_manager.truncate s) = (Inr (), m2)"
    and ended: "is_terminal (job_at m2 jr)" "job_outcome (job_at m2 jr) = answer"
  proof (cases out)
    case (Returned v)
    with answers(1) that assms(3) show ?thesis
      by (fastforce simp: is_terminal_def job_outcome_def)
  next
    case (Raised e)
    with answers(2) obtain m2 where "run_local env clock is_set fn r jr (job_manager.truncate s) = (Inr (), m2)"
      "job_state (job_at m2 jr) = J_FAILED" "job_error (job_at m2 jr) = Some (e_message env e)"
      by blast
    with Raised that assms(3) show ?thesis
      by (cases "e_message env e") (auto simp: is_terminal_def job_outcome_def)
  qed (use assms(3) in simp)
  then show ?thesis
    by (simp add: lift_manager_def)
qed

lemma sdk_submitted:
  assumes "sdk_submit env x idem None jid tid us sd = (Inr j, s1, sd1)" and "task_of x = Inr m"
    and "get_manager sd = (s0, sd0)"
  shows "sm_submit_job env m idem jid tid us (s0\<lparr>registry := sdk_registry sd0\<rparr>) = (Inr j, s1)
    \<and> sdk_default sd1 = Some s1"
  using assms by (auto simp: sdk_submit_def manager_submit_def sbind_def split: prod.splits)

text \<open>
  C20: a task that a program submits through the SDK, without replicas, and that finds a node is run
  by one new thread, and the caller is given what the decorated function returned, or an error with
  the text of the exception it raised.
\<close>

theorem sdk_call_answered:
  assumes "sdk_submit env x idem None jid tid us sd = (Inr j, s1, sd1)" and "task_of x = Inr m"
    and "mt_replicas m \<le> 1" and "sdk_ok sd" and "get_manager sd = (s0, sd0)"
    and "known_job idem (job_manager.truncate s0) = None" and "dict_get (running s0) tid = None"
    and "placed (deref s1 (length (task_heap s0)))"
    and "run_callable clock is_set (bodies (mt_fn m))
           (fresh_ctx (job_manager.truncate s1) (length (task_heap s0))) = (out, c)"
    and "call_answer env out = Some answer"
  shows "j = jid \<and> sdk_default sd1 = Some s1 \<and> thread_log s1 = thread_log s0 @ [length (task_heap s0)]
    \<and> task_fn (deref s1 (length (task_heap s0))) = Some (mt_fn m)
    \<and> (\<exists>s2. lift_manager (run_local env clock is_set (bodies (mt_fn m))
                   (length (task_heap s0)) (length (job_heap s0))) s1 = (Inr (), s2)
        \<and> wait_for_job deadline ((Some (job_at (job_manager.truncate s2) (length (job_heap s0))), now) # obs)
            = Some answer)"
proof -
  let ?s0 = "s0\<lparr>registry := sdk_registry sd0\<rparr>"
  have "known_job idem (job_manager.truncate ?s0) = None"
    using assms(6) by (simp add: known_job_def split: option.splits list.splits)
  moreover have "local_only ?s0"
    using get_manager_ok [OF assms(4,5)] by simp
  moreover have sub: "sm_submit_job env m idem jid tid us ?s0 = (Inr j, s1)" "sdk_default sd1 = Some s1"
    using sdk_submitted [OF assms(1,2,5)] by simp_all
  ultimately have "j = jid \<and> running_job jid (length (job_heap s0)) (length (task_heap s0)) (job_manager.truncate s1)
      \<and> task_fn (deref s1 (length (task_heap s0))) = Some (mt_fn m)
      \<and> thread_log s1 = thread_log s0 @ [length (task_heap s0)]"
    using submit_single [OF sub(1) _ assms(3)] assms(7,8) by simp
  then show ?thesis
    using run_answers [OF _ assms(9,10)] sub(2) by blast
qed

text \<open>
  A task that finds no node is not run and not tried again: the caller that gave no timeout
  waits as long as it polls.
\<close>

lemma sdk_unplaced_waits:
  assumes "sdk_submit env x idem None jid tid us sd = (Inr j, s1, sd1)" and "task_of x = Inr m"
    and "mt_replicas m \<le> 1" and "sdk_ok sd" and "get_manager sd = (s0, sd0)"
    and "known_job idem (job_manager.truncate s0) = None" and "dict_get (running s0) tid = None"
    and "\<not> placed (deref s1 (length (task_heap s0)))"
  shows "thread_log s1 = thread_log s0
    \<and> wait_for_job None (map (\<lambda>now. (Some (job_at (job_manager.truncate s1) (length (job_heap s0))), now)) clocks) = None"
proof -
  let ?s0 = "s0\<lparr>registry := sdk_registry sd0\<rparr>"
  have "known_job idem (job_manager.truncate ?s0) = None"
    using assms(6) by (simp add: known_job_def split: option.splits list.splits)
  moreover have "local_only ?s0"
    using get_manager_ok [OF assms(4,5)] by simp
  moreover have sub: "sm_submit_job env m idem jid tid us ?s0 = (Inr j, s1)"
    using sdk_submitted [OF assms(1,2,5)] by simp
  ultimately have "job_state (job_at (job_manager.truncate s1) (length (job_heap s0))) = J_RUNNING"
      and "thread_log s1 = thread_log s0"
    using submit_single [OF sub _ assms(3)] assms(7,8) by (simp_all add: running_job_def)
  then show ?thesis
    by (induction clocks) (simp_all add: is_terminal_def)
qed

subsection \<open>A placed submission succeeds\<close>

lemma dispatch_local:
  "remote_agents s = [] \<Longrightarrow> \<exists>s'. dispatch env r jr s = (Inr (), s') \<and> task_heap s' = task_heap s"
  by (auto simp: dispatch_def bind_smodify is_remote_def Let_def start_local_execution_def
      split: option.split list.split)

lemma placement_succeeds:
  assumes "\<And>ns. e_place env (deref s r) ns = Inr (Some p)" and "r < length (task_heap s)"
  shows "\<exists>s1. sm_cluster_submit (e_place env) r s = (Inr (Some (pl_node_id p)), s1)"
proof -
  let ?s = "s\<lparr>tasks := dict_set (task_id (deref s r)) r (tasks s)\<rparr>"
  obtain res s2 where live: "sm_live_nodes ?s = (res, s2)"
    by fastforce
  then obtain ns sts where res: "res = Inr ns" "s2 = ?s\<lparr>states := sts\<rparr>"
    by (rule sm_live_nodesE)
  have "deref s2 r = deref s r"
    by (simp add: res deref_def)
  then have "e_place env (deref s2 r) ns = Inr (Some p)"
    using assms(1) by simp
  then show ?thesis
    using live res(1) by (simp add: sm_cluster_submit_def bind_smodify sbind_Inr sm_map_agents_def)
qed

lemma lift_manager_Inr:
  assumes "f (job_manager.truncate s) = (Inr y, m)"
  obtains s' where "lift_manager f s = (Inr y, s')" and "job_manager.truncate s' = m"
  using assms that [of "job_manager.extend m (job_manager.more s)"] by (simp add: lift_manager_def)

lemma lift_manager_smodify:
  obtains s' where "lift_manager (smodify g) s = (Inr (), s')" and "job_manager.truncate s' = g (job_manager.truncate s)"
  by (rule lift_manager_Inr [of "smodify g" s "()" "g (job_manager.truncate s)"]) (simp_all add: that)

lemma start_succeeds:
  assumes "\<And>ns. e_place env (to_spec m tid (Some jid) 0) ns = Inr (Some p)" and "pl_node_id p \<noteq> []"
    and "mt_replicas m \<le> 1" and "local_only s"
  shows "\<exists>s1. sm_start_job env m jid tid uuids jr s = (Inr jid, s1)
    \<and> assigned_node (deref s1 (length (task_heap s))) = Some (pl_node_id p)"
proof -
  let ?T = job_manager.truncate and ?r = "length (task_heap s)" and ?t = "to_spec m tid (Some jid) 0"
  obtain c cs where p: "pl_node_id p = c # cs"
    using assms(2) by (cases "pl_node_id p") auto
  obtain sa where a: "lift_manager (smodify (update_job jr (\<lambda>j. j\<lparr>task_ids := [tid]\<rparr>))) s = (Inr (), sa)"
    and ta: "?T sa = update_job jr (\<lambda>j. j\<lparr>task_ids := [tid]\<rparr>) (?T s)"
    by (rule lift_manager_smodify)
  have "enter_specs jid [?t] (?T sa) = (Inr [?r], snd (enter_specs jid [?t] (?T sa)))"
    by (simp add: ta enter_specs_def Let_def update_job_def)
  then obtain sb where b: "lift_manager (enter_specs jid [?t]) sa = (Inr [?r], sb)"
    and tb: "?T sb = snd (enter_specs jid [?t] (?T sa))"
    by (rule lift_manager_Inr)
  have heap: "task_heap sb = task_heap s @ [?t]" and local: "local_only sb"
    using arg_cong [OF tb, of task_heap] arg_cong [OF tb, of remote_agents] assms(4)
    by (simp_all add: ta enter_specs_def Let_def update_job_def)
  obtain res sc where live: "sm_live_nodes sb = (res, sc)"
    by fastforce
  then obtain ns sts where res: "res = Inr ns" "sc = sb\<lparr>states := sts\<rparr>"
    by (rule sm_live_nodesE)
  have "e_place env (deref sc ?r) ns = Inr (Some p)" "?r < length (task_heap sc)" for ns
    using assms(1) by (simp_all add: res heap deref_def)
  then obtain sd where d: "sm_cluster_submit (e_place env) ?r sc = (Inr (Some (pl_node_id p)), sd)"
    using placement_succeeds by blast
  have heap_d: "assigned_node (deref sd ?r) = Some (pl_node_id p)" and local_d: "local_only sd"
  proof -
    obtain sts' where sd: "?T sd = update_task ?r (after_placement (Some (pl_node_id p)))
        ((?T sc)\<lparr>tasks := dict_set (task_id (deref sc ?r)) ?r (tasks sc), states := sts'\<rparr>)"
      using cluster_submit_manager [OF d] by blast
    have "assigned_node (deref (?T sd) ?r) = Some (pl_node_id p)" "remote_agents (?T sd) = []"
      unfolding sd using local by (simp_all add: update_task_def deref_def after_placement_def res heap)
    then show "assigned_node (deref sd ?r) = Some (pl_node_id p)" "local_only sd"
      by simp_all
  qed
  obtain se where e: "lift_manager (smodify (update_job jr (\<lambda>j. j\<lparr>job_state := J_RUNNING\<rparr>))) sd = (Inr (), se)"
    and te: "?T se = update_job jr (\<lambda>j. j\<lparr>job_state := J_RUNNING\<rparr>) (?T sd)"
    by (rule lift_manager_smodify)
  obtain sf where f: "lift_manager (persist_job jr) se = (Inr (), sf)"
    and tf: "?T sf = write_store (sql_save_job (job_at (?T se) jr)) (?T se)"
    unfolding persist_job_def by (rule lift_manager_smodify)
  have "persist_task ?r (?T sf) = (Inr (), snd (persist_task ?r (?T sf)))"
    by (simp add: persist_task_def)
  then obtain sp where g: "lift_manager (persist_task ?r) sf = (Inr (), sp)"
    and tp: "?T sp = snd (persist_task ?r (?T sf))"
    by (rule lift_manager_Inr)
  have keep: "remote_agents (?T sp) = []" "task_heap (?T sp) = task_heap (?T sd)"
    using local_d unfolding tp tf te persist_task_def
    by (auto simp: write_store_def update_job_def split: option.split)
  then obtain m1 where disp: "dispatch env ?r jr (?T sp) = (Inr (), m1)" and m1: "task_heap m1 = task_heap (?T sp)"
    using dispatch_local by blast
  from disp obtain s1 where h: "lift_manager (dispatch env ?r jr) sp = (Inr (), s1)" and t1: "?T s1 = m1"
    by (rule lift_manager_Inr)
  have "task_heap s1 = task_heap sd"
    using keep(2) m1 arg_cong [OF t1, of task_heap] by simp
  moreover have "sm_submit_refs env [?r] sc = (Inr [(?r, Some (c # cs))], sd)"
    using d by (simp add: sbind_Inr p)
  then have "sm_start_job env m jid tid uuids jr s = (Inr jid, s1)"
    using assms(3) a b live res(1) e f g h by (simp add: sm_start_job_def Let_def sbind_Inr)
  ultimately show ?thesis
    using heap_d by (auto simp: deref_def)
qed

lemma submit_succeeds:
  assumes "\<And>ns. e_place env (to_spec m tid (Some jid) 0) ns = Inr (Some p)" and "pl_node_id p \<noteq> []"
    and "mt_replicas m \<le> 1" and "local_only s"
  shows "\<exists>s1. sm_submit_job env m None jid tid uuids s = (Inr jid, s1)
    \<and> assigned_node (deref s1 (length (task_heap s))) = Some (pl_node_id p)"
proof -
  let ?s = "s\<lparr>registry := dict_set (mt_name m) (mt_fn m) (registry s)\<rparr>"
  obtain jr m1 where made: "create_job jid (mt_name m) None (job_manager.truncate ?s) = (Inr jr, m1)"
    by (simp add: create_job_def alloc_job_def Let_def)
  then obtain s2 where create: "lift_manager (create_job jid (mt_name m) None) ?s = (Inr jr, s2)"
    and t2: "job_manager.truncate s2 = m1"
    by (rule lift_manager_Inr)
  have "local_only s2" "task_heap s2 = task_heap s"
    using created_job [OF made] arg_cong [OF t2, of remote_agents] arg_cong [OF t2, of task_heap] assms(4)
    by simp_all
  with start_succeeds [OF assms(1-3), of s2 uuids jr] create show ?thesis
    by (auto simp: sm_submit_job_def bind_smodify known_job_def sbind_Inr)
qed

subsection \<open>A first call\<close>

text \<open>
  A process whose default cluster has one agent, a placement on that agent, and a function that
  returns 7.
\<close>

definition small_sdk :: sdk where
  "small_sdk = \<lparr>sdk_default = Some (new_sim_manager [] [created_agent 0] 0), sdk_registry = []\<rparr>"

definition one_place :: jm_env where
  "one_place = (sample_env 1)\<lparr>e_place := \<lambda>t ns. Inr (Some \<lparr>pl_task_id = task_id t, pl_node_id = ''NODE-000'', pl_score = 1\<rparr>)\<rparr>"

definition returns_7 :: task_callable where
  "returns_7 = \<lparr>fn_params = Some [], fn_body = Return PNone, fn_plain = Inr (PInt 7)\<rparr>"

lemma small_sdk_fresh:
  "get_manager small_sdk = (new_sim_manager [] [created_agent 0] 0, small_sdk)"
  "task_heap (new_sim_manager [] [created_agent 0] 0) = []"
  "job_heap (new_sim_manager [] [created_agent 0] 0) = []" "running (new_sim_manager [] [created_agent 0] 0) = []"
  by (simp_all add: small_sdk_def get_manager_def get_cluster_def new_sim_manager_def job_manager.extend_def manager_defs)

lemma sdk_call_answered_witness:
  "\<exists>s1 sd1 s2. sdk_submit one_place (Task sample_mesh_task) None None ''j'' ''t'' [] small_sdk = (Inr ''j'', s1, sd1)
    \<and> lift_manager (run_local one_place (\<lambda>_. 0) (\<lambda>_. False) returns_7 0 0) s1 = (Inr (), s2)
    \<and> wait_for_job None [(Some (job_at (job_manager.truncate s2) 0), 0)] = Some (Inr (PInt 7))"
proof -
  let ?s0 = "new_sim_manager [] [created_agent 0] 0"
  have ok: "sdk_ok small_sdk"
    using new_local by (simp add: small_sdk_def sdk_ok_def)
  have place: "e_place one_place t ns = Inr (Some \<lparr>pl_task_id = task_id t, pl_node_id = ''NODE-000'', pl_score = 1\<rparr>)" for t ns
    by (simp add: one_place_def)
  have "local_only (?s0\<lparr>registry := []\<rparr>)" and "mt_replicas sample_mesh_task \<le> 1"
    using new_local by (simp_all add: sample_mesh_task_def)
  with submit_succeeds [OF place] obtain s1 where
    "sm_submit_job one_place sample_mesh_task None ''j'' ''t'' [] (?s0\<lparr>registry := []\<rparr>) = (Inr ''j'', s1)"
    and at: "assigned_node (deref s1 0) = Some ''NODE-000''"
    by (fastforce simp: small_sdk_fresh)
  then have call: "sdk_submit one_place (Task sample_mesh_task) None None ''j'' ''t'' [] small_sdk
      = (Inr ''j'', s1, small_sdk\<lparr>sdk_default := Some s1, sdk_registry := registry s1\<rparr>)"
    by (simp add: sdk_submit_def manager_submit_def sbind_Inr small_sdk_fresh) (simp add: small_sdk_def)
  have run: "run_callable (\<lambda>_. 0) (\<lambda>_. False) returns_7 c = (Returned (PInt 7), c)" for c
    by (simp add: run_callable_def accepts_context_def returns_7_def)
  show ?thesis
    using sdk_call_answered [OF call _ _ ok small_sdk_fresh(1), where bodies = "\<lambda>_. returns_7" and obs = "[]"
        and deadline = None and now = 0 and clock = "\<lambda>_. 0" and is_set = "\<lambda>_. False"] at call
    by (simp add: small_sdk_fresh known_job_def placed_def sample_mesh_task_def run)
qed

end
