(* ===== verification/Soak.thy ===== *)
theory Soak
  imports Simulation Worker
begin

section \<open>The chaos soak (mesh/sim/soak.py)\<close>

text \<open>
  \<^verbatim>\<open>SoakHarness\<close>: a simulated cluster under scheduled kills, preemptions and partitions and periodic
  submissions, and the report of its run.  What the random number generator draws is an argument,
  one draw for each hour, and so is the order in which the set of sites is listed.  The
  simulation takes its ticks as fuel.
\<close>

subsection \<open>Statistics of the simulated cluster (mesh/sim/cluster.py)\<close>

record sim_stats =
  ss_total_nodes :: int
  ss_alive_nodes :: int
  ss_healthy_nodes :: int
  ss_total_cpu_cores :: int
  ss_free_cpu_cores :: real
  ss_total_ram_gb :: real
  ss_free_ram_gb :: real
  ss_tasks_running :: int
  ss_tasks_completed :: int

definition sim_task_count :: "task_state \<Rightarrow> sim \<Rightarrow> int" where
  "sim_task_count st s = int (length (filter (\<lambda>t. task_state t = st) (dict_values (sim_tasks s))))"

definition sim_cluster_stats :: "sim \<Rightarrow> sim_stats \<times> sim" where
  "sim_cluster_stats s =
     (case sim_live_nodes s of (ns, s1) \<Rightarrow>
        (\<lparr>ss_total_nodes = int (length (sim_agents s1)),
          ss_alive_nodes = int (length (filter sa_alive (sim_agents s1))),
          ss_healthy_nodes = int (length (filter (\<lambda>n. node_state n = HEALTHY) ns)),
          ss_total_cpu_cores = sum_list (map (\<lambda>n. cpu_cores_total (resources n)) ns),
          ss_free_cpu_cores = sum_list (map (\<lambda>n. cpu_cores_free (resources n)) ns),
          ss_total_ram_gb = sum_list (map (\<lambda>n. ram_gb_total (resources n)) ns),
          ss_free_ram_gb = sum_list (map (\<lambda>n. ram_gb_free (resources n)) ns),
          ss_tasks_running = sim_task_count T_RUNNING s1,
          ss_tasks_completed = sim_task_count T_COMPLETED s1\<rparr>, s1))"

definition sim_get_task :: "string \<Rightarrow> sim \<Rightarrow> task_spec option" where
  "sim_get_task tid s = dict_get (sim_tasks s) tid"

definition sim_task_completed :: "string \<Rightarrow> sim \<Rightarrow> bool" where
  "sim_task_completed tid s =
     (case sim_get_task tid s of None \<Rightarrow> False | Some t \<Rightarrow> task_state t = T_COMPLETED)"

subsection \<open>The plan of a run\<close>

definition soak_sites :: "string list" where
  "soak_sites = [''bangalore'', ''london'', ''aws-us-east'', ''local-dev'']"

definition soak_cluster :: "nat \<Rightarrow> sim" where
  "soak_cluster n =
     (let s = create_sim n 0
      in s\<lparr>sim_agents := map (\<lambda>(i, a). a\<lparr>sa_location := soak_sites ! (i mod length soak_sites)\<rparr>)
             (enumerate 0 (sim_agents s))\<rparr>)"

datatype chaos_kind = ChaosKill | ChaosPreempt | ChaosPartition

text \<open>The numbers drawn for an hour, and the list made of the set of sites.\<close>

record chaos_draw =
  cd_offset :: int
  cd_node :: nat
  cd_kind :: chaos_kind
  cd_sites :: "string list"

record soak_plan =
  sp_sim :: sim
  sp_deaths :: int
  sp_preemptions :: int
  sp_partitions :: int
  sp_events :: "string list"

definition plan_hour :: "nat \<times> chaos_draw \<Rightarrow> soak_plan \<Rightarrow> soak_plan" where
  "plan_hour x p =
     (case x of (hour, d) \<Rightarrow>
      let t = int hour * 3600 + cd_offset d; name = node_name (cd_node d)
      in case cd_kind d of
           ChaosKill \<Rightarrow>
             p\<lparr>sp_sim := kill_node name (of_int t) (sp_sim p), sp_deaths := sp_deaths p + 1,
               sp_events := sp_events p @ [''t='' @ int_text t @ ''s kill '' @ name]\<rparr>
         | ChaosPreempt \<Rightarrow>
             p\<lparr>sp_sim := preempt_node name (of_int t) (95 / 100) (sp_sim p),
               sp_preemptions := sp_preemptions p + 1\<rparr>
         | ChaosPartition \<Rightarrow>
             (case cd_sites d of
                a # b # _ \<Rightarrow> p\<lparr>sp_sim := partition_sites a b (of_int t) 600 (sp_sim p),
                               sp_partitions := sp_partitions p + 1\<rparr>
              | _ \<Rightarrow> p))"

definition soak_task :: "nat \<Rightarrow> task_spec" where
  "soak_task b =
     (new_task_spec ''soak-work'' (''soak-'' @ nat_digits b))
       \<lparr>task_job_id := Some (''soak-job-'' @ nat_digits b),
        task_requirements := default_requirements\<lparr>cpu_cores_req := 1, ram_gb_req := 1\<rparr>,
        total_work := 100, task_checkpoint := True\<rparr>"

definition plan_batch :: "nat \<Rightarrow> sim \<Rightarrow> sim" where
  "plan_batch b = schedule_event (of_nat (b * 7200 + 100)) (SubmitTask (soak_task b))"

definition soak_hours :: "real \<Rightarrow> nat" where
  "soak_hours duration = nat \<lfloor>duration / 3600\<rfloor>"

definition soak_batches :: "real \<Rightarrow> nat" where
  "soak_batches duration = max 1 (nat \<lfloor>duration / 7200\<rfloor>)"

definition plan_soak :: "nat \<Rightarrow> real \<Rightarrow> (nat \<Rightarrow> chaos_draw) \<Rightarrow> soak_plan" where
  "plan_soak n duration draws =
     (let p = fold plan_hour (map (\<lambda>hour. (hour, draws hour)) [0..<soak_hours duration])
                \<lparr>sp_sim = soak_cluster n, sp_deaths = 0, sp_preemptions = 0, sp_partitions = 0, sp_events = []\<rparr>
      in p\<lparr>sp_sim := fold plan_batch [0..<soak_batches duration] (sp_sim p)\<rparr>)"

subsection \<open>The run and its report\<close>

record soak_report =
  sr_duration :: real
  sr_ticks :: nat
  sr_deaths :: int
  sr_preemptions :: int
  sr_partitions :: int
  sr_submitted :: int
  sr_completed :: int
  sr_failed :: int
  sr_uptime_pct :: real
  sr_events :: "string list"

text \<open>Ticks and the samples in which at least half of the nodes are healthy.\<close>

fun soak_loop ::
  "nat \<Rightarrow> (task_spec \<Rightarrow> node list \<Rightarrow> placement option result) \<Rightarrow> nat \<Rightarrow> real \<Rightarrow> sim \<Rightarrow> nat \<Rightarrow> nat
     \<Rightarrow> (sim \<times> nat \<times> nat) result option" where
  "soak_loop 0 pf n duration s ticks healthy = None"
| "soak_loop (Suc k) pf n duration s ticks healthy =
     (if sim_time s < duration
      then
        case tick pf s of
          (Inl e, s1) \<Rightarrow> Some (Inl e)
        | (Inr _, s1) \<Rightarrow>
            (case sim_cluster_stats (s1\<lparr>sim_time := sim_time s1 + tick_interval s1\<rparr>) of (stats, s2) \<Rightarrow>
               soak_loop k pf n duration s2 (ticks + 1)
                 (if of_nat n * (1 / 2) \<le> real_of_int (ss_healthy_nodes stats) then healthy + 1 else healthy))
      else Some (Inr (s, ticks, healthy)))"

text \<open>Drawing a node raises where there is none.\<close>

definition run_soak ::
  "nat \<Rightarrow> (task_spec \<Rightarrow> node list \<Rightarrow> placement option result) \<Rightarrow> nat \<Rightarrow> real
     \<Rightarrow> (nat \<Rightarrow> chaos_draw) \<Rightarrow> soak_report result option" where
  "run_soak fuel pf n duration draws =
     (if n = 0 \<and> 0 < soak_hours duration then Some (Inl ValueError)
      else
        let p = plan_soak n duration draws
        in map_option (\<lambda>res. ebind res (\<lambda>(s, ticks, healthy).
             Inr \<lparr>sr_duration = duration, sr_ticks = ticks, sr_deaths = sp_deaths p,
                  sr_preemptions = sp_preemptions p, sr_partitions = sp_partitions p,
                  sr_submitted = int (soak_batches duration),
                  sr_completed = sim_task_count T_COMPLETED s, sr_failed = sim_task_count T_FAILED s,
                  sr_uptime_pct = of_nat healthy / of_nat (max ticks 1) * 100,
                  sr_events = take 20 (sp_events p)\<rparr>))
             (soak_loop fuel pf n duration (sp_sim p) 0 0))"

definition soak_passed :: "soak_report \<Rightarrow> bool" where
  "soak_passed r \<longleftrightarrow> 90 \<le> sr_uptime_pct r \<and> 0 < sr_submitted r"

definition soak_report_to_dict :: "soak_report \<Rightarrow> pyval dict" where
  "soak_report_to_dict r =
     [(''sim_duration_seconds'', PFloat (sr_duration r)),
      (''sim_duration_hours'', PFloat (py_round 2 (sr_duration r / 3600))),
      (''ticks'', PInt (int (sr_ticks r))), (''node_deaths'', PInt (sr_deaths r)),
      (''preemptions'', PInt (sr_preemptions r)), (''partitions'', PInt (sr_partitions r)),
      (''tasks_submitted'', PInt (sr_submitted r)), (''tasks_completed'', PInt (sr_completed r)),
      (''tasks_failed'', PInt (sr_failed r)), (''uptime_pct'', PFloat (py_round 2 (sr_uptime_pct r))),
      (''passed'', PBool (soak_passed r))]"

subsection \<open>Nodes that are never killed stay healthy\<close>

text \<open>
  \<open>doomed\<close> are the names of the nodes that may die: those some event kills, and whatever is no node.
  Between two ticks every other node is alive and has sent a heartbeat less than a tick ago.
\<close>

definition spared :: "string set \<Rightarrow> string list \<Rightarrow> real \<Rightarrow> real \<Rightarrow> sim \<Rightarrow> bool" where
  "spared doomed ids now since s \<longleftrightarrow>
     sim_time s = now \<and> tick_interval s = 1 \<and> interval_seconds s = 2
     \<and> suspected_threshold s = 3 \<and> dead_threshold s = 5
     \<and> map sa_node_id (sim_agents s) = ids
     \<and> (\<forall>a \<in> set (sim_agents s). sa_node_id a \<notin> doomed \<longrightarrow> sa_alive a)
     \<and> (\<forall>nid. nid \<notin> doomed \<longrightarrow> nid \<notin> explicit_dead s
          \<and> (\<exists>t. dict_get (last_heartbeat s) nid = Some t \<and> since \<le> t))
     \<and> (\<forall>(time, a) \<in> set (sim_events s). \<forall>nid. a = KillNode nid \<longrightarrow> nid \<in> doomed)"

lemma spared_verdict:
  assumes "spared doomed ids now since s" and "nid \<notin> doomed" and "now < since + 6"
  shows "fst (evaluate now nid s) = HEALTHY"
proof -
  obtain t where "dict_get (last_heartbeat s) nid = Some t" "since \<le> t" "nid \<notin> explicit_dead s"
    using assms(1,2) by (auto simp: spared_def)
  moreover have "\<not> 3 \<le> missed_count now nid s"
    using missed_ge_iff [of s nid t 3 now] assms(1,3) calculation by (simp add: spared_def)
  ultimately show ?thesis
    using assms(1) by (simp add: evaluate_def health_of_def Let_def spared_def)
qed

lemma spared_states [simp]: "spared doomed ids now since (s\<lparr>states := sts\<rparr>) = spared doomed ids now since s"
  and spared_tasks [simp]: "spared doomed ids now since (s\<lparr>sim_tasks := ts\<rparr>) = spared doomed ids now since s"
  and spared_changes [simp]: "spared doomed ids now since (s\<lparr>sim_changes := ch\<rparr>) = spared doomed ids now since s"
  and spared_work [simp]: "spared doomed ids now since (work_tasks w s) = spared doomed ids now since s"
  by (simp_all add: spared_def work_tasks_def Let_def)

lemma spared_map_agents:
  assumes "spared doomed ids now since s" and "\<And>a. sa_node_id (f a) = sa_node_id a"
    and "\<And>a. P a \<Longrightarrow> sa_node_id a \<notin> doomed \<Longrightarrow> sa_alive a \<Longrightarrow> sa_alive (f a)"
  shows "spared doomed ids now since (map_agents P f s)"
proof -
  have "map (sa_node_id \<circ> (\<lambda>a. if P a then f a else a)) (sim_agents s) = map sa_node_id (sim_agents s)"
    using assms(2) by simp
  then show ?thesis
    using assms by (auto simp: spared_def map_agents_def o_def)
qed

lemma spared_kill:
  "spared doomed ids now since s \<Longrightarrow> nid \<in> doomed \<Longrightarrow>
     spared doomed ids now since (map_agents (\<lambda>a. sa_node_id a = nid) kill s)"
  by (rule spared_map_agents) (auto simp: kill_def)

lemma spared_death:
  assumes "spared doomed ids now since s" and "nid \<in> doomed"
  shows "spared doomed ids now since (snd (sim_handle_death pf nid s))"
proof -
  let ?s = "map_agents (\<lambda>a. sa_node_id a = nid) kill s"
  obtain ns sts where live: "sim_live_nodes ?s = (ns, ?s\<lparr>states := sts\<rparr>)"
    by (rule sim_live_nodesE)
  show ?thesis
    using spared_kill [OF assms] live by (auto simp: sim_handle_death_def Let_def split: sum.split)
qed

lemma spared_change:
  assumes "spared doomed ids now since s" and "new = DEAD \<Longrightarrow> nid \<in> doomed"
  shows "spared doomed ids now since (snd (sim_on_change pf nid old new s))"
  using assms spared_death by (simp add: sim_on_change_def Let_def)

lemma spared_notify:
  assumes "spared doomed ids now since s" and "new = DEAD \<Longrightarrow> nid \<in> doomed"
  shows "spared doomed ids now since (snd (notify [sim_on_change pf] nid old new s))"
  unfolding notify_def by (rule siter_keeps_on) (use assms in \<open>auto intro: spared_change\<close>)

lemma spared_submit:
  assumes "spared doomed ids now since s"
  shows "spared doomed ids now since (snd (sim_submit pf t s))"
proof -
  let ?s = "s\<lparr>sim_tasks := dict_set (task_id t) t (sim_tasks s)\<rparr>"
  obtain ns sts where live: "sim_live_nodes ?s = (ns, ?s\<lparr>states := sts\<rparr>)"
    by (rule sim_live_nodesE)
  have "spared doomed ids now since (map_agents (\<lambda>a. sa_node_id a = nid)
      (\<lambda>a. a\<lparr>sa_assigned := sa_assigned a @ [task_id t]\<rparr>) (?s\<lparr>states := sts, sim_tasks := ts\<rparr>))" for nid ts
    by (rule spared_map_agents) (use assms in \<open>simp_all add: spared_def\<close>)
  then show ?thesis
    using assms live by (auto simp: sim_submit_def Let_def split: sum.split option.split)
qed

lemma spared_perform:
  assumes "spared doomed ids now since s" and "\<And>nid. a = KillNode nid \<Longrightarrow> nid \<in> doomed"
  shows "spared doomed ids now since (snd (perform pf a s))"
proof (cases a)
  case (KillNode nid)
  have nid: "nid \<in> doomed"
    using assms(2) KillNode by blast
  have "spared doomed ids now since (mark_dead nid s)" if "spared doomed ids now since s" for s
    using that nid by (auto simp: spared_def mark_dead_def)
  then show ?thesis
    using spared_kill [OF assms(1) nid] nid spared_notify
    by (auto simp: KillNode sbind_def force_state_def Let_def)
next
  case (SubmitTask t)
  then show ?thesis
    using spared_submit [OF assms(1), of pf t] by (auto simp: sbind_def split: prod.split sum.split)
qed (use assms(1) in \<open>simp_all, auto intro!: spared_map_agents simp: preempt_agent_def drain_battery_def\<close>)


lemma spared_due:
  assumes "spared doomed ids now since s"
  shows "spared doomed ids now since (snd (run_due pf s))"
  unfolding run_due_def
proof (rule siter_keeps_on [where P = "spared doomed ids now since", OF assms])
  fix x s'
  assume x: "x \<in> set (takeWhile (\<lambda>(time, a). time \<le> sim_time s) (sim_events s))"
    and s': "spared doomed ids now since s'"
  obtain time a where a: "x = (time, a)" "(time, a) \<in> set (sim_events s)"
    using x set_takeWhileD by fastforce
  have "spared doomed ids now since (s'\<lparr>sim_events := tl (sim_events s')\<rparr>)"
    using s' list.set_sel(2) [of "sim_events s'"] by (cases "sim_events s'") (auto simp: spared_def)
  moreover have "nid \<in> doomed" if "a = KillNode nid" for nid
    using assms a(2) that by (auto simp: spared_def)
  ultimately show "spared doomed ids now since (snd ((case x of (time, a) \<Rightarrow>
      sbind (smodify (\<lambda>s. s\<lparr>sim_events := tl (sim_events s)\<rparr>)) (\<lambda>_. perform pf a)) s'))"
    by (simp add: a(1) sbind_def spared_perform)
qed

text \<open>A heartbeat of the simulator never fails: the callback acts on deaths only.\<close>

lemma sim_beat:
  obtains ch where "registry_heartbeat [sim_on_change pf] now nid s
    = (Inr HEALTHY, (tracker_heartbeat now nid s)\<lparr>sim_changes := ch\<rparr>)"
proof -
  have "\<exists>ch. registry_heartbeat [sim_on_change pf] now nid s
    = (Inr HEALTHY, (tracker_heartbeat now nid s)\<lparr>sim_changes := ch\<rparr>)"
    by (auto simp: registry_heartbeat_def notify_def sim_on_change_def sbind_def Let_def
        tracker_heartbeat_def intro: exI [of _ "sim_changes s"])
  then show thesis
    using that by blast
qed

lemma spared_beats:
  assumes "spared doomed ids now since s" and "since \<le> now"
  shows "\<exists>s'. siter (\<lambda>a. sbind (registry_heartbeat [sim_on_change pf] now (sa_node_id a)) (\<lambda>_. sret ())) as s
      = (Inr (), s')
    \<and> spared doomed ids now since s'
    \<and> (\<forall>nid. nid \<in> sa_node_id ` set as \<or> dict_get (last_heartbeat s) nid = Some now
         \<longrightarrow> dict_get (last_heartbeat s') nid = Some now)"
  using assms(1)
proof (induction as arbitrary: s)
  case (Cons a as)
  obtain ch where beat: "registry_heartbeat [sim_on_change pf] now (sa_node_id a) s
      = (Inr HEALTHY, (tracker_heartbeat now (sa_node_id a) s)\<lparr>sim_changes := ch\<rparr>)"
    by (rule sim_beat)
  let ?s = "(tracker_heartbeat now (sa_node_id a) s)\<lparr>sim_changes := ch\<rparr>"
  have "spared doomed ids now since ?s"
    using Cons.prems assms(2) by (auto simp: spared_def tracker_heartbeat_def)
  from Cons.IH [OF this] show ?case
    by (auto simp: sbind_def beat tracker_heartbeat_def)
qed simp

lemma spared_evaluate_all:
  assumes "spared doomed ids now since s" and "now < since + 6"
  shows "spared doomed ids now since (snd (evaluate_all [sim_on_change pf] now s))"
proof -
  have one: "spared doomed ids now since (snd (evaluate_one [sim_on_change pf] now nid s))"
    if s: "spared doomed ids now since s" for nid s
  proof -
    have "spared doomed ids now since (snd (evaluate now nid s))"
      using s by (simp add: evaluate_def)
    moreover have "fst (evaluate now nid s) = DEAD \<Longrightarrow> nid \<in> doomed"
      using spared_verdict [OF s _ assms(2), of nid] by auto
    ultimately show ?thesis
      using spared_notify [of doomed ids now since "snd (evaluate now nid s)"
          "fst (evaluate now nid s)" nid pf "tracker_state nid s"]
      by (auto simp: evaluate_one_def Let_def sbind_def split: prod.split sum.split)
  qed
  have "spared doomed ids now since s \<Longrightarrow>
      spared doomed ids now since (snd (evaluate_loop [sim_on_change pf] now nids res s))" for nids res s
    by (induction nids arbitrary: res s) (auto intro!: sbind_keeps [where P = "spared doomed ids now since"] one)
  then show ?thesis
    using assms(1) by (simp add: evaluate_all_def)
qed

lemma spared_tick:
  assumes "spared doomed ids now since s" and "since \<le> now" and "now < since + 6"
    and "- set ids \<subseteq> doomed" and "tick pf s = (Inr (), s1)"
  shows "spared doomed ids now now s1"
proof -
  obtain s2 where due: "run_due pf s = (Inr (), s2)"
    using assms(5) by (cases "run_due pf s"; cases "fst (run_due pf s)") (auto simp: tick_def sbind_def)
  have s2: "spared doomed ids now since s2"
    using spared_due [OF assms(1), of pf] due by simp
  obtain s3 where beats: "siter (\<lambda>a. sbind (registry_heartbeat [sim_on_change pf] now (sa_node_id a)) (\<lambda>_. sret ()))
        (filter sa_alive (sim_agents s2)) s2 = (Inr (), s3)"
    and s3: "spared doomed ids now since s3"
    and fresh: "\<And>nid. nid \<in> sa_node_id ` set (filter sa_alive (sim_agents s2)) \<Longrightarrow>
        dict_get (last_heartbeat s3) nid = Some now"
    using spared_beats [OF s2 assms(2), of pf "filter sa_alive (sim_agents s2)"] by blast
  have "dict_get (last_heartbeat s3) nid = Some now" if "nid \<notin> doomed" for nid
  proof (rule fresh)
    have "nid \<in> set (map sa_node_id (sim_agents s2))"
      using that assms(4) s2 by (auto simp: spared_def)
    then show "nid \<in> sa_node_id ` set (filter sa_alive (sim_agents s2))"
      using that s2 by (auto simp: spared_def)
  qed
  then have "spared doomed ids now now s3"
    using s3 by (auto simp: spared_def)
  from spared_evaluate_all [OF this, of pf] have s4: "spared doomed ids now now s4"
    if "evaluate_all [sim_on_change pf] now s3 = (r, s4)" for r s4
    using that by simp
  have "sim_time s2 = now" "sim_time s3 = now"
    using s2 s3 by (simp_all add: spared_def)
  then have "tick pf s = sbind (evaluate_all [sim_on_change pf] now) (\<lambda>_ s'. (Inr (), work_tasks (sim_time s) s')) s3"
    using due beats by (simp add: tick_def sbind_Inr smodify_def) (simp add: sbind_def)
  then show ?thesis
    using assms(5) s4 by (auto simp: sbind_def split: prod.splits sum.splits)
qed

subsection \<open>The samples of a run\<close>

lemma spared_live:
  assumes "spared doomed ids now since s" and "now < since + 6"
    and "\<And>a. a \<in> set as \<Longrightarrow> sa_node_id a \<notin> doomed \<Longrightarrow> sa_alive a" and "sim_live as s = (ns, s1)"
  shows "length (filter (\<lambda>a. sa_node_id a \<notin> doomed) as) \<le> length (filter (\<lambda>n. node_state n = HEALTHY) ns)"
  using assms
proof (induction as arbitrary: s ns s1)
  case (Cons a as)
  show ?case
  proof (cases "sa_alive a")
    case True
    obtain st s2 where ev: "evaluate now (sa_node_id a) s = (st, s2)" by fastforce
    have "s2 = s \<or> s2 = s\<lparr>states := dict_set (sa_node_id a) st (states s)\<rparr>"
      using ev by (auto simp: evaluate_def split: if_splits)
    then have s2: "spared doomed ids now since s2"
      using Cons.prems(1) by auto
    obtain ms s3 where ms: "sim_live as s2 = (ms, s3)" by fastforce
    have ns: "ns = to_node st a # ms"
      using Cons.prems(1,4) True ev ms by (auto simp: registry_state_def spared_def)
    have "st = HEALTHY" if "sa_node_id a \<notin> doomed"
      using spared_verdict [OF Cons.prems(1) that Cons.prems(2)] ev by simp
    then show ?thesis
      using Cons.IH [OF s2 Cons.prems(2) _ ms] Cons.prems(3) True by (auto simp: ns to_node_def)
  next
    case False
    then show ?thesis
      using Cons by auto
  qed
qed simp

lemma spared_sample:
  assumes "spared doomed ids now since s" and "now < since + 6" and "sim_cluster_stats s = (st, s1)"
  shows "int (length (filter (\<lambda>nid. nid \<notin> doomed) ids)) \<le> ss_healthy_nodes st"
    and "spared doomed ids now since s1"
proof -
  obtain ns sts where live: "sim_live_nodes s = (ns, s\<lparr>states := sts\<rparr>)"
    by (rule sim_live_nodesE)
  have "length (filter (\<lambda>nid. nid \<notin> doomed) ids) = length (filter (\<lambda>a. sa_node_id a \<notin> doomed) (sim_agents s))"
    using assms(1) by (auto simp: spared_def filter_map o_def)
  then show "int (length (filter (\<lambda>nid. nid \<notin> doomed) ids)) \<le> ss_healthy_nodes st"
    using spared_live [OF assms(1,2) _ live [unfolded sim_live_nodes_def]] assms(1,3) live
    by (auto simp: sim_cluster_stats_def spared_def)
  show "spared doomed ids now since s1"
    using assms(1,3) live by (auto simp: sim_cluster_stats_def)
qed

text \<open>A run of which at least half of the nodes are spared counts every sample as healthy.\<close>

lemma soak_samples:
  assumes "spared doomed ids now since s" and "since \<le> now" and "now \<le> since + 1"
    and "- set ids \<subseteq> doomed"
    and "real n / 2 \<le> real (length (filter (\<lambda>nid. nid \<notin> doomed) ids))"
    and "soak_loop fuel pf n duration s ticks healthy = Some (Inr (s', ticks', healthy'))"
  shows "healthy' + ticks = healthy + ticks' \<and> ticks \<le> ticks' \<and> (now < duration \<longrightarrow> ticks < ticks')"
  using assms
proof (induction fuel arbitrary: s now since ticks healthy)
  case (Suc k)
  show ?case
  proof (cases "now < duration")
    case False
    then show ?thesis
      using Suc.prems by (auto simp: spared_def)
  next
    case True
    have before: "sim_time s < duration"
      using True Suc.prems(1) by (simp add: spared_def)
    obtain s1 where t: "tick pf s = (Inr (), s1)"
      using Suc.prems(6) before by (cases "tick pf s"; cases "fst (tick pf s)") auto
    have s1: "spared doomed ids now now s1"
      using spared_tick [OF Suc.prems(1,2) _ Suc.prems(4) t] Suc.prems(3) by simp
    obtain st s2 where st: "sim_cluster_stats (s1\<lparr>sim_time := sim_time s1 + tick_interval s1\<rparr>) = (st, s2)"
      by fastforce
    have "spared doomed ids (now + 1) now (s1\<lparr>sim_time := sim_time s1 + tick_interval s1\<rparr>)"
      using s1 by (auto simp: spared_def)
    note sample = spared_sample [OF this _ st]
    have "real n * (1 / 2) \<le> real_of_int (ss_healthy_nodes st)"
      using sample(1) Suc.prems(5) by simp
    then have "soak_loop k pf n duration s2 (ticks + 1) (healthy + 1) = Some (Inr (s', ticks', healthy'))"
      using Suc.prems(6) before t st by simp
    from Suc.IH [OF sample(2) _ _ Suc.prems(4,5) this] show ?thesis
      by auto
  qed
qed simp


subsection \<open>A run comes to its end\<close>

text \<open>Nothing but the placement method raises.\<close>

lemma sbind_quiet: "fst (m s) = Inr x \<Longrightarrow> fst (sbind m f s) = fst (f x (snd (m s)))"
  by (cases "m s") (simp add: sbind_def)

lemma siter_quiet:
  "(\<And>x s. x \<in> set xs \<Longrightarrow> fst (f x s) = Inr ()) \<Longrightarrow> fst (siter f xs s) = Inr ()"
  by (induction xs arbitrary: s) (simp_all add: sbind_quiet)

lemma steal_quiet:
  assumes "\<And>t ns e. pf t ns \<noteq> Inl e"
  shows "steal pf cps ts ns \<noteq> Inl e"
proof -
  have "\<exists>rs. steal_loop pf cps h ts used = Inr rs" for h used
  proof (induction ts arbitrary: used)
    case (Cons t ts)
    obtain r where "pf ((restore cps t)\<lparr>task_state := T_MIGRATING\<rparr>)
        (filter (\<lambda>n. node_id n \<notin> used \<or> length h = 1) h) = Inr r"
      using assms by (metis sum.exhaust)
    moreover obtain rs where "steal_loop pf cps h ts (case r of None \<Rightarrow> used | Some p \<Rightarrow> insert (pl_node_id p) used) = Inr rs"
      using Cons.IH by blast
    ultimately show ?case
      by (cases r) (auto simp: Let_def)
  qed simp
  then show ?thesis
    unfolding steal_def by (metis Inr_not_Inl)
qed

lemma sim_on_change_quiet:
  assumes "\<And>t ns e. pf t ns \<noteq> Inl e"
  shows "fst (sim_on_change pf nid old new s) = Inr ()"
  using steal_quiet [OF assms]
  by (auto simp: sim_on_change_def sim_handle_death_def Let_def split: prod.split sum.split)

lemma perform_quiet:
  assumes "\<And>t ns e. pf t ns \<noteq> Inl e"
  shows "fst (perform pf a s) = Inr ()"
proof -
  have "fst (notify [sim_on_change pf] nid old new s) = Inr ()" for nid old new s
    unfolding notify_def by (rule siter_quiet) (auto simp: sim_on_change_quiet [OF assms])
  then have "fst (force_state [sim_on_change pf] nid DEAD s) = Inr ()" for nid s
    by (simp add: force_state_def Let_def)
  moreover have "fst (sbind (sim_submit pf t) (\<lambda>_. sret ()) s) = Inr ()" for t s
    using assms by (auto simp: sim_submit_def Let_def sbind_def split: prod.split sum.split option.split)
  ultimately show ?thesis
    by (cases a) (auto simp: sbind_def)
qed

lemma tick_quiet:
  assumes "\<And>t ns e. pf t ns \<noteq> Inl e"
  shows "fst (tick pf s) = Inr ()"
proof -
  have due: "fst (run_due pf s) = Inr ()"
    unfolding run_due_def by (rule siter_quiet) (auto simp: sbind_def perform_quiet [OF assms])
  have beats: "fst (siter (\<lambda>a. sbind (registry_heartbeat [sim_on_change pf] now (sa_node_id a))
      (\<lambda>_. sret ())) as s) = Inr ()" for now as s
  proof (rule siter_quiet)
    fix a s
    show "fst (sbind (registry_heartbeat [sim_on_change pf] now (sa_node_id a)) (\<lambda>_. sret ()) s) = Inr ()"
      by (rule sim_beat [of pf now "sa_node_id a" s]) (simp add: sbind_def)
  qed
  have told: "fst (notify [sim_on_change pf] nid old new s) = Inr ()" for nid old new s
    unfolding notify_def by (rule siter_quiet) (auto simp: sim_on_change_quiet [OF assms])
  have one: "fst (evaluate_one [sim_on_change pf] now nid s) = Inr (fst (evaluate now nid s))" for now nid s
    by (cases "evaluate now nid s") (simp add: evaluate_one_def Let_def sbind_quiet [OF told])
  have "\<exists>d. fst (evaluate_loop [sim_on_change pf] now nids res s) = Inr d" for now nids res s
    by (induction nids arbitrary: res s) (simp_all add: sbind_quiet [OF one])
  then have work: "fst (sbind (\<lambda>s. evaluate_all [sim_on_change pf] (sim_time s) s) (\<lambda>_. smodify f) s) = Inr ()" for f s
    by (auto simp: sbind_def evaluate_all_def split: prod.split sum.split) (metis Inr_not_Inl fst_conv)
  show ?thesis
    by (simp add: tick_def sbind_quiet due beats work del: siter.simps)
qed

lemma soak_loop_terminates:
  assumes "\<And>t ns e. pf t ns \<noteq> Inl e" and "duration - sim_time s \<le> of_nat k" and "tick_interval s = 1"
  shows "\<exists>x. soak_loop (Suc k) pf n duration s ticks healthy = Some (Inr x)"
  using assms(2,3)
proof (induction k arbitrary: s ticks healthy)
  case (Suc k)
  obtain s1 where t: "tick pf s = (Inr (), s1)"
    using tick_quiet [of pf s] assms(1) by (metis prod.collapse)
  have s1: "sim_time s1 = sim_time s" "tick_interval s1 = 1"
    using clocked.tick_P [of s "sim_time s" 1 pf] t Suc.prems(2) by simp_all
  let ?s = "s1\<lparr>sim_time := sim_time s1 + tick_interval s1\<rparr>"
  obtain ns sts where live: "sim_live_nodes ?s = (ns, ?s\<lparr>states := sts\<rparr>)"
    by (rule sim_live_nodesE)
  have "\<exists>x. soak_loop (Suc k) pf n duration (?s\<lparr>states := sts\<rparr>) ticks' healthy' = Some (Inr x)" for ticks' healthy'
    by (rule Suc.IH) (use Suc.prems s1 in simp_all)
  then show ?case
    using t live by (simp add: sim_cluster_stats_def del: soak_loop.simps add: soak_loop.simps(2) [of "Suc k"])
qed simp


subsection \<open>What the plan spares\<close>

definition killed :: "(nat \<times> chaos_draw) list \<Rightarrow> string list" where
  "killed xs = map (\<lambda>(hour, d). node_name (cd_node d)) (filter (\<lambda>(hour, d). cd_kind d = ChaosKill) xs)"

lemma register_all:
  fixes s :: sim and now :: real
  defines "reg \<equiv> \<lambda>as. fold (\<lambda>a. tracker_register now (sa_node_id a)) as"
  shows "interval_seconds (reg as s) = interval_seconds s"
    and "suspected_threshold (reg as s) = suspected_threshold s"
    and "dead_threshold (reg as s) = dead_threshold s"
    and "explicit_dead (reg as s) = explicit_dead s - sa_node_id ` set as"
    and "sim_time (reg as s) = sim_time s" and "tick_interval (reg as s) = tick_interval s"
    and "sim_agents (reg as s) = sim_agents s" and "sim_events (reg as s) = sim_events s"
    and "nid \<in> sa_node_id ` set as \<or> dict_get (last_heartbeat s) nid = Some now \<Longrightarrow>
      dict_get (last_heartbeat (reg as s)) nid = Some now"
  unfolding reg_def by (induction as arbitrary: s) (auto simp: tracker_register_def)

lemma new_sim_spared:
  assumes "\<And>a. a \<in> set agents \<Longrightarrow> sa_alive a"
  shows "spared (- (sa_node_id ` set agents)) (map sa_node_id agents) 0 0 (new_sim agents 0)"
  using assms by (auto simp: new_sim_def spared_def tracker.defs new_tracker_def register_all)

lemma spared_mono:
  "spared D ids now since s \<Longrightarrow> D \<subseteq> E \<Longrightarrow> spared E ids now since s"
  unfolding spared_def by (elim conjE, intro conjI) (auto, blast+)

lemma spared_schedule:
  "spared D ids now since s \<Longrightarrow> (\<And>nid. a = KillNode nid \<Longrightarrow> nid \<in> D) \<Longrightarrow>
     spared D ids now since (schedule_event time a s)"
  by (auto simp: spared_def schedule_event_def)

lemma plan_hour_spared:
  assumes "spared D ids now since (sp_sim p)" and "set (killed [x]) \<subseteq> D"
  shows "spared D ids now since (sp_sim (plan_hour x p))"
  using assms
  by (auto simp: plan_hour_def Let_def killed_def kill_node_def preempt_node_def partition_sites_def
      intro!: spared_schedule split: prod.split chaos_kind.split list.split)

lemma plan_spared:
  assumes "spared D ids now since (sp_sim p)" and "set (killed xs) \<subseteq> D"
  shows "spared D ids now since (sp_sim (fold plan_hour xs p))"
  using assms
proof (induction xs arbitrary: p)
  case (Cons x xs)
  have "killed (x # xs) = killed [x] @ killed xs"
    by (simp add: killed_def)
  then show ?case
    using Cons by (simp add: plan_hour_spared)
qed simp

lemma plan_deaths: "sp_deaths (fold plan_hour xs p) = sp_deaths p + int (length (killed xs))"
  by (induction xs arbitrary: p)
    (auto simp: plan_hour_def killed_def Let_def split: chaos_kind.split list.split)

lemma batches_spared:
  "spared D ids now since s \<Longrightarrow> spared D ids now since (fold plan_batch bs s)"
  by (induction bs arbitrary: s) (auto simp: plan_batch_def intro!: spared_schedule)

lemma soak_cluster_spared:
  "spared (- set (map node_name [0..<n])) (map node_name [0..<n]) 0 0 (soak_cluster n)"
proof -
  have agent: "sa_alive (created_agent i)" "sa_node_id (created_agent i) = node_name i" for i
    by (simp_all add: created_agent_def new_sim_agent_def)
  have created: "spared (- set (map node_name [0..<n])) (map node_name [0..<n]) 0 0 (create_sim n 0)"
    using new_sim_spared [of "map created_agent [0..<n]"] agent
    unfolding create_sim_def by (simp add: o_def image_image) blast
  have listed: "map (\<lambda>x. sa_node_id (snd x)) (zip [0..<length as] as) = map sa_node_id as" for as :: "sim_agent list"
    using map_snd_zip [of "[0..<length as]" as] by (metis (no_types, lifting) length_upt map_eq_conv map_map minus_nat.diff_0 o_apply)
  show ?thesis
    using created by (auto simp: soak_cluster_def listed Let_def spared_def enumerate_eq_zip o_def split_def
        map_zip_map zip_map2 dest: set_zip_rightD)
qed

lemma node_name_inj: "inj_on node_name {..<1000}"
proof (rule inj_onI)
  fix i j :: nat
  assume ij: "i \<in> {..<1000}" "j \<in> {..<1000}" "node_name i = node_name j"
  have digit: "a = b" if "digit a = digit b" "a < 10" "b < 10" for a b
    using that by (simp add: digit_def char_of_eq_iff take_bit_nat_eq_self)
  have "i div 100 mod 10 = j div 100 mod 10" "i div 10 mod 10 = j div 10 mod 10" "i mod 10 = j mod 10"
    using ij(3) by (auto simp: node_name_def intro: digit)
  moreover have "k = 100 * (k div 100 mod 10) + 10 * (k div 10 mod 10) + k mod 10" if "k < 1000" for k :: nat
    proof -
    have "k = 10 * (k div 10) + k mod 10" "k div 10 = 10 * (k div 10 div 10) + k div 10 mod 10"
      by (simp_all only: mult_div_mod_eq)
    moreover have "k div 100 mod 10 = k div 10 div 10"
      using that by (simp add: div_mult2_eq [of k 10 10, simplified])
    ultimately show ?thesis by linarith
  qed
  ultimately show "i = j"
    using ij(1,2) by (metis lessThan_iff)
qed


subsection \<open>The verdict\<close>

lemma spared_count:
  assumes "n \<le> 1000"
  shows "n \<le> length (filter (\<lambda>nid. nid \<notin> set ks \<union> - set (map node_name [0..<n])) (map node_name [0..<n]))
    + length ks"
proof -
  let ?ids = "map node_name [0..<n]"
  have "distinct ?ids"
    using inj_on_subset [OF node_name_inj, of "{0..<n}"] assms
    by (simp add: distinct_map lessThan_atLeast0)
  then have "length (filter (\<lambda>nid. nid \<in> set ks) ?ids) = card (set ?ids \<inter> set ks)"
    by (metis (no_types) distinct_card distinct_filter inter_set_filter inf_commute)
  also have "\<dots> \<le> length ks"
    by (meson card_length card_mono inf_le2 le_trans List.finite_set)
  finally have "length (filter (\<lambda>nid. nid \<in> set ks) ?ids) \<le> length ks" .
  moreover have "filter (\<lambda>nid. nid \<notin> set ks \<union> - set ?ids) ?ids = filter (\<lambda>nid. nid \<notin> set ks) ?ids"
    by (rule filter_cong) auto
  ultimately show ?thesis
    using sum_length_filter_compl [of "\<lambda>nid. nid \<in> set ks" ?ids] by simp
qed


text \<open>A run of two nodes for one second, too short for a draw.\<close>

definition sample_draw :: chaos_draw where
  "sample_draw = \<lparr>cd_offset = 0, cd_node = 0, cd_kind = ChaosKill, cd_sites = soak_sites\<rparr>"


text \<open>The plan of a short run submits its batch after the end of the run, and reports it as submitted.\<close>

lemma short_run_submits_nothing:
  assumes "0 < duration" and "duration \<le> 100"
  shows "sp_events (plan_soak n duration draws) = [] \<and> soak_batches duration = 1
    \<and> sim_events (sp_sim (plan_soak n duration draws)) = [(100, SubmitTask (soak_task 0))]"
proof -
  have "soak_hours duration = 0" "soak_batches duration = 1"
    using assms by (simp_all add: soak_hours_def soak_batches_def floor_eq_iff)
  moreover have "sim_events (soak_cluster n) = []"
    by (simp add: soak_cluster_def create_sim_def new_sim_def register_all Let_def tracker.defs)
  ultimately show ?thesis
    by (simp add: plan_soak_def plan_batch_def schedule_event_def)
qed

end
