(* ===== verification/Demo.thy ===== *)
theory Demo
  imports Soak
begin

section \<open>The demonstration (mesh/sim/demo.py)\<close>

text \<open>
  Five tasks on a simulated cluster of fifty nodes under two kills and one preemption, for sixty
  simulated seconds, and the figures that are printed.  The identifiers of the tasks are drawn.
\<close>

definition demo_task :: "string \<Rightarrow> nat \<Rightarrow> task_spec" where
  "demo_task tid i =
     (new_task_spec (''etl-job-'' @ [digit i]) tid)
       \<lparr>task_requirements := default_requirements\<lparr>cpu_cores_req := 4, ram_gb_req := 8\<rparr>,
        task_pool := Some POOL_CPU, task_checkpoint := True, total_work := 30\<rparr>"

fun demo_submit ::
  "(task_spec \<Rightarrow> node list \<Rightarrow> placement option result) \<Rightarrow> task_spec list \<Rightarrow> int sim_step" where
  "demo_submit pf [] = sret 0"
| "demo_submit pf (t # ts) =
     sbind (sim_submit pf t) (\<lambda>nid.
     sbind (demo_submit pf ts) (\<lambda>n.
       sret (case nid of Some (c # cs) \<Rightarrow> n + 1 | _ \<Rightarrow> n)))"

definition demo_chaos :: "sim \<Rightarrow> sim" where
  "demo_chaos s =
     preempt_node ''NODE-003'' 20 (95 / 100) (kill_node ''NODE-012'' 15 (kill_node ''NODE-005'' 10 s))"

text \<open>A task is shown with its state, its progress and its node.\<close>

record demo_report =
  dm_before :: sim_stats
  dm_placed :: int
  dm_after :: sim_stats
  dm_changes :: "(real \<times> string \<times> node_state \<times> node_state) list"
  dm_tasks :: "(string \<times> task_state \<times> real \<times> string) list"

definition shown_task :: "task_spec \<Rightarrow> string \<times> task_state \<times> real \<times> string" where
  "shown_task t = (task_name t, task_state t, progress_pct t,
     (case assigned_node t of Some (c # cs) \<Rightarrow> c # cs | _ \<Rightarrow> ''unassigned''))"

definition demo_main ::
  "nat \<Rightarrow> (task_spec \<Rightarrow> node list \<Rightarrow> placement option result) \<Rightarrow> string list \<Rightarrow> demo_report result option" where
  "demo_main fuel pf tids =
     (let ts = map (\<lambda>(tid, i). demo_task tid i) (zip tids [0..<5])
      in case sim_cluster_stats (create_sim 50 0) of (before, s1) \<Rightarrow>
           case demo_submit pf ts s1 of
             (Inl e, _) \<Rightarrow> Some (Inl e)
           | (Inr n, s2) \<Rightarrow>
               (case sim_run fuel pf 60 (demo_chaos s2) of
                  None \<Rightarrow> None
                | Some (Inl e, _) \<Rightarrow> Some (Inl e)
                | Some (Inr _, s3) \<Rightarrow>
                    (case sim_cluster_stats s3 of (after, s4) \<Rightarrow>
                       Some (Inr \<lparr>dm_before = before, dm_placed = n, dm_after = after,
                                  dm_changes = take 10 (sim_changes s4),
                                  dm_tasks = map (\<lambda>t. shown_task (the (dict_get (sim_tasks s4) (task_id t)))) ts\<rparr>))))"

text \<open>Sixty-one rounds of the loop are enough.\<close>

lemma demo_submit_clock:
  "sim_time s = now \<and> tick_interval s = dt \<Longrightarrow>
     sim_time (snd (demo_submit pf ts s)) = now \<and> tick_interval (snd (demo_submit pf ts s)) = dt"
proof (induction ts arbitrary: s)
  case (Cons t ts)
  show ?case
    unfolding demo_submit.simps
    by (rule sbind_keeps [where P = "\<lambda>s. sim_time s = now \<and> tick_interval s = dt", OF Cons.prems],
        erule clocked.P_submit [OF _ TrueI],
        rule sbind_keeps [where P = "\<lambda>s. sim_time s = now \<and> tick_interval s = dt"], assumption, erule Cons.IH)
      simp
qed simp

lemma new_sim_clock: "sim_time (new_sim agents start) = start \<and> tick_interval (new_sim agents start) = 1"
proof -
  have "sim_time (fold (\<lambda>a. tracker_register start (sa_node_id a)) as s) = sim_time s
      \<and> tick_interval (fold (\<lambda>a. tracker_register start (sa_node_id a)) as s) = tick_interval s"
    for as :: "sim_agent list" and s :: sim
    by (induction as arbitrary: s) (simp_all add: tracker_register_def)
  then show ?thesis
    by (simp add: new_sim_def tracker.extend_def)
qed

lemma stats_clock:
  assumes "sim_cluster_stats s = (st, s1)"
  shows "sim_time s1 = sim_time s \<and> tick_interval s1 = tick_interval s"
proof -
  obtain ns sts where "sim_live_nodes s = (ns, s\<lparr>states := sts\<rparr>)"
    by (rule sim_live_nodesE)
  then have "s1 = s\<lparr>states := sts\<rparr>"
    using assms by (simp add: sim_cluster_stats_def)
  then show ?thesis
    by simp
qed

lemma demo_ends: "\<exists>r. demo_main 61 pf tids = Some r"
proof -
  obtain before s1 where st: "sim_cluster_stats (create_sim 50 0) = (before, s1)"
    by fastforce
  have s1: "sim_time s1 = 0 \<and> tick_interval s1 = 1"
    using stats_clock [OF st] new_sim_clock [of "map created_agent [0..<50]" 0] unfolding create_sim_def by metis
  obtain r s2 where sub: "demo_submit pf (map (\<lambda>(tid, i). demo_task tid i) (zip tids [0..<5])) s1 = (r, s2)"
    by fastforce
  then have "sim_time s2 = 0" "tick_interval s2 = 1"
    using demo_submit_clock [OF s1] by (metis snd_conv)+
  then have clock: "sim_time (demo_chaos s2) = 0" "tick_interval (demo_chaos s2) = 1"
    by (simp_all add: demo_chaos_def kill_node_def preempt_node_def schedule_event_def)
  have "nat \<lceil>60 :: real\<rceil> = 60"
    by simp
  then have "\<exists>res s'. sim_run 61 pf 60 (demo_chaos s2) = Some (res, s')"
    using sim_run_terminates [of "demo_chaos s2" 60 pf] clock by (auto simp del: sim_run.simps)
  then show ?thesis
    using st sub by (cases r) (auto simp: demo_main_def Let_def simp del: sim_run.simps split: prod.split sum.split)
qed

end
